(* ===== verification/Prelude.thy ===== *)
theory Prelude
  imports Main "HOL-Library.Word" "HOL-Library.Sublist"
begin

unbundle bit_operations_syntax

text \<open>
  Shared vocabulary of the development: the fixed-width integer types of \<^verbatim>\<open><cstdint>\<close>, the
  C++ exceptions the program throws and the result type that carries them, the iteration order of
  a \<^verbatim>\<open>std::unordered_map\<close>, and the generic list, map and word lemmas the components use.
\<close>

section \<open>Machine integers\<close>

type_synonym u8 = "8 word"
type_synonym u16 = "16 word"
type_synonym u32 = "32 word"
type_synonym u64 = "64 word"
type_synonym bytes = "u8 list"

section \<open>Exceptions and results\<close>

text \<open>
  The subclasses of \<^verbatim>\<open>std::exception\<close> that the program or the library calls it makes
  can throw, with the text passed to the constructor.  A function that may throw returns
  \<open>cpp_exception + 'a\<close>: \<open>Inl\<close> is the exception, \<open>Inr\<close> the returned value.
\<close>

datatype cpp_exception =
    runtime_error string
  | invalid_argument string
  | out_of_range string

type_synonym 'a result = "cpp_exception + 'a"

definition bind_result :: "'a result \<Rightarrow> ('a \<Rightarrow> 'b result) \<Rightarrow> 'b result" where
  "bind_result m f = (case m of Inl e \<Rightarrow> Inl e | Inr x \<Rightarrow> f x)"

lemma bind_result_simps [simp]:
  "bind_result (Inl e) f = Inl e"
  "bind_result (Inr x) f = f x"
  by (simp_all add: bind_result_def)

lemma bind_result_assoc:
  "bind_result (bind_result m f) g = bind_result m (\<lambda>x. bind_result (f x) g)"
  by (cases m) simp_all

lemma bind_result_cong [fundef_cong]:
  "m = m' \<Longrightarrow> (\<And>x. m' = Inr x \<Longrightarrow> f x = f' x) \<Longrightarrow> bind_result m f = bind_result m' f'"
  by (cases m') simp_all

lemma bind_result_Inr_iff:
  "bind_result m f = Inr y \<longleftrightarrow> (\<exists>x. m = Inr x \<and> f x = Inr y)"
  by (cases m) auto

definition throws :: "'a result \<Rightarrow> bool" where
  "throws r = (case r of Inl _ \<Rightarrow> True | Inr _ \<Rightarrow> False)"

lemma throws_simps [simp]: "throws (Inl e)" "\<not> throws (Inr x)"
  by (simp_all add: throws_def)

text \<open>
  How far a service loop got on a finite list of inputs: \<open>Running\<close> has consumed its inputs and
  would go on, \<open>Left\<close> saw its flag cleared or returned, \<open>Threw\<close> was left by an exception.
\<close>

datatype loop_status = Running | Left | Threw cpp_exception

section \<open>Iteration order of an unordered map\<close>

text \<open>
  The order in which a range-for loop visits a \<^verbatim>\<open>std::unordered_map\<close> is not specified;
  all that the standard gives is that every element is visited exactly once.  A loop over a
  registry therefore takes the list of keys in visiting order as an argument, constrained by
  \<open>iterates\<close>.
\<close>

definition iterates :: "'k list \<Rightarrow> ('k \<rightharpoonup> 'v) \<Rightarrow> bool" where
  "iterates ks m \<longleftrightarrow> distinct ks \<and> set ks = dom m"

lemma iterates_distinct: "iterates ks m \<Longrightarrow> distinct ks"
  by (simp add: iterates_def)

lemma iterates_set: "iterates ks m \<Longrightarrow> set ks = dom m"
  by (simp add: iterates_def)

lemma iterates_finite: "iterates ks m \<Longrightarrow> finite (dom m)"
  by (metis iterates_def List.finite_set)

lemma iterates_length: "iterates ks m \<Longrightarrow> length ks = card (dom m)"
  by (metis distinct_card iterates_def)

lemma iterates_dom_cong: "dom m = dom m' \<Longrightarrow> iterates ks m = iterates ks m'"
  by (simp add: iterates_def)

lemma iterates_exists: "finite (dom m) \<Longrightarrow> \<exists>ks. iterates ks m"
  by (metis finite_distinct_list iterates_def)

lemma iterates_sort_unique:
  fixes ks :: "'k::linorder list"
  assumes "iterates ks m" "iterates ks' m"
  shows "sort ks = sort ks'"
  using assms by (metis iterates_def sorted_list_of_set_sort_remdups distinct_remdups_id)

section \<open>Lists\<close>

lemma take_drop_append_exact:
  "length xs = n \<Longrightarrow> take n (drop (length pre) (pre @ xs @ post)) = xs"
  by simp

lemma take_add_drop: "take (m + n) xs = take m xs @ take n (drop m xs)"
  by (simp add: take_add)

end
