(* ===== verification/Binary64.thy ===== *)
theory Binary64
  imports Prelude
begin

unbundle bit_operations_syntax

text \<open>
  The C++ type \<^verbatim>\<open>double\<close> on the platforms the program targets: IEEE-754 binary64,
  represented by its 64-bit object representation, which is what \<^verbatim>\<open>std::memcpy\<close>
  between a \<^verbatim>\<open>double\<close> and a \<^verbatim>\<open>uint64_t\<close> copies.  Comparison is
  computed exactly: every finite value is an integral multiple of \<open>2\<^sup>-\<^sup>1\<^sup>0\<^sup>7\<^sup>4\<close>, and
  \<open>scaled\<close> is that multiple.
\<close>

section \<open>Representation\<close>

datatype double = Double (double_bits: u64)

definition sign_bit :: "double \<Rightarrow> bool" where
  "sign_bit d = bit (double_bits d) 63"

definition exp_field :: "double \<Rightarrow> nat" where
  "exp_field d = unat (drop_bit 52 (double_bits d) AND 0x7FF)"

definition frac_field :: "double \<Rightarrow> nat" where
  "frac_field d = unat (double_bits d AND 0xFFFFFFFFFFFFF)"

definition is_nan :: "double \<Rightarrow> bool" where
  "is_nan d \<longleftrightarrow> exp_field d = 2047 \<and> frac_field d \<noteq> 0"

definition is_infinite :: "double \<Rightarrow> bool" where
  "is_infinite d \<longleftrightarrow> exp_field d = 2047 \<and> frac_field d = 0"

definition is_finite :: "double \<Rightarrow> bool" where
  "is_finite d \<longleftrightarrow> exp_field d \<noteq> 2047"

text \<open>
  The magnitude in units of \<open>2\<^sup>-\<^sup>1\<^sup>0\<^sup>7\<^sup>4\<close>.  On an infinity the formula gives a number above that of
  every finite value, so it orders infinities correctly too.
\<close>

definition magnitude :: "double \<Rightarrow> nat" where
  "magnitude d =
     (if exp_field d = 0 then frac_field d
      else (2 ^ 52 + frac_field d) * 2 ^ (exp_field d - 1))"

definition scaled :: "double \<Rightarrow> int" where
  "scaled d = (if sign_bit d then - int (magnitude d) else int (magnitude d))"

section \<open>Comparison\<close>

text \<open>The relational operators on \<^verbatim>\<open>double\<close>: false as soon as one operand is a NaN.\<close>

definition dlt :: "double \<Rightarrow> double \<Rightarrow> bool" where
  "dlt a b \<longleftrightarrow> \<not> is_nan a \<and> \<not> is_nan b \<and> scaled a < scaled b"

definition dle :: "double \<Rightarrow> double \<Rightarrow> bool" where
  "dle a b \<longleftrightarrow> \<not> is_nan a \<and> \<not> is_nan b \<and> scaled a \<le> scaled b"

abbreviation dgt :: "double \<Rightarrow> double \<Rightarrow> bool" where
  "dgt a b \<equiv> dlt b a"

abbreviation dge :: "double \<Rightarrow> double \<Rightarrow> bool" where
  "dge a b \<equiv> dle b a"

lemma dle_iff_not_dlt:
  "\<not> is_nan a \<Longrightarrow> \<not> is_nan b \<Longrightarrow> dle a b \<longleftrightarrow> \<not> dlt b a"
  by (auto simp: dle_def dlt_def)

lemma dlt_imp_dle: "dlt a b \<Longrightarrow> dle a b"
  by (simp add: dle_def dlt_def)

lemma dle_trans: "dle a b \<Longrightarrow> dle b c \<Longrightarrow> dle a c"
  by (auto simp: dle_def)

lemma dlt_dle_trans: "dlt a b \<Longrightarrow> dle b c \<Longrightarrow> dlt a c"
  by (auto simp: dle_def dlt_def)

lemma dle_dlt_trans: "dle a b \<Longrightarrow> dlt b c \<Longrightarrow> dlt a c"
  by (auto simp: dle_def dlt_def)

section \<open>Subtraction\<close>

text \<open>
  Subtraction rounds the exact difference to the nearest representable value, ties to even.  On
  magnitudes in units of \<open>2\<^sup>-\<^sup>1\<^sup>0\<^sup>7\<^sup>4\<close> this is \<open>round_mag\<close>: keep the leading 53 bits.
\<close>

fun bit_length :: "nat \<Rightarrow> nat" where
  "bit_length n = (if n = 0 then 0 else Suc (bit_length (n div 2)))"

declare bit_length.simps [simp del]

definition round_mag :: "nat \<Rightarrow> nat" where
  "round_mag n =
     (if n < 2 ^ 53 then n
      else let s = bit_length n - 53; q = n div 2 ^ s; r = n mod 2 ^ s
           in (if 2 * r > 2 ^ s \<or> 2 * r = 2 ^ s \<and> odd q then Suc q else q) * 2 ^ s)"

definition encode_mag :: "nat \<Rightarrow> nat" where
  "encode_mag n =
     (if n < 2 ^ 52 then n
      else let e = bit_length n - 52
           in if e \<ge> 2047 then 2047 * 2 ^ 52 else e * 2 ^ 52 + (n div 2 ^ (e - 1) - 2 ^ 52))"

definition of_magnitude :: "bool \<Rightarrow> nat \<Rightarrow> double" where
  "of_magnitude neg n = Double (of_nat ((if neg then 2 ^ 63 else 0) + encode_mag n))"

definition quiet_nan :: double where
  "quiet_nan = Double 0x7FF8000000000000"

definition dneg :: "double \<Rightarrow> double" where
  "dneg d = Double (double_bits d XOR 0x8000000000000000)"

definition dsub :: "double \<Rightarrow> double \<Rightarrow> double" where
  "dsub a b =
     (if is_nan a \<or> is_nan b then quiet_nan
      else if is_infinite a then
        (if is_infinite b \<and> sign_bit a = sign_bit b then quiet_nan else a)
      else if is_infinite b then dneg b
      else let z = scaled a - scaled b
           in if z = 0 then of_magnitude (sign_bit a \<and> \<not> sign_bit b) 0
              else of_magnitude (z < 0) (round_mag (nat \<bar>z\<bar>)))"

section \<open>Fields of a representation\<close>

lemma exp_field_unat: "exp_field (Double w) = unat w div 2 ^ 52 mod 2048"
proof -
  have "drop_bit 52 w AND 0x7FF = take_bit 11 (drop_bit 52 w)"
    by (simp add: take_bit_eq_mask mask_eq_exp_minus_1)
  then show ?thesis
    by (simp add: exp_field_def take_bit_eq_mod drop_bit_eq_div unat_mod_distrib
        unat_div_distrib)
qed

lemma frac_field_unat: "frac_field (Double w) = unat w mod 2 ^ 52"
proof -
  have "w AND 0xFFFFFFFFFFFFF = take_bit 52 w"
    by (simp add: take_bit_eq_mask mask_eq_exp_minus_1)
  then show ?thesis
    by (simp add: frac_field_def take_bit_eq_mod unat_mod_distrib)
qed

lemma sign_bit_unat: "sign_bit (Double w) \<longleftrightarrow> 2 ^ 63 \<le> unat w"
proof -
  have "sign_bit (Double w) \<longleftrightarrow> bit (unat w) 63"
    by (simp add: sign_bit_def bit_unsigned_iff)
  then have "sign_bit (Double w) \<longleftrightarrow> odd (unat w div 2 ^ 63)"
    by (simp only: bit_iff_odd)
  moreover have "unat w < 2 ^ 64"
    using unsigned_less [of w] by simp
  then have "unat w div 2 ^ 63 < 2" by (simp add: div_less_iff_less_mult)
  ultimately show ?thesis
    by (cases "unat w < 2 ^ 63") (auto simp: less_Suc_eq numeral_2_eq_2 div_eq_0_iff)
qed


lemma fields_of_nat:
  assumes "e < 2048" "f < 2 ^ 52"
    and d_def: "d = Double (of_nat ((if neg then 2 ^ 63 else 0) + (e * 2 ^ 52 + f)))"
  shows "exp_field d = e" "frac_field d = f" "sign_bit d = neg"
proof -
  let ?n = "(if neg then 2 ^ 63 else 0) + (e * 2 ^ 52 + f)"
  have small: "e * 2 ^ 52 + f < 2 ^ 63"
  proof -
    have "e * 2 ^ 52 + f < (e + 1) * 2 ^ 52"
      using assms(2) by simp
    also have "\<dots> \<le> 2048 * 2 ^ 52"
      using assms(1) by (intro mult_le_mono1) simp
    finally show ?thesis by simp
  qed
  then have "?n < 2 ^ 64" by (simp split: if_splits)
  then have n: "unat (of_nat ?n :: u64) = ?n"
    unfolding unat_of_nat by simp
  have top: "((2 :: nat) ^ 63 + x) div 2 ^ 52 mod 2048 = x div 2 ^ 52 mod 2048"
    "((2 :: nat) ^ 63 + x) mod 2 ^ 52 = x mod 2 ^ 52" for x
  proof -
    have eq: "(2 :: nat) ^ 63 + x = 2048 * 2 ^ 52 + x" by simp
    show "((2 :: nat) ^ 63 + x) div 2 ^ 52 mod 2048 = x div 2 ^ 52 mod 2048"
      unfolding eq by (subst div_mult_self3) simp_all
    show "((2 :: nat) ^ 63 + x) mod 2 ^ 52 = x mod 2 ^ 52"
      unfolding eq by (rule mod_mult_self3)
  qed
  have "(e * 2 ^ 52 + f) div 2 ^ 52 mod 2048 = e" "(e * 2 ^ 52 + f) mod 2 ^ 52 = f"
    using assms(1,2) by simp_all
  then show "exp_field d = e" "frac_field d = f" "sign_bit d = neg"
    using small unfolding d_def exp_field_unat frac_field_unat sign_bit_unat n
    by (cases neg; simp only: if_True if_False add_0 top; simp)+
qed

section \<open>Bit length\<close>

lemma bit_length_0 [simp]: "bit_length 0 = 0"
  by (simp add: bit_length.simps)

lemma bit_length_pos: "0 < n \<Longrightarrow> bit_length n = Suc (bit_length (n div 2))"
  by (subst bit_length.simps) simp

lemma less_power_bit_length: "n < 2 ^ bit_length n"
proof (induction n rule: bit_length.induct)
  case (1 n)
  show ?case
  proof (cases "n = 0")
    case False
    with 1 have "n div 2 < 2 ^ bit_length (n div 2)" by simp
    with False show ?thesis by (simp add: bit_length_pos)
  qed simp
qed

lemma power_bit_length_le: "0 < n \<Longrightarrow> 2 ^ (bit_length n - 1) \<le> n"
proof (induction n rule: bit_length.induct)
  case (1 n)
  show ?case
  proof (cases "n div 2 = 0")
    case True
    with 1 show ?thesis by (simp add: bit_length_pos)
  next
    case False
    with 1 have "2 ^ (bit_length (n div 2) - 1) \<le> n div 2" by simp
    moreover have "bit_length (n div 2) = Suc (bit_length (n div 2) - 1)"
      using False by (simp add: bit_length_pos)
    ultimately show ?thesis
      using 1(2) by (simp add: bit_length_pos [of n]) (metis mult_le_mono2 order_trans power_Suc
          div_times_less_eq_dividend mult.commute)
  qed
qed

lemma bit_length_le_iff: "bit_length n \<le> k \<longleftrightarrow> n < 2 ^ k"
proof
  assume "bit_length n \<le> k"
  then have "(2 :: nat) ^ bit_length n \<le> 2 ^ k" by simp
  with less_power_bit_length [of n] show "n < 2 ^ k" by (rule order_less_le_trans)
next
  assume n: "n < 2 ^ k"
  show "bit_length n \<le> k"
  proof (cases "n = 0")
    case False
    then have "(2 :: nat) ^ (bit_length n - 1) < 2 ^ k"
      using power_bit_length_le [of n] n by (metis neq0_conv order_le_less_trans)
    then have "bit_length n - 1 < k" by (rule power_less_imp_less_exp [rotated]) simp
    then show ?thesis by simp
  qed simp
qed

section \<open>Representable magnitudes\<close>

definition representable :: "nat \<Rightarrow> bool" where
  "representable n \<longleftrightarrow> (\<exists>m e. n = m * 2 ^ e \<and> m < 2 ^ 53)"

lemma representable_dvd:
  assumes "representable n" "0 < n"
  shows "2 ^ (bit_length n - 53) dvd n"
proof -
  obtain m e where n: "n = m * 2 ^ e" and m: "m < 2 ^ 53"
    using assms(1) by (auto simp: representable_def)
  have "n < 2 ^ (53 + e)"
    unfolding n power_add using m by simp
  then have "bit_length n - 53 \<le> e"
    using bit_length_le_iff [of n "53 + e"] by simp
  then show ?thesis
    unfolding n by (simp add: le_imp_power_dvd)
qed

lemma representable_magnitude: "representable (magnitude d)"
proof -
  have "frac_field d < 2 ^ 52"
    by (cases d) (simp add: frac_field_unat)
  then have "frac_field d < 2 ^ 53" "2 ^ 52 + frac_field d < 2 ^ 53" by simp_all
  then show ?thesis
    unfolding magnitude_def representable_def by (metis mult.right_neutral power_0)
qed

lemma magnitude_of_magnitude:
  assumes rep: "representable n" and small: "n < 2 ^ 2098"
  shows "magnitude (of_magnitude neg n) = n" "sign_bit (of_magnitude neg n) = neg"
    "exp_field (of_magnitude neg n) < 2047"
proof -
  have "\<exists>e f. e < 2047 \<and> f < 2 ^ 52 \<and> encode_mag n = e * 2 ^ 52 + f \<and>
      n = (if e = 0 then f else (2 ^ 52 + f) * 2 ^ (e - 1))"
  proof (cases "n < 2 ^ 52")
    case True
    then show ?thesis
      by (intro exI [of _ 0] exI [of _ n]) (simp add: encode_mag_def)
  next
    case False
    let ?e = "bit_length n - 52"
    let ?f = "n div 2 ^ (?e - 1) - 2 ^ 52"
    have bl: "52 < bit_length n"
      using False bit_length_le_iff [of n 52] by simp
    have e: "?e < 2047" "?e \<noteq> 0"
      using bl small bit_length_le_iff [of n 2098] by simp_all
    have n0: "0 < n" using False by (cases n) simp_all
    have "bit_length n = 53 + (?e - 1)" "bit_length n - 1 = 52 + (?e - 1)"
      using bl by simp_all
    then have split: "2 ^ bit_length n = 2 ^ 53 * (2 :: nat) ^ (?e - 1)"
      "2 ^ (bit_length n - 1) = 2 ^ 52 * (2 :: nat) ^ (?e - 1)"
      by (metis power_add)+
    have lo: "2 ^ 52 \<le> n div 2 ^ (?e - 1)"
      using power_bit_length_le [OF n0] unfolding split by (simp add: less_eq_div_iff_mult_less_eq)
    have hi: "n div 2 ^ (?e - 1) < 2 ^ 53"
      using less_power_bit_length [of n] unfolding split by (simp add: div_less_iff_less_mult)
    have "2 ^ (?e - 1) dvd n"
      using representable_dvd [OF rep n0] bl by simp
    then have "n = (n div 2 ^ (?e - 1)) * 2 ^ (?e - 1)" by simp
    then have "n = (2 ^ 52 + ?f) * 2 ^ (?e - 1)"
      using lo by simp
    moreover have "?f < 2 ^ 52" using hi lo by simp
    moreover have "encode_mag n = ?e * 2 ^ 52 + ?f"
      using False e by (simp add: encode_mag_def Let_def)
    ultimately show ?thesis
      using e by (intro exI [of _ ?e] exI [of _ ?f]) simp
  qed
  then obtain e f where ef: "e < 2047" "f < 2 ^ 52" "encode_mag n = e * 2 ^ 52 + f"
    "n = (if e = 0 then f else (2 ^ 52 + f) * 2 ^ (e - 1))" by blast
  have "of_magnitude neg n = Double (of_nat ((if neg then 2 ^ 63 else 0) + (e * 2 ^ 52 + f)))"
    by (simp add: of_magnitude_def ef(3))
  from fields_of_nat [OF _ ef(2) this] ef(1)
  have fields: "exp_field (of_magnitude neg n) = e" "frac_field (of_magnitude neg n) = f"
    "sign_bit (of_magnitude neg n) = neg" by simp_all
  show "magnitude (of_magnitude neg n) = n"
    by (rule trans [OF _ ef(4) [symmetric]]) (simp only: magnitude_def fields)
  show "exp_field (of_magnitude neg n) < 2047" by (simp only: fields ef(1))
  show "sign_bit (of_magnitude neg n) = neg" by (rule fields)
qed

section \<open>Rounding\<close>

lemma round_mag_cases:
  obtains (exact) "n < 2 ^ 53" "round_mag n = n"
  | (rounded) s q r q' where "s = bit_length n - 53" "53 < bit_length n"
      "n = q * 2 ^ s + r" "r < 2 ^ s" "q < 2 ^ 53" "2 ^ 52 \<le> q"
      "round_mag n = q' * 2 ^ s" "q' = q \<or> q' = Suc q \<and> 0 < r \<and> 2 ^ s \<le> 2 * r"
proof (cases "n < 2 ^ 53")
  case True
  then show thesis by (intro exact) (simp_all add: round_mag_def)
next
  case False
  let ?s = "bit_length n - 53"
  have bl: "53 < bit_length n"
    using False bit_length_le_iff [of n 53] by simp
  then have "bit_length n = 53 + ?s" "bit_length n - 1 = 52 + ?s"
    by simp_all
  then have split: "2 ^ bit_length n = 2 ^ 53 * (2 :: nat) ^ ?s"
    "2 ^ (bit_length n - 1) = 2 ^ 52 * (2 :: nat) ^ ?s"
    by (metis power_add)+
  have n0: "0 < n" using False by (cases n) simp_all
  show thesis
  proof (rule rounded)
    show "n = (n div 2 ^ ?s) * 2 ^ ?s + n mod 2 ^ ?s" by (rule div_mult_mod_eq [symmetric])
    show "n mod 2 ^ ?s < 2 ^ ?s" by simp
    show "n div 2 ^ ?s < 2 ^ 53"
      using less_power_bit_length [of n] unfolding split by (simp add: div_less_iff_less_mult)
    show "2 ^ 52 \<le> n div 2 ^ ?s"
      using power_bit_length_le [OF n0] unfolding split
      by (simp add: less_eq_div_iff_mult_less_eq)
    let ?up = "2 * (n mod 2 ^ ?s) > 2 ^ ?s \<or> 2 * (n mod 2 ^ ?s) = 2 ^ ?s \<and> odd (n div 2 ^ ?s)"
    show "round_mag n = (if ?up then Suc (n div 2 ^ ?s) else n div 2 ^ ?s) * 2 ^ ?s"
      using False by (simp add: round_mag_def Let_def)
    have "0 < n mod 2 ^ ?s" if ?up
    proof (rule ccontr)
      assume "\<not> 0 < n mod 2 ^ ?s"
      then have "n mod 2 ^ ?s = 0" by simp
      with that show False by (metis less_nat_zero_code mult_0_right power_eq_0_iff zero_neq_numeral)
    qed
    moreover have "2 ^ ?s \<le> 2 * (n mod 2 ^ ?s)" if ?up
      using that by (elim disjE conjE) (simp_all only: less_imp_le_nat order_refl)
    ultimately show "(if ?up then Suc (n div 2 ^ ?s) else n div 2 ^ ?s) = n div 2 ^ ?s \<or>
        (if ?up then Suc (n div 2 ^ ?s) else n div 2 ^ ?s) = Suc (n div 2 ^ ?s) \<and>
        0 < n mod 2 ^ ?s \<and> 2 ^ ?s \<le> 2 * (n mod 2 ^ ?s)"
      by (simp only: if_True if_False split: if_split) blast
  qed (use bl in simp_all)
qed

lemma round_mag_0 [simp]: "round_mag 0 = 0"
  by (simp add: round_mag_def)

lemma round_mag_representable: "representable (round_mag n)"
proof (cases rule: round_mag_cases [of n])
  case exact
  then show ?thesis unfolding representable_def by (metis mult.right_neutral power_0)
next
  case (rounded s q r q')
  show ?thesis
  proof (cases "q' < 2 ^ 53")
    case True
    with rounded show ?thesis unfolding representable_def by metis
  next
    case False
    with rounded have "q' = 2 ^ 53" by auto
    then have "round_mag n = 1 * 2 ^ (53 + s)"
      using rounded(7) by (simp add: power_add)
    then show ?thesis unfolding representable_def by (metis one_less_numeral_iff one_less_power
        semiring_norm(76) zero_less_numeral)
  qed
qed

lemma round_mag_le:
  assumes m: "representable m" and le: "n \<le> m"
  shows "round_mag n \<le> m"
proof (cases rule: round_mag_cases [of n])
  case exact
  with le show ?thesis by simp
next
  case (rounded s q r q')
  show ?thesis
  proof (cases "q' = q")
    case True
    with rounded le show ?thesis by simp
  next
    case False
    then have q': "q' = Suc q" and r: "0 < r" using rounded(8) by simp_all
    have "2 ^ s dvd m"
    proof -
      have "s \<le> bit_length m - 53"
        using rounded(1) le bit_length_le_iff less_power_bit_length
        by (metis diff_le_mono order_le_less_trans)
      moreover have "0 < m" using rounded(3) r le by simp
      ultimately show ?thesis
        using representable_dvd [OF m] by (meson dvd_trans le_imp_power_dvd)
    qed
    then obtain k where k: "m = k * 2 ^ s" by (metis dvd_div_mult_self)
    have "q * 2 ^ s < k * 2 ^ s"
      using rounded(3) r le k by linarith
    then have "Suc q \<le> k" by simp
    then have "Suc q * 2 ^ s \<le> k * 2 ^ s" by (rule mult_le_mono1)
    then show ?thesis by (simp only: rounded(7) q' k)
  qed
qed

lemma round_mag_pos: "0 < n \<Longrightarrow> 0 < round_mag n"
proof (cases rule: round_mag_cases [of n])
  case (rounded s q r q')
  then have "0 < q'" by auto
  with rounded(7) show ?thesis by simp
qed simp

lemma round_mag_error: "2 * round_mag n \<le> 2 * n + 2 ^ (bit_length n - 53)"
proof (cases rule: round_mag_cases [of n])
  case (rounded s q r q')
  from rounded(8) have "2 * (q' * 2 ^ s) \<le> 2 * (q * 2 ^ s) + 2 * r + 2 ^ s"
    by (elim disjE) (simp_all add: add_mult_distrib)
  moreover have "2 * n = 2 * (q * 2 ^ s) + 2 * r"
    using rounded(3) by simp
  ultimately show ?thesis
    using rounded(1,7) by metis
qed simp

section \<open>Subtraction of non-negative values\<close>

lemma is_finite_not_nan: "is_finite d \<Longrightarrow> \<not> is_nan d \<and> \<not> is_infinite d"
  by (simp add: is_finite_def is_nan_def is_infinite_def)

lemma magnitude_bound:
  assumes "is_finite d"
  shows "magnitude d < 2 ^ 2098"
proof -
  have f: "frac_field d < 2 ^ 52" and e: "exp_field d < 2048"
    by (cases d, simp add: frac_field_unat exp_field_unat)+
  show ?thesis
  proof (cases "exp_field d = 0")
    case True
    have "frac_field d < 2 ^ 2098"
      using f by (rule order_less_le_trans) (rule power_increasing, simp_all)
    with True show ?thesis by (simp add: magnitude_def)
  next
    case False
    have "(2 ^ 52 + frac_field d) * 2 ^ (exp_field d - 1) < 2 ^ 53 * 2 ^ (exp_field d - 1)"
      using f by simp
    also have "\<dots> = 2 ^ (53 + (exp_field d - 1))" by (simp only: power_add)
    also have "\<dots> \<le> 2 ^ 2098"
      using e assms by (intro power_increasing) (simp_all add: is_finite_def)
    finally show ?thesis using False by (simp add: magnitude_def)
  qed
qed

lemma scaled_nonneg: "0 \<le> scaled d \<Longrightarrow> scaled d = int (magnitude d)"
  by (simp add: scaled_def split: if_splits)

lemma scaled_of_magnitude:
  assumes "representable n" "n < 2 ^ 2098"
  shows "scaled (of_magnitude neg n) = (if neg then - int n else int n)"
    "is_finite (of_magnitude neg n)"
  using magnitude_of_magnitude [OF assms, of neg]
  by (cases neg; simp add: scaled_def is_finite_def)+

lemma representable_0 [simp]: "representable 0"
  by (auto simp: representable_def)

lemma dsub_nonneg:
  assumes fin: "is_finite a" "is_finite b" and pos: "0 \<le> scaled a" "0 \<le> scaled b"
  defines "z \<equiv> scaled a - scaled b"
  shows "scaled (dsub a b) = (if z < 0 then - int (round_mag (nat (- z))) else int (round_mag (nat z)))"
    and "is_finite (dsub a b)"
proof -
  have ab: "scaled a = int (magnitude a)" "scaled b = int (magnitude b)"
    using pos by (simp_all only: scaled_nonneg)
  have "round_mag (nat \<bar>z\<bar>) < 2 ^ 2098"
  proof (cases "z < 0")
    case True
    then have "nat \<bar>z\<bar> \<le> magnitude b" by (simp add: z_def ab)
    then have "round_mag (nat \<bar>z\<bar>) \<le> magnitude b"
      by (rule round_mag_le [OF representable_magnitude])
    also note magnitude_bound [OF fin(2)]
    finally show ?thesis .
  next
    case False
    then have "nat \<bar>z\<bar> \<le> magnitude a" by (simp add: z_def ab)
    then have "round_mag (nat \<bar>z\<bar>) \<le> magnitude a"
      by (rule round_mag_le [OF representable_magnitude])
    also note magnitude_bound [OF fin(1)]
    finally show ?thesis .
  qed
  note res = scaled_of_magnitude [OF round_mag_representable this, of "z < 0"]
  have zero: "scaled (of_magnitude neg 0) = 0" "is_finite (of_magnitude neg 0)" for neg
    using scaled_of_magnitude [of 0 neg] by simp_all
  have dsub: "dsub a b = (if z = 0 then of_magnitude (sign_bit a \<and> \<not> sign_bit b) 0
      else of_magnitude (z < 0) (round_mag (nat \<bar>z\<bar>)))"
    using fin by (simp add: dsub_def is_finite_not_nan z_def Let_def)
  show "scaled (dsub a b) = (if z < 0 then - int (round_mag (nat (- z))) else int (round_mag (nat z)))"
    using res(1) zero(1) by (cases "z = 0") (simp_all add: dsub)
  show "is_finite (dsub a b)"
    using res(2) zero(2) by (simp add: dsub)
qed

end
