(* ===== verification/ProtocolTypes.thy ===== *)
theory ProtocolTypes
  imports Binary64
begin

text \<open>
  The protocol vocabulary of \<^verbatim>\<open>include/common/ProtocolTypes.hpp\<close> and its display names
  (\<^verbatim>\<open>src/common/SensorTypesString.cpp\<close>).

  The three wire enumerations have the fixed underlying type \<^verbatim>\<open>uint8_t\<close>, so a
  \<^verbatim>\<open>static_cast\<close> from any byte is defined and yields a value that may be none of the
  enumerators.  Each datatype therefore has the source's enumerators plus one constructor for such
  a value, and the \<open>_ok\<close> predicates say that this constructor is not used for an enumerator's code.
\<close>

section \<open>Enumerations\<close>

definition SENSOR_HEARTBEAT_TIMEOUT_MS :: u64 where
  "SENSOR_HEARTBEAT_TIMEOUT_MS = 10000"

datatype SensorType = Motion | Temperature | Battery | Pressure | SensorType_cast u8

datatype SensorState = ACTIVE | WARNING | ERROR | SensorState_cast u8

datatype MessageType = TELEMETRY | HEARTBEAT | MessageType_cast u8

datatype SensorHealth = UNKNOWN | ONLINE | OFFLINE

fun SensorType_code :: "SensorType \<Rightarrow> u8" where
  "SensorType_code Motion = 1"
| "SensorType_code Temperature = 2"
| "SensorType_code Battery = 3"
| "SensorType_code Pressure = 4"
| "SensorType_code (SensorType_cast b) = b"

definition SensorType_of :: "u8 \<Rightarrow> SensorType" where
  "SensorType_of b =
     (if b = 1 then Motion else if b = 2 then Temperature else if b = 3 then Battery
      else if b = 4 then Pressure else SensorType_cast b)"

fun SensorState_code :: "SensorState \<Rightarrow> u8" where
  "SensorState_code ACTIVE = 1"
| "SensorState_code WARNING = 2"
| "SensorState_code ERROR = 3"
| "SensorState_code (SensorState_cast b) = b"

definition SensorState_of :: "u8 \<Rightarrow> SensorState" where
  "SensorState_of b =
     (if b = 1 then ACTIVE else if b = 2 then WARNING else if b = 3 then ERROR
      else SensorState_cast b)"

fun MessageType_code :: "MessageType \<Rightarrow> u8" where
  "MessageType_code TELEMETRY = 1"
| "MessageType_code HEARTBEAT = 2"
| "MessageType_code (MessageType_cast b) = b"

definition MessageType_of :: "u8 \<Rightarrow> MessageType" where
  "MessageType_of b =
     (if b = 1 then TELEMETRY else if b = 2 then HEARTBEAT else MessageType_cast b)"

definition SensorType_ok :: "SensorType \<Rightarrow> bool" where
  "SensorType_ok t \<longleftrightarrow> SensorType_of (SensorType_code t) = t"

definition SensorState_ok :: "SensorState \<Rightarrow> bool" where
  "SensorState_ok s \<longleftrightarrow> SensorState_of (SensorState_code s) = s"

definition MessageType_ok :: "MessageType \<Rightarrow> bool" where
  "MessageType_ok t \<longleftrightarrow> MessageType_of (MessageType_code t) = t"

lemma enum_code_of [simp]:
  "SensorType_code (SensorType_of b) = b"
  "SensorState_code (SensorState_of b) = b"
  "MessageType_code (MessageType_of b) = b"
  by (simp_all add: SensorType_of_def SensorState_of_def MessageType_of_def)

lemma enum_of_ok [simp]:
  "SensorType_ok (SensorType_of b)"
  "SensorState_ok (SensorState_of b)"
  "MessageType_ok (MessageType_of b)"
  by (simp_all add: SensorType_ok_def SensorState_ok_def MessageType_ok_def)

lemma enumerators_ok [simp]:
  "SensorType_ok Motion" "SensorType_ok Temperature" "SensorType_ok Battery"
  "SensorType_ok Pressure"
  "SensorState_ok ACTIVE" "SensorState_ok WARNING" "SensorState_ok ERROR"
  "MessageType_ok TELEMETRY" "MessageType_ok HEARTBEAT"
  by (simp_all add: SensorType_ok_def SensorState_ok_def MessageType_ok_def
      SensorType_of_def SensorState_of_def MessageType_of_def)

lemma MessageType_of_eq_iff [simp]:
  "MessageType_of b = TELEMETRY \<longleftrightarrow> b = 1"
  "MessageType_of b = HEARTBEAT \<longleftrightarrow> b = 2"
  by (simp_all add: MessageType_of_def)

lemma MessageType_of_enumerators [simp]:
  "MessageType_of 1 = TELEMETRY" "MessageType_of 2 = HEARTBEAT"
  by simp_all

section \<open>Messages\<close>

record PacketHeader =
  ph_type :: MessageType
  ph_sensorId :: u32
  ph_timestamp_ms :: u64

record HeartbeatMessage =
  hb_header :: PacketHeader

record TelemetryMessage =
  tm_header :: PacketHeader
  tm_type :: SensorType
  tm_state :: SensorState
  tm_value :: double

definition PacketHeader_ok :: "PacketHeader \<Rightarrow> bool" where
  "PacketHeader_ok h \<longleftrightarrow> MessageType_ok (ph_type h)"

definition HeartbeatMessage_ok :: "HeartbeatMessage \<Rightarrow> bool" where
  "HeartbeatMessage_ok m \<longleftrightarrow> PacketHeader_ok (hb_header m)"

definition TelemetryMessage_ok :: "TelemetryMessage \<Rightarrow> bool" where
  "TelemetryMessage_ok m \<longleftrightarrow>
     PacketHeader_ok (tm_header m) \<and> SensorType_ok (tm_type m) \<and> SensorState_ok (tm_state m)"

text \<open>Value-initialisation (\<^verbatim>\<open>TelemetryMessage lastTelemetry{}\<close>) zeroes every field.\<close>

definition zero_TelemetryMessage :: TelemetryMessage where
  "zero_TelemetryMessage =
     \<lparr>tm_header = \<lparr>ph_type = MessageType_cast 0, ph_sensorId = 0, ph_timestamp_ms = 0\<rparr>,
      tm_type = SensorType_cast 0, tm_state = SensorState_cast 0, tm_value = Double 0\<rparr>"

lemma zero_TelemetryMessage_ok [simp]: "TelemetryMessage_ok zero_TelemetryMessage"
  by (simp add: zero_TelemetryMessage_def TelemetryMessage_ok_def PacketHeader_ok_def
      SensorType_ok_def SensorState_ok_def MessageType_ok_def
      SensorType_of_def SensorState_of_def MessageType_of_def)

section \<open>Counters and statistics\<close>

text \<open>\<^verbatim>\<open>size_t\<close> is the 64-bit unsigned type of the LP64 target.\<close>

record HealthCounts =
  hc_online :: u64
  hc_offline :: u64
  hc_unknown :: u64

definition default_HealthCounts :: HealthCounts where
  "default_HealthCounts = \<lparr>hc_online = 0, hc_offline = 0, hc_unknown = 0\<rparr>"

record SystemStats =
  ss_totalSensors :: u64
  ss_telemetryPackets :: u64
  ss_heartbeatPackets :: u64
  ss_health :: HealthCounts

definition default_SystemStats :: SystemStats where
  "default_SystemStats =
     \<lparr>ss_totalSensors = 0, ss_telemetryPackets = 0, ss_heartbeatPackets = 0,
      ss_health = default_HealthCounts\<rparr>"

section \<open>Display names\<close>

fun to_string_SensorType :: "SensorType \<Rightarrow> string" where
  "to_string_SensorType Motion = ''Motion''"
| "to_string_SensorType Temperature = ''Temperature''"
| "to_string_SensorType Battery = ''Battery''"
| "to_string_SensorType Pressure = ''Pressure''"
| "to_string_SensorType (SensorType_cast _) = ''Unknown''"

fun to_string_SensorState :: "SensorState \<Rightarrow> string" where
  "to_string_SensorState ACTIVE = ''ACTIVE''"
| "to_string_SensorState WARNING = ''WARNING''"
| "to_string_SensorState ERROR = ''ERROR''"
| "to_string_SensorState (SensorState_cast _) = ''UNKNOWN''"

definition to_string_MessageType :: "MessageType \<Rightarrow> string" where
  "to_string_MessageType t = (if t = TELEMETRY then ''TELEMETRY'' else ''HEARTBEAT'')"

fun to_string_SensorHealth :: "SensorHealth \<Rightarrow> string" where
  "to_string_SensorHealth ONLINE = ''ONLINE''"
| "to_string_SensorHealth OFFLINE = ''OFFLINE''"
| "to_string_SensorHealth UNKNOWN = ''UNKNOWN''"

end
