(* ===== verification/Sensors.thy ===== *)
theory Sensors
  imports ProtocolTypes
begin

text \<open>
  The sensor hierarchy of \<^verbatim>\<open>include/sensor\<close> and \<^verbatim>\<open>src/sensor\<close>.  The base class
  is an extensible record and each derived class extends it with its own members, so the base class
  functions apply to all of them.  A random draw (\<^verbatim>\<open>dist(gen)\<close>) is the argument
  \<open>draw\<close>; what the documentation of the distribution says about its range is a hypothesis where a
  property needs it.
\<close>

section \<open>The base class\<close>

text \<open>\<open>currentReading\<close> is not initialised by the constructor: \<open>None\<close> until it is first written.\<close>

record Sensor =
  sensorId :: u32
  currentReading :: "TelemetryMessage option"
  currentState :: SensorState
  currentValue :: double

definition zero_double :: double where
  "zero_double = Double 0"

definition new_Sensor :: "u32 \<Rightarrow> Sensor" where
  "new_Sensor i =
     \<lparr>sensorId = i, currentReading = None, currentState = ACTIVE, currentValue = zero_double\<rparr>"

definition updateState :: "SensorState \<Rightarrow> 'a Sensor_scheme \<Rightarrow> 'a Sensor_scheme" where
  "updateState st s = s\<lparr>currentState := st\<rparr>"

definition createTelemetry ::
  "u64 \<Rightarrow> SensorType \<Rightarrow> 'a Sensor_scheme \<Rightarrow> TelemetryMessage \<times> 'a Sensor_scheme" where
  "createTelemetry t ty s =
     (let message =
        \<lparr>tm_header = \<lparr>ph_type = TELEMETRY, ph_sensorId = sensorId s, ph_timestamp_ms = t\<rparr>,
         tm_type = ty, tm_state = currentState s, tm_value = currentValue s\<rparr>
      in (message, s\<lparr>currentReading := Some message\<rparr>))"

definition getId :: "'a Sensor_scheme \<Rightarrow> u32" where
  "getId s = sensorId s"

section \<open>Motion sensor\<close>

record MotionSensor = Sensor +
  motionLevel :: double

definition motion_threshold :: double where
  "motion_threshold = Double 0x3FE0000000000000"

definition new_MotionSensor :: "u32 \<Rightarrow> MotionSensor" where
  "new_MotionSensor i = Sensor.extend (new_Sensor i) (MotionSensor.fields zero_double)"

definition detectMotion :: "MotionSensor \<Rightarrow> bool" where
  "detectMotion s = dgt (motionLevel s) motion_threshold"

definition collectData_Motion :: "double \<Rightarrow> MotionSensor \<Rightarrow> double \<times> MotionSensor" where
  "collectData_Motion draw s =
     (let s = s\<lparr>motionLevel := draw\<rparr>;
          s = s\<lparr>currentValue := motionLevel s\<rparr>;
          s = s\<lparr>currentState := (if detectMotion s then ACTIVE else WARNING)\<rparr>
      in (motionLevel s, s))"

definition getType_Motion :: "MotionSensor \<Rightarrow> SensorType" where
  "getType_Motion s = Motion"

section \<open>Temperature sensor\<close>

record TemperatureSensor = Sensor +
  temperatureLevel :: double

definition temperature_WARNING_THRESHOLD :: double where
  "temperature_WARNING_THRESHOLD = Double 0x403E000000000000"

definition temperature_ERROR_THRESHOLD :: double where
  "temperature_ERROR_THRESHOLD = Double 0x4044000000000000"

definition new_TemperatureSensor :: "u32 \<Rightarrow> TemperatureSensor" where
  "new_TemperatureSensor i = Sensor.extend (new_Sensor i) (TemperatureSensor.fields zero_double)"

definition collectData_Temperature ::
  "double \<Rightarrow> TemperatureSensor \<Rightarrow> double \<times> TemperatureSensor" where
  "collectData_Temperature draw s =
     (let s = s\<lparr>temperatureLevel := draw\<rparr>;
          s = s\<lparr>currentValue := temperatureLevel s\<rparr>;
          s = s\<lparr>currentState :=
            (if dlt (temperatureLevel s) temperature_WARNING_THRESHOLD then ACTIVE
             else if dlt (temperatureLevel s) temperature_ERROR_THRESHOLD then WARNING
             else ERROR)\<rparr>
      in (temperatureLevel s, s))"

definition getType_Temperature :: "TemperatureSensor \<Rightarrow> SensorType" where
  "getType_Temperature s = Temperature"

section \<open>Pressure sensor\<close>

record PressureSensor = Sensor +
  pressureLevel :: double

definition LOWER_WARNING_THRESHOLD :: double where
  "LOWER_WARNING_THRESHOLD = Double 0x4058800000000000"

definition UPPER_WARNING_THRESHOLD :: double where
  "UPPER_WARNING_THRESHOLD = Double 0x405A000000000000"

definition LOWER_ERROR_THRESHOLD :: double where
  "LOWER_ERROR_THRESHOLD = Double 0x4057C00000000000"

definition UPPER_ERROR_THRESHOLD :: double where
  "UPPER_ERROR_THRESHOLD = Double 0x405AC00000000000"

definition new_PressureSensor :: "u32 \<Rightarrow> PressureSensor" where
  "new_PressureSensor i = Sensor.extend (new_Sensor i) (PressureSensor.fields zero_double)"

definition collectData_Pressure :: "double \<Rightarrow> PressureSensor \<Rightarrow> double \<times> PressureSensor" where
  "collectData_Pressure draw s =
     (let s = s\<lparr>pressureLevel := draw\<rparr>;
          s = s\<lparr>currentValue := pressureLevel s\<rparr>;
          s = s\<lparr>currentState :=
            (if dge (pressureLevel s) LOWER_WARNING_THRESHOLD
                \<or> dle (pressureLevel s) UPPER_WARNING_THRESHOLD then ACTIVE
             else if (dge (pressureLevel s) LOWER_ERROR_THRESHOLD
                  \<and> dlt (pressureLevel s) LOWER_WARNING_THRESHOLD)
                \<or> (dgt (pressureLevel s) UPPER_WARNING_THRESHOLD
                  \<and> dle (pressureLevel s) UPPER_ERROR_THRESHOLD) then WARNING
             else ERROR)\<rparr>
      in (pressureLevel s, s))"

definition getType_Pressure :: "PressureSensor \<Rightarrow> SensorType" where
  "getType_Pressure s = Pressure"

section \<open>Battery sensor\<close>

record BatterySensor = Sensor +
  batteryLevel :: double

definition FULL_BATTERY :: double where
  "FULL_BATTERY = Double 0x4059000000000000"

definition battery_WARNING_THRESHOLD :: double where
  "battery_WARNING_THRESHOLD = Double 0x403E000000000000"

definition battery_ERROR_THRESHOLD :: double where
  "battery_ERROR_THRESHOLD = Double 0x4024000000000000"

definition new_BatterySensor :: "u32 \<Rightarrow> BatterySensor" where
  "new_BatterySensor i = Sensor.extend (new_Sensor i) (BatterySensor.fields FULL_BATTERY)"

definition collectData_Battery :: "double \<Rightarrow> BatterySensor \<Rightarrow> double \<times> BatterySensor" where
  "collectData_Battery draw s =
     (let s = s\<lparr>batteryLevel := dsub (batteryLevel s) draw\<rparr>;
          s = (if dlt (batteryLevel s) zero_double then s\<lparr>batteryLevel := zero_double\<rparr> else s);
          s = s\<lparr>currentValue := batteryLevel s\<rparr>;
          s = s\<lparr>currentState :=
            (if dgt (batteryLevel s) battery_WARNING_THRESHOLD then ACTIVE
             else if dgt (batteryLevel s) battery_ERROR_THRESHOLD then WARNING
             else ERROR)\<rparr>
      in (batteryLevel s, s))"

definition getType_Battery :: "BatterySensor \<Rightarrow> SensorType" where
  "getType_Battery s = Battery"

section \<open>Dynamic dispatch\<close>

text \<open>A \<^verbatim>\<open>Sensor&\<close> refers to an object of one of the four classes.\<close>

datatype AnySensor =
    IsMotion MotionSensor
  | IsTemperature TemperatureSensor
  | IsBattery BatterySensor
  | IsPressure PressureSensor

lemmas getType_defs [simp] = getType_Motion_def getType_Temperature_def getType_Battery_def
  getType_Pressure_def

lemmas constructor_defs [simp] = new_Sensor_def Sensor.extend_def MotionSensor.fields_def
  TemperatureSensor.fields_def PressureSensor.fields_def BatterySensor.fields_def

fun getType :: "AnySensor \<Rightarrow> SensorType" where
  "getType (IsMotion s) = getType_Motion s"
| "getType (IsTemperature s) = getType_Temperature s"
| "getType (IsBattery s) = getType_Battery s"
| "getType (IsPressure s) = getType_Pressure s"

fun collectData :: "double \<Rightarrow> AnySensor \<Rightarrow> double \<times> AnySensor" where
  "collectData draw (IsMotion s) = map_prod (\<lambda>v. v) IsMotion (collectData_Motion draw s)"
| "collectData draw (IsTemperature s) =
     map_prod (\<lambda>v. v) IsTemperature (collectData_Temperature draw s)"
| "collectData draw (IsBattery s) = map_prod (\<lambda>v. v) IsBattery (collectData_Battery draw s)"
| "collectData draw (IsPressure s) = map_prod (\<lambda>v. v) IsPressure (collectData_Pressure draw s)"

fun any_base :: "AnySensor \<Rightarrow> Sensor" where
  "any_base (IsMotion s) = Sensor.truncate s"
| "any_base (IsTemperature s) = Sensor.truncate s"
| "any_base (IsBattery s) = Sensor.truncate s"
| "any_base (IsPressure s) = Sensor.truncate s"

fun any_createTelemetry :: "u64 \<Rightarrow> AnySensor \<Rightarrow> TelemetryMessage \<times> AnySensor" where
  "any_createTelemetry t (IsMotion s) = map_prod (\<lambda>m. m) IsMotion (createTelemetry t (getType_Motion s) s)"
| "any_createTelemetry t (IsTemperature s) =
     map_prod (\<lambda>m. m) IsTemperature (createTelemetry t (getType_Temperature s) s)"
| "any_createTelemetry t (IsBattery s) = map_prod (\<lambda>m. m) IsBattery (createTelemetry t (getType_Battery s) s)"
| "any_createTelemetry t (IsPressure s) =
     map_prod (\<lambda>m. m) IsPressure (createTelemetry t (getType_Pressure s) s)"

definition any_getId :: "AnySensor \<Rightarrow> u32" where
  "any_getId s = getId (any_base s)"

section \<open>The contract of a sensor class\<close>

text \<open>
  What \<^verbatim>\<open>SensorNode\<close> relies on when it is handed a \<^verbatim>\<open>Sensor&\<close>: collecting data
  keeps the identity, stores the returned value as the current one and leaves one of the three
  enumerated states; creating telemetry reports the stored members and changes none of them but the
  cached reading.
\<close>

locale sensor_class =
  fixes base :: "'s \<Rightarrow> Sensor"
    and class_of :: "'s \<Rightarrow> SensorType"
    and collect :: "double \<Rightarrow> 's \<Rightarrow> double \<times> 's"
    and create :: "u64 \<Rightarrow> 's \<Rightarrow> TelemetryMessage \<times> 's"
  assumes collect_base:
      "\<exists>st. base (snd (collect d s)) =
         (base s)\<lparr>currentState := st, currentValue := fst (collect d s)\<rparr> \<and>
         st \<in> {ACTIVE, WARNING, ERROR}"
    and collect_class: "class_of (snd (collect d s)) = class_of s"
    and create_base:
      "create t s = (m, s') \<Longrightarrow> createTelemetry t (class_of s) (base s) = (m, base s')"
    and create_class: "class_of (snd (create t s)) = class_of s"
    and class_ok: "SensorType_ok (class_of s)"
begin

lemma collect_id: "sensorId (base (snd (collect d s))) = sensorId (base s)"
  using collect_base [of d s] by auto

lemma create_message:
  "fst (create t s) =
     \<lparr>tm_header = \<lparr>ph_type = TELEMETRY, ph_sensorId = sensorId (base s), ph_timestamp_ms = t\<rparr>,
      tm_type = class_of s, tm_state = currentState (base s), tm_value = currentValue (base s)\<rparr>"
  using create_base [of t s "fst (create t s)" "snd (create t s)"]
  by (simp add: createTelemetry_def Let_def)

lemma create_id: "sensorId (base (snd (create t s))) = sensorId (base s)"
proof -
  have "base (snd (create t s)) = snd (createTelemetry t (class_of s) (base s))"
    using create_base [of t s "fst (create t s)" "snd (create t s)"] by simp
  then show ?thesis by (simp add: createTelemetry_def Let_def)
qed

text \<open>Collect, then create: the message of one reading.\<close>

lemma reading_message:
  assumes "collect d s = (v, s1)"
  shows "\<exists>st. fst (create t s1) =
      \<lparr>tm_header = \<lparr>ph_type = TELEMETRY, ph_sensorId = sensorId (base s), ph_timestamp_ms = t\<rparr>,
       tm_type = class_of s, tm_state = st, tm_value = v\<rparr> \<and> st \<in> {ACTIVE, WARNING, ERROR}"
  using collect_base [of d s] collect_class [of d s] assms by (auto simp: create_message)

lemma reading_ok:
  assumes "collect d s = (v, s1)"
  shows "TelemetryMessage_ok (fst (create t s1))"
proof -
  obtain st where "fst (create t s1) =
      \<lparr>tm_header = \<lparr>ph_type = TELEMETRY, ph_sensorId = sensorId (base s), ph_timestamp_ms = t\<rparr>,
       tm_type = class_of s, tm_state = st, tm_value = v\<rparr>" "st \<in> {ACTIVE, WARNING, ERROR}"
    using reading_message [OF assms] by blast
  then show ?thesis
    using class_ok by (auto simp: TelemetryMessage_ok_def PacketHeader_ok_def)
qed

end

lemma truncate_eq:
  "Sensor.truncate s =
     \<lparr>sensorId = sensorId s, currentReading = currentReading s, currentState = currentState s,
      currentValue = currentValue s\<rparr>"
  by (simp add: Sensor.truncate_def)

lemmas sensor_defs = collectData_Motion_def collectData_Temperature_def collectData_Battery_def
  collectData_Pressure_def createTelemetry_def truncate_eq Let_def

interpretation motion_class: sensor_class Sensor.truncate getType_Motion collectData_Motion
  "\<lambda>t s. createTelemetry t (getType_Motion s) s"
  by unfold_locales (auto simp: sensor_defs)

interpretation temperature_class: sensor_class Sensor.truncate getType_Temperature collectData_Temperature
  "\<lambda>t s. createTelemetry t (getType_Temperature s) s"
  by unfold_locales (auto simp: sensor_defs)

interpretation battery_class: sensor_class Sensor.truncate getType_Battery collectData_Battery
  "\<lambda>t s. createTelemetry t (getType_Battery s) s"
  by unfold_locales (auto simp: sensor_defs)

interpretation pressure_class: sensor_class Sensor.truncate getType_Pressure collectData_Pressure
  "\<lambda>t s. createTelemetry t (getType_Pressure s) s"
  by unfold_locales (auto simp: sensor_defs)

interpretation any_class: sensor_class any_base getType collectData any_createTelemetry
proof
  fix d t s m s'
  show "\<exists>st. any_base (snd (collectData d s)) =
         (any_base s)\<lparr>currentState := st, currentValue := fst (collectData d s)\<rparr> \<and>
         st \<in> {ACTIVE, WARNING, ERROR}"
    using motion_class.collect_base temperature_class.collect_base battery_class.collect_base
      pressure_class.collect_base
    by (cases s) simp_all
  show "createTelemetry t (getType s) (any_base s) = (m, any_base s')"
    if "any_createTelemetry t s = (m, s')"
    using that by (cases s) (auto simp: sensor_defs)
  show "getType (snd (collectData d s)) = getType s" by (cases s) simp_all
  show "getType (snd (any_createTelemetry t s)) = getType s" by (cases s) simp_all
  show "SensorType_ok (getType s)" by (cases s) simp_all
qed

section \<open>The numeric constants\<close>

text \<open>The value 1.0 on the scale of \<^const>\<open>scaled\<close>, and the values the literals denote.\<close>

definition unit_value :: int where
  "unit_value = 2 ^ 1074"

definition drain_min :: double where
  "drain_min = Double 0x3FC999999999999A"

definition drain_max :: double where
  "drain_max = Double 0x3FE0000000000000"

lemmas double_fields = sign_bit_unat exp_field_unat frac_field_unat

lemma literal_not_nan [simp]:
  "\<not> is_nan zero_double" "\<not> is_nan FULL_BATTERY"
  "\<not> is_nan battery_WARNING_THRESHOLD" "\<not> is_nan battery_ERROR_THRESHOLD"
  "\<not> is_nan temperature_WARNING_THRESHOLD" "\<not> is_nan temperature_ERROR_THRESHOLD"
  "\<not> is_nan motion_threshold" "\<not> is_nan LOWER_WARNING_THRESHOLD"
  "\<not> is_nan UPPER_WARNING_THRESHOLD" "\<not> is_nan LOWER_ERROR_THRESHOLD"
  "\<not> is_nan UPPER_ERROR_THRESHOLD" "\<not> is_nan drain_min" "\<not> is_nan drain_max"
  by (simp_all add: is_nan_def double_fields zero_double_def FULL_BATTERY_def
      battery_WARNING_THRESHOLD_def battery_ERROR_THRESHOLD_def
      temperature_WARNING_THRESHOLD_def temperature_ERROR_THRESHOLD_def motion_threshold_def
      LOWER_WARNING_THRESHOLD_def UPPER_WARNING_THRESHOLD_def LOWER_ERROR_THRESHOLD_def
      UPPER_ERROR_THRESHOLD_def drain_min_def drain_max_def)

lemma literal_values:
  "scaled zero_double = 0" "scaled FULL_BATTERY = 100 * unit_value"
  "scaled battery_WARNING_THRESHOLD = 30 * unit_value"
  "scaled battery_ERROR_THRESHOLD = 10 * unit_value"
  "scaled temperature_WARNING_THRESHOLD = 30 * unit_value"
  "scaled temperature_ERROR_THRESHOLD = 40 * unit_value"
  "2 * scaled motion_threshold = unit_value"
  "scaled LOWER_WARNING_THRESHOLD = 98 * unit_value"
  "scaled UPPER_WARNING_THRESHOLD = 104 * unit_value"
  "scaled LOWER_ERROR_THRESHOLD = 95 * unit_value"
  "scaled UPPER_ERROR_THRESHOLD = 107 * unit_value"
  "2 * scaled drain_max = unit_value" "2 ^ 54 * scaled drain_min = 3602879701896397 * unit_value"
  by (simp_all add: scaled_def magnitude_def double_fields zero_double_def FULL_BATTERY_def
      battery_WARNING_THRESHOLD_def battery_ERROR_THRESHOLD_def
      temperature_WARNING_THRESHOLD_def temperature_ERROR_THRESHOLD_def motion_threshold_def
      LOWER_WARNING_THRESHOLD_def UPPER_WARNING_THRESHOLD_def LOWER_ERROR_THRESHOLD_def
      UPPER_ERROR_THRESHOLD_def drain_min_def drain_max_def unit_value_def)

lemma unit_value_pos: "0 < unit_value"
  by (simp add: unit_value_def)

lemma drain_min_value: "unit_value \<le> 5 * scaled drain_min"
  using literal_values(13) unit_value_pos by simp

section \<open>The battery drains\<close>

text \<open>Levels the battery can have, and draws of \<^verbatim>\<open>uniform_real_distribution(0.2, 0.5)\<close>.\<close>

definition level_ok :: "double \<Rightarrow> bool" where
  "level_ok d \<longleftrightarrow> is_finite d \<and> dle zero_double d \<and> dle d FULL_BATTERY"

definition drain_ok :: "double \<Rightarrow> bool" where
  "drain_ok d \<longleftrightarrow> is_finite d \<and> dle drain_min d \<and> dle d drain_max"

lemma level_ok_scaled:
  "level_ok d \<longleftrightarrow> is_finite d \<and> 0 \<le> scaled d \<and> scaled d \<le> 100 * unit_value"
  by (auto simp: level_ok_def dle_def literal_values is_finite_not_nan)

lemma level_ok_zero: "level_ok zero_double"
  using unit_value_pos
  by (simp add: level_ok_scaled literal_values)
    (simp add: is_finite_def exp_field_unat zero_double_def)

lemma level_ok_full: "level_ok FULL_BATTERY"
  using unit_value_pos
  by (simp add: level_ok_scaled literal_values)
    (simp add: is_finite_def exp_field_unat FULL_BATTERY_def)

text \<open>One rounded subtraction of a draw takes at least 0.15 off the level.\<close>

lemma dsub_drain:
  assumes level: "level_ok x" and drain: "drain_ok d" and pos: "scaled d \<le> scaled x"
  shows "is_finite (dsub x d)" "0 \<le> scaled (dsub x d)"
    "20 * scaled (dsub x d) \<le> 20 * scaled x - 3 * unit_value"
proof -
  have d: "unit_value \<le> 5 * scaled d"
    using drain drain_min_value by (simp add: drain_ok_def dle_def)
  have nonneg: "0 \<le> scaled x" "0 \<le> scaled d"
    using level d unit_value_pos by (simp_all add: level_ok_scaled)
  have fin: "is_finite x" "is_finite d"
    using level drain by (simp_all add: level_ok_def drain_ok_def)
  define n where "n = nat (scaled x - scaled d)"
  have res: "scaled (dsub x d) = int (round_mag n)"
    using dsub_nonneg(1) [OF fin nonneg] pos by (simp add: n_def)
  have "n < 2 ^ 1081"
  proof -
    have "int n \<le> 100 * unit_value"
      using level nonneg pos by (simp add: n_def level_ok_scaled)
    also have "\<dots> < int (2 ^ 1081)" by (simp add: unit_value_def)
    finally show ?thesis by (simp only: of_nat_less_iff)
  qed
  then have "bit_length n - 53 \<le> 1028"
    using bit_length_le_iff [of n 1081] by simp
  then have "(2 :: int) ^ (bit_length n - 53) \<le> 2 ^ 1028"
    by (rule power_increasing) simp
  then have "int (2 ^ (bit_length n - 53)) \<le> 2 ^ 1028"
    by (simp only: of_nat_power of_nat_numeral)
  moreover have "10 * 2 ^ 1028 \<le> unit_value" by (simp add: unit_value_def)
  moreover have "2 * int (round_mag n) \<le> 2 * int n + int (2 ^ (bit_length n - 53))"
    using of_nat_mono [OF round_mag_error [of n], where 'a = int]
    by (simp only: of_nat_add of_nat_mult of_nat_numeral)
  ultimately show "20 * scaled (dsub x d) \<le> 20 * scaled x - 3 * unit_value"
    using d pos unfolding res by (simp add: n_def)
  show "is_finite (dsub x d)" using dsub_nonneg(2) [OF fin nonneg] .
  show "0 \<le> scaled (dsub x d)" by (simp add: res)
qed

lemma dsub_drain_negative:
  assumes level: "level_ok x" and drain: "drain_ok d" and neg: "scaled x < scaled d"
  shows "is_finite (dsub x d)" "scaled (dsub x d) \<le> 0"
proof -
  have nonneg: "0 \<le> scaled x" "0 \<le> scaled d"
    using level neg by (simp_all add: level_ok_scaled)
  have fin: "is_finite x" "is_finite d"
    using level drain by (simp_all add: level_ok_def drain_ok_def)
  show "is_finite (dsub x d)" using dsub_nonneg(2) [OF fin nonneg] .
  show "scaled (dsub x d) \<le> 0"
    using dsub_nonneg(1) [OF fin nonneg] neg by simp
qed

text \<open>The level after one collection.\<close>

lemma batteryLevel_collect:
  "batteryLevel (snd (collectData_Battery d s)) =
     (if dlt (dsub (batteryLevel s) d) zero_double then zero_double else dsub (batteryLevel s) d)"
  by (simp add: collectData_Battery_def Let_def)

lemma battery_collect:
  assumes level: "level_ok (batteryLevel s)" and drain: "drain_ok d"
  defines "s' \<equiv> snd (collectData_Battery d s)"
  shows "level_ok (batteryLevel s')"
    "20 * scaled (batteryLevel s') \<le> max 0 (20 * scaled (batteryLevel s) - 3 * unit_value)"
proof -
  let ?x = "batteryLevel s" and ?y = "dsub (batteryLevel s) d"
  have "level_ok (batteryLevel s') \<and>
    20 * scaled (batteryLevel s') \<le> max 0 (20 * scaled ?x - 3 * unit_value)"
  proof (cases "scaled d \<le> scaled ?x")
    case True
    note y = dsub_drain [OF level drain True]
    have "level_ok ?y"
      using y level unit_value_pos by (simp add: level_ok_scaled)
    moreover have "\<not> dlt ?y zero_double"
      using y(2) by (simp add: dlt_def literal_values)
    ultimately show ?thesis
      using y(3) by (simp add: s'_def batteryLevel_collect)
  next
    case False
    then have y: "is_finite ?y" "scaled ?y \<le> 0"
      using dsub_drain_negative [OF level drain] by simp_all
    show ?thesis
    proof (cases "dlt ?y zero_double")
      case True
      then show ?thesis
        by (simp add: s'_def batteryLevel_collect level_ok_zero literal_values)
    next
      case False
      with y have "scaled ?y = 0"
        by (simp add: dlt_def literal_values is_finite_not_nan)
      with y False unit_value_pos show ?thesis
        by (simp add: s'_def batteryLevel_collect level_ok_scaled)
    qed
  qed
  then show "level_ok (batteryLevel s')"
    "20 * scaled (batteryLevel s') \<le> max 0 (20 * scaled (batteryLevel s) - 3 * unit_value)"
    by simp_all
qed

definition battery_run :: "double list \<Rightarrow> BatterySensor \<Rightarrow> BatterySensor" where
  "battery_run ds s = fold (\<lambda>d s. snd (collectData_Battery d s)) ds s"

lemma battery_run_level:
  assumes "level_ok (batteryLevel s)" "list_all drain_ok ds"
  shows "level_ok (batteryLevel (battery_run ds s)) \<and>
    20 * scaled (batteryLevel (battery_run ds s)) \<le>
      max 0 (20 * scaled (batteryLevel s) - 3 * int (length ds) * unit_value)"
  using assms
proof (induction ds arbitrary: s)
  case Nil
  then show ?case by (simp add: battery_run_def)
next
  case (Cons d ds)
  let ?s = "snd (collectData_Battery d s)"
  have step: "level_ok (batteryLevel ?s)"
    "20 * scaled (batteryLevel ?s) \<le> max 0 (20 * scaled (batteryLevel s) - 3 * unit_value)"
    using battery_collect [of s d] Cons.prems by simp_all
  have "0 \<le> int (length ds) * unit_value" using unit_value_pos by simp
  with step Cons.IH [of ?s] Cons.prems(2) show ?case
    by (simp add: battery_run_def algebra_simps max_def split: if_splits)
qed

text \<open>The state that a collection derives from a level.\<close>

definition battery_state :: "double \<Rightarrow> SensorState" where
  "battery_state v =
     (if scaled v > 30 * unit_value then ACTIVE
      else if scaled v > 10 * unit_value then WARNING else ERROR)"

lemma battery_collect_fields:
  assumes "level_ok (batteryLevel s)" "drain_ok d" "collectData_Battery d s = (v, s')"
  shows "v = batteryLevel s'" "currentValue s' = v" "currentState s' = battery_state v"
    "sensorId s' = sensorId s"
proof -
  have "level_ok (batteryLevel s')"
    using battery_collect(1) [OF assms(1,2)] assms(3) by simp
  then have "\<not> is_nan (batteryLevel s')"
    by (simp add: level_ok_def is_finite_not_nan)
  then show "v = batteryLevel s'" "currentValue s' = v" "currentState s' = battery_state v"
    "sensorId s' = sensorId s"
    using assms(3)
    by (auto simp: collectData_Battery_def Let_def battery_state_def dlt_def literal_values
        split: if_splits)
qed

section \<open>Properties\<close>

lemma example_drain_ok: "drain_ok drain_min"
  using literal_values(12,13) unit_value_pos
  by (simp add: drain_ok_def dle_def)
    (simp add: is_finite_def exp_field_unat drain_min_def)

text \<open>
  One battery reading, with IEEE rounding: from a level between 0 and 100 and a draw between
  0.2 and 0.5 the new level is again between 0 and 100, is the value returned and stored, is
  strictly below the old level unless that was already 0, and the state is ACTIVE above 30, WARNING
  above 10 and ERROR from 10 down.
\<close>

lemma battery_reading:
  assumes "level_ok (batteryLevel s)" "drain_ok d" "collectData_Battery d s = (v, s')"
  shows "level_ok v \<and> batteryLevel s' = v \<and> currentValue s' = v \<and>
    (dgt (batteryLevel s) zero_double \<longrightarrow> dlt v (batteryLevel s)) \<and>
    currentState s' = battery_state v"
proof -
  note fields = battery_collect_fields [OF assms]
  have v: "level_ok v" "20 * scaled v \<le> max 0 (20 * scaled (batteryLevel s) - 3 * unit_value)"
    using battery_collect [OF assms(1,2)] fields(1) assms(3) by simp_all
  have "dlt v (batteryLevel s)" if "dgt (batteryLevel s) zero_double"
  proof -
    have "0 < scaled (batteryLevel s)"
      using that by (simp add: dlt_def literal_values)
    with v unit_value_pos have "scaled v < scaled (batteryLevel s)" by simp
    with v assms(1) show ?thesis by (simp add: dlt_def level_ok_def is_finite_not_nan)
  qed
  with v fields show ?thesis by simp
qed

text \<open>
  C17: the battery runs down: whatever the draws between 0.2 and 0.5 are, after at most 667
  readings the level is zero and the state is ERROR, and it stays so.
\<close>

theorem battery_depletes:
  assumes "level_ok (batteryLevel s)" "list_all drain_ok (ds @ [d])" "667 \<le> length (ds @ [d])"
  shows "scaled (batteryLevel (battery_run (ds @ [d]) s)) = 0 \<and>
    currentState (battery_run (ds @ [d]) s) = ERROR"
proof -
  let ?s = "battery_run ds s" and ?s' = "battery_run (ds @ [d]) s"
  have run: "level_ok (batteryLevel ?s')"
    "20 * scaled (batteryLevel ?s') \<le>
      max 0 (20 * scaled (batteryLevel s) - 3 * int (length (ds @ [d])) * unit_value)"
    using battery_run_level [OF assms(1,2)] by simp_all
  have "2001 * unit_value \<le> 3 * int (length (ds @ [d])) * unit_value"
    using assms(3) unit_value_pos by (intro mult_right_mono) simp_all
  moreover have "20 * scaled (batteryLevel s) \<le> 2000 * unit_value"
    using assms(1) by (simp add: level_ok_scaled)
  ultimately have "20 * scaled (batteryLevel s) - 3 * int (length (ds @ [d])) * unit_value \<le> 0"
    using unit_value_pos by linarith
  with run(2) have "20 * scaled (batteryLevel ?s') \<le> 0"
    by (simp only: max.absorb1)
  with run(1) have zero: "scaled (batteryLevel ?s') = 0"
    by (simp add: level_ok_scaled)
  have last: "?s' = snd (collectData_Battery d ?s)"
    by (simp add: battery_run_def)
  have "level_ok (batteryLevel ?s)" "drain_ok d"
    using battery_run_level [OF assms(1), of ds] assms(2) by simp_all
  moreover have "collectData_Battery d ?s = (fst (collectData_Battery d ?s), ?s')"
    by (simp only: last prod.collapse)
  ultimately have "currentState ?s' = battery_state (batteryLevel ?s')"
    by (metis battery_collect_fields(1,3))
  with zero unit_value_pos show ?thesis by (simp add: battery_state_def)
qed

theorem battery_depletes_witness:
  "currentState (battery_run (replicate 666 drain_min @ [drain_min]) (new_BatterySensor 5)) = ERROR"
  using battery_depletes [of "new_BatterySensor 5" "replicate 666 drain_min" drain_min]
    example_drain_ok level_ok_full
  by (simp add: new_BatterySensor_def list_all_iff del: replicate_Suc)

text \<open>
  The battery state never improves: of two consecutive readings the later state has a code at
  least that of the earlier one (ACTIVE 1, WARNING 2, ERROR 3).
\<close>

lemma battery_state_never_improves:
  assumes "level_ok (batteryLevel s)" "drain_ok d1" "drain_ok d2"
    and "collectData_Battery d1 s = (v1, s1)" "collectData_Battery d2 s1 = (v2, s2)"
  shows "SensorState_code (currentState s1) \<le> SensorState_code (currentState s2)"
proof -
  have s1: "level_ok (batteryLevel s1)"
    using battery_collect(1) [OF assms(1,2)] assms(4) by simp
  have "20 * scaled (batteryLevel s2) \<le> max 0 (20 * scaled (batteryLevel s1) - 3 * unit_value)"
    using battery_collect(2) [OF s1 assms(3)] assms(5) by simp
  with s1 unit_value_pos have "scaled (batteryLevel s2) \<le> scaled (batteryLevel s1)"
    by (simp add: level_ok_scaled max_def split: if_splits)
  then have "SensorState_code (battery_state (batteryLevel s1)) \<le>
      SensorState_code (battery_state (batteryLevel s2))"
    by (simp add: battery_state_def)
  then show ?thesis
    using battery_collect_fields [OF assms(1,2,4)] battery_collect_fields [OF s1 assms(3,5)]
    by simp
qed

text \<open>
  The pressure sensor never reports anything but ACTIVE: the first condition joins its two
  bounds with "or", so every reading that is a number satisfies it, however far outside the warning
  and error limits.
\<close>

lemma pressure_always_active:
  assumes "\<not> is_nan draw"
  shows "currentState (snd (collectData_Pressure draw s)) = ACTIVE"
proof -
  have "scaled LOWER_WARNING_THRESHOLD \<le> scaled draw \<or> scaled draw \<le> scaled UPPER_WARNING_THRESHOLD"
    unfolding literal_values using unit_value_pos by linarith
  with assms show ?thesis
    by (auto simp: collectData_Pressure_def Let_def dle_def)
qed

text \<open>
  The motion and temperature classes classify every reading that is a number by the documented
  limits, exactly at the limits too: motion is ACTIVE above 0.5 and WARNING otherwise; temperature is
  ACTIVE below 30, WARNING from 30 to below 40, ERROR from 40; the value returned is the draw.
\<close>

lemma motion_temperature_states:
  assumes "\<not> is_nan draw"
  shows "collectData_Motion draw m =
      (draw, m\<lparr>motionLevel := draw, currentValue := draw,
               currentState := (if 2 * scaled draw > unit_value then ACTIVE else WARNING)\<rparr>) \<and>
    collectData_Temperature draw s =
      (draw, s\<lparr>temperatureLevel := draw, currentValue := draw,
               currentState := (if scaled draw < 30 * unit_value then ACTIVE
                                else if scaled draw < 40 * unit_value then WARNING else ERROR)\<rparr>)"
proof -
  have "dlt motion_threshold draw \<longleftrightarrow> unit_value < 2 * scaled draw"
    using assms literal_values(7) by (auto simp: dlt_def)
  moreover have "dlt draw temperature_WARNING_THRESHOLD \<longleftrightarrow> scaled draw < 30 * unit_value"
    "dlt draw temperature_ERROR_THRESHOLD \<longleftrightarrow> scaled draw < 40 * unit_value"
    using assms by (simp_all add: dlt_def literal_values)
  ultimately show ?thesis
    by (simp add: collectData_Motion_def collectData_Temperature_def detectMotion_def Let_def)
qed

end
