(* ===== verification/Codec.thy ===== *)
theory Codec
  imports Prelude
begin

text \<open>
  The contract of a fixed-width binary codec as the serializer relies on it: an encoder that always
  produces \<open>width\<close> bytes, and a decoder that reads at an offset of a buffer, advances the offset by
  \<open>width\<close>, and throws one fixed exception exactly when the buffer is too short.  Sequencing two
  codecs and relabelling the decoded value give codecs again; the message formats are assembled
  from the integer codecs with these two constructions.
\<close>

section \<open>The interface\<close>

type_synonym 'a reader = "bytes \<Rightarrow> nat \<Rightarrow> ('a \<times> nat) result"

locale codec =
  fixes width :: nat
    and enc :: "'a \<Rightarrow> bytes"
    and dec :: "'a reader"
    and valid :: "'a \<Rightarrow> bool"
    and underflow :: cpp_exception
  assumes enc_length: "length (enc x) = width"
    and enc_inj: "valid x \<Longrightarrow> valid y \<Longrightarrow> enc x = enc y \<Longrightarrow> x = y"
    and dec_short: "length buf < off + width \<Longrightarrow> dec buf off = Inl underflow"
    and dec_long: "off + width \<le> length buf \<Longrightarrow>
      \<exists>x. dec buf off = Inr (x, off + width) \<and> valid x \<and> enc x = take width (drop off buf)"
begin

lemma dec_enc:
  assumes "valid x"
  shows "dec (pre @ enc x @ post) (length pre) = Inr (x, length pre + width)"
proof -
  have "length pre + width \<le> length (pre @ enc x @ post)"
    by (simp add: enc_length)
  then obtain y where y: "dec (pre @ enc x @ post) (length pre) = Inr (y, length pre + width)"
    and "valid y" and "enc y = take width (drop (length pre) (pre @ enc x @ post))"
    using dec_long by blast
  moreover have "take width (drop (length pre) (pre @ enc x @ post)) = enc x"
    by (simp add: enc_length)
  ultimately have "y = x" using assms enc_inj by metis
  with y show ?thesis by simp
qed

lemma dec_enc_at_start: "valid x \<Longrightarrow> dec (enc x @ post) 0 = Inr (x, width)"
  using dec_enc [of x "[]" post] by simp

lemma dec_throws_iff: "throws (dec buf off) \<longleftrightarrow> length buf < off + width"
  using dec_short dec_long by (metis not_less throws_simps)

lemma dec_valid: "dec buf off = Inr (x, off') \<Longrightarrow> valid x \<and> off' = off + width"
  using dec_short dec_long
  by (metis Inl_Inr_False not_less old.sum.inject(2) prod.inject)

lemma enc_dec:
  "dec buf off = Inr (x, off') \<Longrightarrow> enc x = take width (drop off buf)"
  using dec_short dec_long
  by (metis Inl_Inr_False not_less old.sum.inject(2) prod.inject)

lemma enc_dec_at_start:
  "dec buf 0 = Inr (x, off') \<Longrightarrow> enc x = take width buf"
  using enc_dec [of buf 0 x off'] by simp

end

section \<open>Sequencing\<close>

definition seq_enc :: "('a \<Rightarrow> bytes) \<Rightarrow> ('b \<Rightarrow> bytes) \<Rightarrow> 'a \<times> 'b \<Rightarrow> bytes" where
  "seq_enc enc1 enc2 p = enc1 (fst p) @ enc2 (snd p)"

definition seq_dec :: "'a reader \<Rightarrow> 'b reader \<Rightarrow> ('a \<times> 'b) reader" where
  "seq_dec dec1 dec2 buf off =
     bind_result (dec1 buf off) (\<lambda>(x, off1).
     bind_result (dec2 buf off1) (\<lambda>(y, off2). Inr ((x, y), off2)))"

definition seq_valid :: "('a \<Rightarrow> bool) \<Rightarrow> ('b \<Rightarrow> bool) \<Rightarrow> 'a \<times> 'b \<Rightarrow> bool" where
  "seq_valid valid1 valid2 p \<longleftrightarrow> valid1 (fst p) \<and> valid2 (snd p)"

locale codec_seq =
  c1: codec w1 enc1 dec1 valid1 underflow + c2: codec w2 enc2 dec2 valid2 underflow
  for w1 w2 :: nat
    and enc1 :: "'a \<Rightarrow> bytes" and enc2 :: "'b \<Rightarrow> bytes"
    and dec1 :: "'a reader" and dec2 :: "'b reader"
    and valid1 :: "'a \<Rightarrow> bool" and valid2 :: "'b \<Rightarrow> bool"
    and underflow :: cpp_exception

sublocale codec_seq \<subseteq> pair: codec "w1 + w2" "seq_enc enc1 enc2" "seq_dec dec1 dec2"
  "seq_valid valid1 valid2" underflow
proof unfold_locales
  fix p q :: "'a \<times> 'b" and buf :: bytes and off :: nat
  show "length (seq_enc enc1 enc2 p) = w1 + w2"
    by (simp add: seq_enc_def c1.enc_length c2.enc_length)
  show "p = q" if "seq_valid valid1 valid2 p" "seq_valid valid1 valid2 q"
    "seq_enc enc1 enc2 p = seq_enc enc1 enc2 q"
    using that c1.enc_inj c2.enc_inj
    by (simp add: seq_enc_def seq_valid_def c1.enc_length prod_eq_iff)
  show "seq_dec dec1 dec2 buf off = Inl underflow" if short: "length buf < off + (w1 + w2)"
  proof (cases "length buf < off + w1")
    case True
    then show ?thesis by (simp add: seq_dec_def c1.dec_short)
  next
    case False
    then obtain x where "dec1 buf off = Inr (x, off + w1)"
      using c1.dec_long by (metis not_less)
    with short show ?thesis by (simp add: seq_dec_def c2.dec_short)
  qed
  show "\<exists>p. seq_dec dec1 dec2 buf off = Inr (p, off + (w1 + w2)) \<and> seq_valid valid1 valid2 p \<and>
      seq_enc enc1 enc2 p = take (w1 + w2) (drop off buf)"
    if long: "off + (w1 + w2) \<le> length buf"
  proof -
    obtain x where x: "dec1 buf off = Inr (x, off + w1)" "valid1 x"
      "enc1 x = take w1 (drop off buf)"
      using c1.dec_long [of off buf] long by auto
    obtain y where y: "dec2 buf (off + w1) = Inr (y, off + w1 + w2)" "valid2 y"
      "enc2 y = take w2 (drop (off + w1) buf)"
      using c2.dec_long [of "off + w1" buf] long by auto
    have "seq_enc enc1 enc2 (x, y) = take (w1 + w2) (drop off buf)"
      by (simp add: seq_enc_def x y take_add add.commute)
    with x y show ?thesis
      by (intro exI [of _ "(x, y)"]) (simp add: seq_dec_def seq_valid_def add.assoc)
  qed
qed

section \<open>Relabelling\<close>

definition map_dec :: "('a \<Rightarrow> 'b) \<Rightarrow> 'a reader \<Rightarrow> 'b reader" where
  "map_dec f dec buf off = bind_result (dec buf off) (\<lambda>(x, off'). Inr (f x, off'))"

locale codec_map = codec +
  fixes make :: "'a \<Rightarrow> 'b" and dest :: "'b \<Rightarrow> 'a" and valid' :: "'b \<Rightarrow> bool"
  assumes dest_make: "valid x \<Longrightarrow> dest (make x) = x"
    and make_valid: "valid x \<Longrightarrow> valid' (make x)"
    and dest_valid: "valid' y \<Longrightarrow> valid (dest y) \<and> make (dest y) = y"

sublocale codec_map \<subseteq> image: codec width "\<lambda>y. enc (dest y)" "map_dec make dec" valid' underflow
proof unfold_locales
  fix x y :: 'b and buf :: bytes and off :: nat
  show "length (enc (dest x)) = width" by (rule enc_length)
  show "x = y" if "valid' x" "valid' y" "enc (dest x) = enc (dest y)"
    using that dest_valid enc_inj by metis
  show "map_dec make dec buf off = Inl underflow" if "length buf < off + width"
    using that by (simp add: map_dec_def dec_short)
  show "\<exists>z. map_dec make dec buf off = Inr (z, off + width) \<and> valid' z \<and>
      enc (dest z) = take width (drop off buf)" if "off + width \<le> length buf"
    using dec_long [OF that] dest_make make_valid by (fastforce simp: map_dec_def)
qed

end
