(* ===== verification/PacketSerializer.thy ===== *)
theory PacketSerializer
  imports Codec ProtocolTypes
begin

unbundle bit_operations_syntax

text \<open>
  \<^verbatim>\<open>src/network/PacketSerializer.cpp\<close>: the big-endian wire format.  The definitions
  follow the source (the byte loops of the two templates, the header helpers, the five static
  members); the lemmas interpret them as fixed-width codecs and derive the properties of the
  message formats from the codec laws.
\<close>

section \<open>Definitions\<close>

text \<open>\<^verbatim>\<open>sizeof(T)\<close> of the unsigned integer type with the bits of \<^typ>\<open>'a word\<close>.\<close>

definition sizeof :: "'a::len itself \<Rightarrow> nat" where
  "sizeof T = LENGTH('a) div 8"

definition BITS_PER_BYTE :: nat where
  "BITS_PER_BYTE = 8"

definition BYTE_MASK :: u8 where
  "BYTE_MASK = 0xFF"

text \<open>The body of \<^verbatim>\<open>write\<close>: \<open>write_loop i\<close> runs the iterations with loop variable \<open>i, i - 1, \<dots>, 1\<close>.\<close>

fun write_loop :: "nat \<Rightarrow> bytes \<Rightarrow> 'a::len word \<Rightarrow> bytes" where
  "write_loop 0 buffer v = buffer"
| "write_loop (Suc i) buffer v =
     write_loop i (buffer @ [ucast (drop_bit (i * BITS_PER_BYTE) v AND ucast BYTE_MASK)]) v"

definition write_T :: "bytes \<Rightarrow> 'a::len word \<Rightarrow> bytes" where
  "write_T buffer v = write_loop (sizeof TYPE('a)) buffer v"

definition underflow_error :: cpp_exception where
  "underflow_error = runtime_error ''Buffer underflow during deserialization''"

text \<open>The loop of \<^verbatim>\<open>read\<close>, with \<open>n\<close> iterations to go.\<close>

fun read_loop :: "nat \<Rightarrow> bytes \<Rightarrow> nat \<Rightarrow> 'a::len word \<Rightarrow> 'a word \<times> nat" where
  "read_loop 0 buffer offset v = (v, offset)"
| "read_loop (Suc n) buffer offset v =
     read_loop n buffer (Suc offset) (push_bit 8 v OR ucast (buffer ! offset))"

definition read_T :: "bytes \<Rightarrow> nat \<Rightarrow> ('a::len word \<times> nat) result" where
  "read_T buffer offset =
     (if offset + sizeof TYPE('a) > length buffer then Inl underflow_error
      else Inr (read_loop (sizeof TYPE('a)) buffer offset 0))"

definition writeDouble :: "bytes \<Rightarrow> double \<Rightarrow> bytes" where
  "writeDouble buffer v = write_T buffer (double_bits v)"

definition readDouble :: "bytes \<Rightarrow> nat \<Rightarrow> (double \<times> nat) result" where
  "readDouble buffer offset =
     bind_result (read_T buffer offset) (\<lambda>(bits, offset1). Inr (Double bits, offset1))"

definition readHeader :: "bytes \<Rightarrow> nat \<Rightarrow> (PacketHeader \<times> nat) result" where
  "readHeader buffer offset =
     bind_result (read_T buffer offset) (\<lambda>(t, offset1).
     bind_result (read_T buffer offset1) (\<lambda>(i, offset2).
     bind_result (read_T buffer offset2) (\<lambda>(ts, offset3).
       Inr (\<lparr>ph_type = MessageType_of t, ph_sensorId = i, ph_timestamp_ms = ts\<rparr>, offset3))))"

definition writeHeader :: "bytes \<Rightarrow> PacketHeader \<Rightarrow> bytes" where
  "writeHeader buffer header =
     write_T (write_T (write_T buffer (MessageType_code (ph_type header))) (ph_sensorId header))
       (ph_timestamp_ms header)"

definition serialize_telemetry :: "TelemetryMessage \<Rightarrow> bytes" where
  "serialize_telemetry message =
     (let buffer = writeHeader [] (tm_header message);
          buffer = write_T buffer (SensorType_code (tm_type message));
          buffer = write_T buffer (SensorState_code (tm_state message))
      in writeDouble buffer (tm_value message))"

definition serialize_heartbeat :: "HeartbeatMessage \<Rightarrow> bytes" where
  "serialize_heartbeat message = writeHeader [] (hb_header message)"

definition deserializeTelemetry :: "bytes \<Rightarrow> TelemetryMessage result" where
  "deserializeTelemetry buffer =
     bind_result (readHeader buffer 0) (\<lambda>(header, offset1).
     bind_result (read_T buffer offset1) (\<lambda>(t, offset2).
     bind_result (read_T buffer offset2) (\<lambda>(s, offset3).
     bind_result (readDouble buffer offset3) (\<lambda>(v, _).
       Inr \<lparr>tm_header = header, tm_type = SensorType_of t, tm_state = SensorState_of s,
            tm_value = v\<rparr>))))"

definition deserializeHeartbeat :: "bytes \<Rightarrow> HeartbeatMessage result" where
  "deserializeHeartbeat buffer =
     bind_result (readHeader buffer 0) (\<lambda>(header, _). Inr \<lparr>hb_header = header\<rparr>)"

definition peekMessageType :: "bytes \<Rightarrow> MessageType result" where
  "peekMessageType buffer =
     bind_result (readHeader buffer 0) (\<lambda>(header, _). Inr (ph_type header))"

section \<open>The byte loops\<close>

text \<open>The big-endian bytes of a word, most significant first.\<close>

fun be_bytes :: "nat \<Rightarrow> 'a::len word \<Rightarrow> bytes" where
  "be_bytes 0 v = []"
| "be_bytes (Suc i) v = ucast (drop_bit (i * 8) v) # be_bytes i v"

lemma length_be_bytes [simp]: "length (be_bytes n v) = n"
  by (induction n) simp_all

lemma masked_byte:
  "ucast (w AND ucast BYTE_MASK :: 'a::len word) = (ucast w :: u8)"
proof (rule bit_word_eqI)
  fix n assume n: "n < LENGTH(8)"
  have "bit (255 :: u8) n"
    using n by (auto simp: less_Suc_eq numeral_eq_Suc)
  then show "bit (ucast (w AND ucast BYTE_MASK :: 'a word) :: u8) n = bit (ucast w :: u8) n"
    using n by (auto simp: BYTE_MASK_def bit_simps dest: bit_imp_le_length)
qed

lemma write_loop_eq: "write_loop n buffer v = buffer @ be_bytes n v"
  by (induction n arbitrary: buffer) (simp_all add: masked_byte BITS_PER_BYTE_def)

lemma write_T_eq: "write_T buffer (v :: 'a::len word) = buffer @ be_bytes (LENGTH('a) div 8) v"
  by (simp add: write_T_def sizeof_def write_loop_eq)

text \<open>The value the read loop accumulates from a byte list.\<close>

fun be_value :: "bytes \<Rightarrow> 'a::len word \<Rightarrow> 'a word" where
  "be_value [] v = v"
| "be_value (b # bs) v = be_value bs (push_bit 8 v OR ucast b)"

lemma read_loop_eq:
  "off + n \<le> length buf \<Longrightarrow>
   read_loop n buf off v = (be_value (take n (drop off buf)) v, off + n)"
proof (induction n arbitrary: off v)
  case (Suc n)
  then have "take (Suc n) (drop off buf) = buf ! off # take n (drop (Suc off) buf)"
    by (simp add: Cons_nth_drop_Suc [symmetric])
  with Suc show ?case by simp
qed simp

lemma be_value_acc:
  "be_value bs v = push_bit (8 * length bs) v OR be_value bs (0 :: 'a::len word)"
proof (induction bs arbitrary: v)
  case (Cons b bs)
  have "be_value (b # bs) v = push_bit (8 * length bs) (push_bit 8 v OR ucast b) OR be_value bs 0"
    using Cons.IH [of "push_bit 8 v OR ucast b"] by simp
  also have "\<dots> = push_bit (8 * length (b # bs)) v
      OR (push_bit (8 * length bs) (ucast b) OR be_value bs 0)"
    by (simp add: ac_simps)
  also have "push_bit (8 * length bs) (ucast b) OR be_value bs 0 = be_value (b # bs) (0 :: 'a word)"
    using Cons.IH [of "ucast b"] by simp
  finally show ?case .
qed simp

lemma bit_be_value_0:
  "bit (be_value bs 0 :: 'a::len word) n \<Longrightarrow> n < 8 * length bs"
proof (induction bs)
  case (Cons b bs)
  from Cons.prems have
    "bit (push_bit (8 * length bs) (ucast b :: 'a word) OR be_value bs 0) n"
    using be_value_acc [of bs "ucast b :: 'a word"] by simp
  then show ?case
    using Cons.IH by (auto simp: bit_simps dest: bit_imp_le_length)
qed simp

lemma drop_be_value:
  assumes "8 * length bs + 8 \<le> LENGTH('a)"
  shows "ucast (drop_bit (length bs * 8) (be_value bs (push_bit 8 v OR ucast b) :: 'a::len word))
    = (b :: u8)"
proof (rule bit_word_eqI)
  fix n assume n: "n < LENGTH(8)"
  have "\<not> bit (be_value bs 0 :: 'a word) (length bs * 8 + n)"
    using bit_be_value_0 by (metis add_lessD1 mult.commute less_irrefl)
  then show "bit (ucast (drop_bit (length bs * 8)
      (be_value bs (push_bit 8 v OR ucast b) :: 'a word)) :: u8) n = bit b n"
    using n assms
    by (subst be_value_acc) (auto simp: bit_simps mult.commute)
qed

lemma be_bytes_be_value:
  "8 * length bs \<le> LENGTH('a) \<Longrightarrow>
   be_bytes (length bs) (be_value bs v :: 'a::len word) = bs"
proof (induction bs arbitrary: v)
  case (Cons b bs)
  then show ?case
    using drop_be_value [of bs v b] by simp
qed simp

lemma be_value_be_bytes:
  "be_value (be_bytes n v) 0 = take_bit (8 * n) (v :: 'a::len word)"
proof (induction n)
  case (Suc n)
  have "be_value (be_bytes (Suc n) v) 0
      = push_bit (8 * n) (ucast (ucast (drop_bit (n * 8) v) :: u8)) OR be_value (be_bytes n v) 0"
    by simp (subst be_value_acc, simp)
  also have "\<dots> = take_bit (8 * Suc n) v"
    unfolding Suc.IH
    by (rule bit_word_eqI) (auto simp: bit_simps mult.commute dest: bit_imp_le_length)
  finally show ?case .
qed simp

section \<open>Codecs\<close>

text \<open>The integer codecs.\<close>

lemma integer_codec:
  assumes "n = LENGTH('a::len) div 8" and "8 dvd LENGTH('a)"
  shows "codec n (write_T [] :: 'a word \<Rightarrow> bytes) read_T (\<lambda>_. True) underflow_error"
proof
  fix v w :: "'a word" and buf :: bytes and off :: nat
  have n8: "8 * n = LENGTH('a)"
    using assms by simp
  have value_bytes: "be_value (be_bytes n x) 0 = x" for x :: "'a word"
    by (simp add: be_value_be_bytes n8 take_bit_word_eq_self)
  show "length (write_T [] v) = n"
    using assms by (simp add: write_T_eq)
  show "v = w" if "write_T [] v = write_T [] w"
    using that assms by (metis append_Nil value_bytes write_T_eq)
  show "read_T buf off = (Inl underflow_error :: ('a word \<times> nat) result)" if "length buf < off + n"
    using that assms by (simp add: read_T_def sizeof_def)
  show "\<exists>x. read_T buf off = Inr (x, off + n) \<and> True \<and>
      write_T [] (x :: 'a word) = take n (drop off buf)"
    if long: "off + n \<le> length buf"
  proof (intro exI conjI)
    show "read_T buf off = Inr (be_value (take n (drop off buf)) (0 :: 'a word), off + n)"
      using long assms by (simp add: read_T_def sizeof_def read_loop_eq)
    show "write_T [] (be_value (take n (drop off buf)) (0 :: 'a word)) = take n (drop off buf)"
      using be_bytes_be_value [where bs = "take n (drop off buf)" and v = "0 :: 'a word"] long n8
        assms by (simp add: write_T_eq)
  qed simp
qed

interpretation c_u8: codec 1 "write_T [] :: u8 \<Rightarrow> bytes" read_T "\<lambda>_. True" underflow_error
  by (rule integer_codec) simp_all

interpretation c_u32: codec 4 "write_T [] :: u32 \<Rightarrow> bytes" read_T "\<lambda>_. True" underflow_error
  by (rule integer_codec) simp_all

interpretation c_u64: codec 8 "write_T [] :: u64 \<Rightarrow> bytes" read_T "\<lambda>_. True" underflow_error
  by (rule integer_codec) simp_all

text \<open>A \<^verbatim>\<open>double\<close> is its 64-bit representation.\<close>

interpretation c_double_map: codec_map 8 "write_T [] :: u64 \<Rightarrow> bytes" read_T "\<lambda>_. True"
  underflow_error Double double_bits "\<lambda>_. True"
  by unfold_locales simp_all

interpretation c_double: codec 8 "writeDouble []" readDouble "\<lambda>_. True" underflow_error
  using c_double_map.image.codec_axioms
  by (simp add: writeDouble_def [abs_def] readDouble_def [abs_def] map_dec_def [abs_def])

text \<open>The header: type byte, sensor id, timestamp.\<close>

type_synonym header_fields = "(u8 \<times> u32) \<times> u64"

definition make_header :: "header_fields \<Rightarrow> PacketHeader" where
  "make_header = (\<lambda>((t, i), ts).
     \<lparr>ph_type = MessageType_of t, ph_sensorId = i, ph_timestamp_ms = ts\<rparr>)"

definition dest_header :: "PacketHeader \<Rightarrow> header_fields" where
  "dest_header h = ((MessageType_code (ph_type h), ph_sensorId h), ph_timestamp_ms h)"

lemma write_T_append: "write_T buffer v = buffer @ write_T [] v"
  by (simp add: write_T_eq)

lemma writeHeader_append: "writeHeader buffer h = buffer @ writeHeader [] h"
  by (simp add: writeHeader_def write_T_eq)

interpretation c_fields2: codec_seq 1 4 "write_T [] :: u8 \<Rightarrow> bytes" "write_T [] :: u32 \<Rightarrow> bytes"
  read_T read_T "\<lambda>_. True" "\<lambda>_. True" underflow_error
  by unfold_locales

interpretation c_fields3: codec_seq "1 + 4" 8
  "seq_enc (write_T [] :: u8 \<Rightarrow> bytes) (write_T [] :: u32 \<Rightarrow> bytes)" "write_T [] :: u64 \<Rightarrow> bytes"
  "seq_dec read_T read_T" read_T "seq_valid (\<lambda>_. True) (\<lambda>_. True)" "\<lambda>_. True" underflow_error
  by unfold_locales

interpretation c_header_map: codec_map "1 + 4 + 8"
  "seq_enc (seq_enc (write_T [] :: u8 \<Rightarrow> bytes) (write_T [] :: u32 \<Rightarrow> bytes))
     (write_T [] :: u64 \<Rightarrow> bytes)"
  "seq_dec (seq_dec read_T read_T) read_T"
  "seq_valid (seq_valid (\<lambda>_. True) (\<lambda>_. True)) (\<lambda>_. True)"
  underflow_error make_header dest_header PacketHeader_ok
  by unfold_locales
    (auto simp: make_header_def dest_header_def seq_valid_def PacketHeader_ok_def
      MessageType_ok_def)

lemma writeHeader_fields:
  "seq_enc (seq_enc (write_T []) (write_T [])) (write_T []) (dest_header h) = writeHeader [] h"
  by (simp add: seq_enc_def dest_header_def writeHeader_def write_T_eq)

lemma readHeader_fields:
  "map_dec make_header (seq_dec (seq_dec read_T read_T) read_T) = readHeader"
  by (intro ext)
    (simp add: map_dec_def seq_dec_def readHeader_def make_header_def bind_result_def
      split: sum.splits prod.splits)

interpretation c_header: codec 13 "writeHeader []" readHeader PacketHeader_ok underflow_error
  using c_header_map.image.codec_axioms
  by (simp add: writeHeader_fields readHeader_fields)

text \<open>The telemetry message: header, sensor type, sensor state, value.\<close>

type_synonym telemetry_fields = "((PacketHeader \<times> u8) \<times> u8) \<times> double"

definition make_telemetry :: "telemetry_fields \<Rightarrow> TelemetryMessage" where
  "make_telemetry = (\<lambda>(((h, t), s), v).
     \<lparr>tm_header = h, tm_type = SensorType_of t, tm_state = SensorState_of s, tm_value = v\<rparr>)"

definition dest_telemetry :: "TelemetryMessage \<Rightarrow> telemetry_fields" where
  "dest_telemetry m =
     (((tm_header m, SensorType_code (tm_type m)), SensorState_code (tm_state m)), tm_value m)"

definition telemetry_reader :: "TelemetryMessage reader" where
  "telemetry_reader =
     map_dec make_telemetry (seq_dec (seq_dec (seq_dec readHeader read_T) read_T) readDouble)"

interpretation c_body1: codec_seq 13 1 "writeHeader []" "write_T [] :: u8 \<Rightarrow> bytes"
  readHeader read_T PacketHeader_ok "\<lambda>_. True" underflow_error
  by unfold_locales

interpretation c_body2: codec_seq "13 + 1" 1
  "seq_enc (writeHeader []) (write_T [] :: u8 \<Rightarrow> bytes)" "write_T [] :: u8 \<Rightarrow> bytes"
  "seq_dec readHeader read_T" read_T "seq_valid PacketHeader_ok (\<lambda>_. True)" "\<lambda>_. True"
  underflow_error
  by unfold_locales

interpretation c_body3: codec_seq "13 + 1 + 1" 8
  "seq_enc (seq_enc (writeHeader []) (write_T [] :: u8 \<Rightarrow> bytes)) (write_T [] :: u8 \<Rightarrow> bytes)"
  "writeDouble []"
  "seq_dec (seq_dec readHeader read_T) read_T" readDouble
  "seq_valid (seq_valid PacketHeader_ok (\<lambda>_. True)) (\<lambda>_. True)" "\<lambda>_. True"
  underflow_error
  by unfold_locales

interpretation c_telemetry_map: codec_map "13 + 1 + 1 + 8"
  "seq_enc (seq_enc (seq_enc (writeHeader []) (write_T [] :: u8 \<Rightarrow> bytes))
     (write_T [] :: u8 \<Rightarrow> bytes)) (writeDouble [])"
  "seq_dec (seq_dec (seq_dec readHeader read_T) read_T) readDouble"
  "seq_valid (seq_valid (seq_valid PacketHeader_ok (\<lambda>_. True)) (\<lambda>_. True)) (\<lambda>_. True)"
  underflow_error make_telemetry dest_telemetry TelemetryMessage_ok
  by unfold_locales
    (auto simp: make_telemetry_def dest_telemetry_def seq_valid_def TelemetryMessage_ok_def
      SensorType_ok_def SensorState_ok_def)

lemma serialize_telemetry_fields:
  "seq_enc (seq_enc (seq_enc (writeHeader []) (write_T [])) (write_T [])) (writeDouble [])
     (dest_telemetry m) = serialize_telemetry m"
  by (simp add: seq_enc_def dest_telemetry_def serialize_telemetry_def writeDouble_def write_T_eq)

interpretation c_telemetry: codec 23 serialize_telemetry telemetry_reader TelemetryMessage_ok
  underflow_error
  using c_telemetry_map.image.codec_axioms
  by (simp add: serialize_telemetry_fields telemetry_reader_def)

lemma deserializeTelemetry_reader:
  "deserializeTelemetry buf = bind_result (telemetry_reader buf 0) (\<lambda>(m, _). Inr m)"
  by (simp add: deserializeTelemetry_def telemetry_reader_def map_dec_def seq_dec_def
      make_telemetry_def bind_result_def split: sum.splits prod.splits)

lemma serialize_heartbeat_header: "serialize_heartbeat m = writeHeader [] (hb_header m)"
  by (simp add: serialize_heartbeat_def)

section \<open>Outcomes of the deserializers\<close>

text \<open>
  What each entry point returns, by the length of the buffer.  The cases of
  \<open>deserializeTelemetry_cases\<close> and \<open>readHeader_cases\<close> are what callers split on.
\<close>

lemma readHeader_cases:
  obtains (short) "length buf < 13" "readHeader buf 0 = Inl underflow_error"
  | (long) h where "13 \<le> length buf" "readHeader buf 0 = Inr (h, 13)" "PacketHeader_ok h"
      "writeHeader [] h = take 13 buf"
  using c_header.dec_short [of buf 0] c_header.dec_long [of 0 buf] by (cases "length buf < 13") auto

lemma deserializeTelemetry_cases:
  obtains (short) "length buf < 23" "deserializeTelemetry buf = Inl underflow_error"
  | (long) m where "23 \<le> length buf" "deserializeTelemetry buf = Inr m" "TelemetryMessage_ok m"
      "serialize_telemetry m = take 23 buf"
  using c_telemetry.dec_short [of buf 0] c_telemetry.dec_long [of 0 buf]
  by (cases "length buf < 23") (auto simp: deserializeTelemetry_reader)

lemma deserializeTelemetry_serialize:
  "TelemetryMessage_ok m \<Longrightarrow> deserializeTelemetry (serialize_telemetry m @ post) = Inr m"
  by (simp add: deserializeTelemetry_reader c_telemetry.dec_enc_at_start)

lemma deserializeHeartbeat_serialize:
  "HeartbeatMessage_ok m \<Longrightarrow> deserializeHeartbeat (serialize_heartbeat m @ post) = Inr m"
  by (simp add: deserializeHeartbeat_def serialize_heartbeat_header c_header.dec_enc_at_start
      HeartbeatMessage_ok_def)

lemma serialize_telemetry_header:
  "\<exists>rest. serialize_telemetry m = writeHeader [] (tm_header m) @ rest"
  by (simp add: serialize_telemetry_def writeDouble_def write_T_eq)

lemma peekMessageType_writeHeader:
  "PacketHeader_ok h \<Longrightarrow> peekMessageType (writeHeader [] h @ post) = Inr (ph_type h)"
  by (simp add: peekMessageType_def c_header.dec_enc_at_start)

lemma peek_serialize [simp]:
  "TelemetryMessage_ok m \<Longrightarrow> peekMessageType (serialize_telemetry m) = Inr (ph_type (tm_header m))"
  "HeartbeatMessage_ok h \<Longrightarrow> peekMessageType (serialize_heartbeat h) = Inr (ph_type (hb_header h))"
  using serialize_telemetry_header [of m] peekMessageType_writeHeader [of "hb_header h" "[]"]
  by (auto simp: TelemetryMessage_ok_def HeartbeatMessage_ok_def peekMessageType_writeHeader
      serialize_heartbeat_header)

lemma peekMessageType_first_byte:
  "13 \<le> length buf \<Longrightarrow> peekMessageType buf = Inr (MessageType_of (buf ! 0))"
proof (cases rule: readHeader_cases [of buf])
  case (long h)
  have "write_T [] (MessageType_code (ph_type h)) = take 1 buf"
    using arg_cong [OF long(4), of "take 1"] by (simp add: writeHeader_def write_T_eq min_def)
  then have "MessageType_code (ph_type h) = buf ! 0"
    using long(1) by (cases buf) (simp_all add: write_T_eq)
  then have "ph_type h = MessageType_of (buf ! 0)"
    using long(3) by (metis MessageType_ok_def PacketHeader_ok_def)
  then show ?thesis by (simp add: peekMessageType_def long(2))
qed simp

lemma peekMessageType_short:
  "length buf < 13 \<Longrightarrow> peekMessageType buf = Inl underflow_error"
  by (simp add: peekMessageType_def c_header.dec_short)

section \<open>Properties of the wire format\<close>

definition example_telemetry :: TelemetryMessage where
  "example_telemetry =
     \<lparr>tm_header = \<lparr>ph_type = TELEMETRY, ph_sensorId = 5, ph_timestamp_ms = 12345\<rparr>,
      tm_type = Temperature, tm_state = ACTIVE, tm_value = Double 0x4039800000000000\<rparr>"

definition example_heartbeat :: HeartbeatMessage where
  "example_heartbeat =
     \<lparr>hb_header = \<lparr>ph_type = HEARTBEAT, ph_sensorId = 42, ph_timestamp_ms = 123456789\<rparr>\<rparr>"

lemma example_messages_ok [simp]:
  "TelemetryMessage_ok example_telemetry" "HeartbeatMessage_ok example_heartbeat"
  by (simp_all add: example_telemetry_def example_heartbeat_def TelemetryMessage_ok_def
      HeartbeatMessage_ok_def PacketHeader_ok_def)

text \<open>
  C4: a telemetry message survives the wire: deserializing its serialization, with or without
  trailing bytes in the datagram, gives back the same message in every field, the bit pattern of
  the double included.
\<close>

theorem telemetry_roundtrip:
  assumes "TelemetryMessage_ok m"
  shows "deserializeTelemetry (serialize_telemetry m @ trailing) = Inr m"
  using assms by (rule deserializeTelemetry_serialize)

theorem telemetry_roundtrip_witness:
  "TelemetryMessage_ok example_telemetry \<and>
   deserializeTelemetry (serialize_telemetry example_telemetry @ [7]) = Inr example_telemetry"
  using telemetry_roundtrip [of example_telemetry "[7]"] by simp

text \<open>
  C26: the outcome of \<^verbatim>\<open>deserializeTelemetry\<close> on any buffer: below 23 bytes it throws the
  underflow error and nothing else; from 23 bytes on it returns a message, and serializing that
  message reproduces the 23 bytes that were read, so no two different packets decode alike.
\<close>

theorem telemetry_decode_outcome:
  "(length buf < 23 \<longrightarrow> deserializeTelemetry buf = Inl underflow_error) \<and>
   (23 \<le> length buf \<longrightarrow>
     (\<exists>m. deserializeTelemetry buf = Inr m \<and> TelemetryMessage_ok m \<and>
          serialize_telemetry m = take 23 buf))"
  by (cases rule: deserializeTelemetry_cases [of buf]) auto

theorem telemetry_decode_outcome_witness:
  "deserializeTelemetry (replicate 22 0) = Inl underflow_error \<and>
   (\<exists>m. deserializeTelemetry (replicate 24 9) = Inr m \<and> TelemetryMessage_ok m \<and>
        serialize_telemetry m = replicate 23 9)"
  using telemetry_decode_outcome [of "replicate 22 0"]
    telemetry_decode_outcome [of "replicate 24 9"] by simp

text \<open>
  The outcome of the two header-only readers on any buffer: \<^verbatim>\<open>peekMessageType\<close> and
  \<^verbatim>\<open>deserializeHeartbeat\<close> throw the underflow error below 13 bytes; from 13 bytes on the
  peeked type is the decoding of the first byte, and the heartbeat read re-serializes to the first
  13 bytes.
\<close>

lemma header_decode_outcome:
  "(length buf < 13 \<longrightarrow>
     peekMessageType buf = Inl underflow_error \<and> deserializeHeartbeat buf = Inl underflow_error) \<and>
   (13 \<le> length buf \<longrightarrow>
     peekMessageType buf = Inr (MessageType_of (buf ! 0)) \<and>
     (\<exists>m. deserializeHeartbeat buf = Inr m \<and> HeartbeatMessage_ok m \<and>
          serialize_heartbeat m = take 13 buf))"
proof (cases rule: readHeader_cases [of buf])
  case short
  then show ?thesis by (simp add: peekMessageType_short deserializeHeartbeat_def)
next
  case (long h)
  then have "deserializeHeartbeat buf = Inr \<lparr>hb_header = h\<rparr>"
    by (simp add: deserializeHeartbeat_def)
  with long show ?thesis
    by (auto simp: peekMessageType_first_byte HeartbeatMessage_ok_def serialize_heartbeat_def)
qed

lemma unat_u8_less: "unat (b :: u8) < 256"
  using unsigned_less [of b] by simp

lemma unat_be_bytes:
  "map unat (be_bytes n v) = map (\<lambda>i. unat v div 256 ^ i mod 256) (rev [0..<n])"
proof (induction n)
  case (Suc n)
  have "(2 :: nat) ^ (n * 8) = 256 ^ n"
    by (simp add: mult.commute [of n] power_mult)
  then have "unat (drop_bit (n * 8) v) = unat v div 256 ^ n"
    unfolding unat_drop_bit_eq by (simp add: drop_bit_eq_div)
  then have "unat (ucast (drop_bit (n * 8) v) :: u8) = unat v div 256 ^ n mod 256"
    by (simp add: unsigned_ucast_eq take_bit_eq_mod)
  with Suc show ?case by simp
qed simp

lemma serialize_telemetry_bytes:
  "serialize_telemetry m =
     be_bytes 1 (MessageType_code (ph_type (tm_header m)))
     @ be_bytes 4 (ph_sensorId (tm_header m)) @ be_bytes 8 (ph_timestamp_ms (tm_header m))
     @ be_bytes 1 (SensorType_code (tm_type m)) @ be_bytes 1 (SensorState_code (tm_state m))
     @ be_bytes 8 (double_bits (tm_value m))"
  by (simp add: serialize_telemetry_def writeHeader_def writeDouble_def write_T_eq)

text \<open>
  C27: the telemetry packet is laid out as documented: 23 bytes, the type byte at offset 0, the
  sensor id in four and the timestamp in eight big-endian bytes, the sensor type at offset 13, the
  sensor state at offset 14 and the bits of the value in eight big-endian bytes.
\<close>

theorem telemetry_wire_layout:
  "length (serialize_telemetry m) = 23 \<and>
   map unat (serialize_telemetry m) =
     [unat (MessageType_code (ph_type (tm_header m)))]
     @ map (\<lambda>i. unat (ph_sensorId (tm_header m)) div 256 ^ i mod 256) [3, 2, 1, 0]
     @ map (\<lambda>i. unat (ph_timestamp_ms (tm_header m)) div 256 ^ i mod 256) [7, 6, 5, 4, 3, 2, 1, 0]
     @ [unat (SensorType_code (tm_type m)), unat (SensorState_code (tm_state m))]
     @ map (\<lambda>i. unat (double_bits (tm_value m)) div 256 ^ i mod 256) [7, 6, 5, 4, 3, 2, 1, 0]"
proof -
  have rev4: "rev [0..<4] = [3, 2, 1, 0 :: nat]" by (simp add: upt_rec)
  have rev8: "rev [0..<8] = [7, 6, 5, 4, 3, 2, 1, 0 :: nat]" by (simp add: upt_rec)
  show ?thesis unfolding serialize_telemetry_bytes
    by (simp add: unat_be_bytes rev4 rev8 del: be_bytes.simps upt_Suc One_nat_def)
      (simp add: unat_u8_less)
qed

text \<open>
  C37: whatever bytes arrive, the enumerations a decoded message holds are well-typed values whose
  codes are the bytes at offsets 13 and 14, and their display names are those of the four sensor
  types and three states exactly for the assigned codes, and the fallback names for every other byte.
\<close>

theorem telemetry_enumerators:
  assumes "deserializeTelemetry p = Inr m"
  shows "TelemetryMessage_ok m \<and> SensorType_code (tm_type m) = p ! 13 \<and> SensorState_code (tm_state m) = p ! 14 \<and>
    to_string_SensorType (tm_type m) =
      (if p ! 13 \<in> {1, 2, 3, 4}
       then [''Motion'', ''Temperature'', ''Battery'', ''Pressure''] ! (unat (p ! 13) - 1) else ''Unknown'') \<and>
    to_string_SensorState (tm_state m) =
      (if p ! 14 \<in> {1, 2, 3} then [''ACTIVE'', ''WARNING'', ''ERROR''] ! (unat (p ! 14) - 1) else ''UNKNOWN'')"
proof (cases rule: deserializeTelemetry_cases [of p])
  case short
  with assms show ?thesis by simp
next
  case (long m')
  then have m: "TelemetryMessage_ok m" "serialize_telemetry m = take 23 p" using assms by simp_all
  have "take 23 p ! 13 = SensorType_code (tm_type m)" "take 23 p ! 14 = SensorState_code (tm_state m)"
    unfolding m(2) [symmetric] serialize_telemetry_bytes by (simp_all add: nth_append)
  then have bytes: "p ! 13 = SensorType_code (tm_type m)" "p ! 14 = SensorState_code (tm_state m)" by simp_all
  have "SensorType_of (p ! 13) = tm_type m" "SensorState_of (p ! 14) = tm_state m"
    using m(1) bytes by (simp_all add: TelemetryMessage_ok_def SensorType_ok_def SensorState_ok_def)
  then have "to_string_SensorType (tm_type m) = to_string_SensorType (SensorType_of (p ! 13))"
    "to_string_SensorState (tm_state m) = to_string_SensorState (SensorState_of (p ! 14))" by simp_all
  with m(1) bytes show ?thesis by (auto simp: SensorType_of_def SensorState_of_def)
qed

theorem telemetry_enumerators_witness:
  "\<exists>m. deserializeTelemetry (replicate 23 2) = Inr m \<and> to_string_SensorType (tm_type m) = ''Temperature'' \<and>
    to_string_SensorState (tm_state m) = ''WARNING''"
proof -
  obtain m where "deserializeTelemetry (replicate 23 2) = Inr m"
    by (cases rule: deserializeTelemetry_cases [of "replicate 23 2"]) auto
  with telemetry_enumerators [OF this] show ?thesis by simp
qed

end
