(* ===== verification/UdpSender.thy ===== *)
theory UdpSender
  imports Prelude
begin

text \<open>
  Datagram output: the class of \<^verbatim>\<open>src/network/UdpSender.cpp\<close>, the in-memory sender of
  \<^verbatim>\<open>tests/fakes/FakeUdpSender.hpp\<close> and the interface \<^verbatim>\<open>IUdpSender\<close> they share.  The
  operating system is a parameter: the results of \<^verbatim>\<open>socket\<close> and \<^verbatim>\<open>inet_pton\<close> and the
  call \<^verbatim>\<open>sendto\<close> acting on a network state \<open>'n\<close>; the locale \<open>os_sendto\<close> states what its
  documentation promises.
\<close>

section \<open>Senders\<close>

record UdpSender =
  us_gatewayIp :: string
  us_gatewayPort :: u16
  us_sockfd :: int

text \<open>
  The constructor; \<open>fd\<close> is the result of \<^verbatim>\<open>socket(AF_INET, SOCK_DGRAM, 0)\<close>.
\<close>

definition new_UdpSender :: "string \<Rightarrow> u16 \<Rightarrow> int \<Rightarrow> UdpSender result" where
  "new_UdpSender ip port fd =
     (if fd < 0 then Inl (runtime_error ''Failed to create UDP socket'')
      else Inr \<lparr>us_gatewayIp = ip, us_gatewayPort = port, us_sockfd = fd\<rparr>)"

text \<open>
  The destructor: the descriptors it hands to \<^verbatim>\<open>close\<close>.
\<close>

definition delete_UdpSender :: "UdpSender \<Rightarrow> int list" where
  "delete_UdpSender us = (if us_sockfd us \<ge> 0 then [us_sockfd us] else [])"

text \<open>
  A destination is the address filled in by \<^verbatim>\<open>inet_pton\<close> (none when its result is not
  positive) with the port of \<^verbatim>\<open>sin_port\<close>.  An effect returns the outcome of the call and the
  new network state.
\<close>

type_synonym dest = "u32 \<times> u16"
type_synonym 'n sendto = "int \<Rightarrow> bytes \<Rightarrow> dest \<Rightarrow> 'n \<Rightarrow> int \<times> 'n"

definition UdpSender_send ::
  "(string \<Rightarrow> u32 option) \<Rightarrow> 'n sendto \<Rightarrow> UdpSender \<Rightarrow> bytes \<Rightarrow> 'n \<Rightarrow> unit result \<times> 'n" where
  "UdpSender_send inet_pton sendto us data net =
     (case inet_pton (us_gatewayIp us) of
        None \<Rightarrow> (Inl (runtime_error ''Invalid IP address''), net)
      | Some sin_addr \<Rightarrow>
          let (sent, net') = sendto (us_sockfd us) data (sin_addr, us_gatewayPort us) net
          in if sent < 0 then (Inl (runtime_error ''UDP send failed''), net') else (Inr (), net'))"

text \<open>
  The sender of the unit tests stores what it is given.
\<close>

definition FakeUdpSender_send :: "bytes \<Rightarrow> bytes list \<Rightarrow> unit result \<times> bytes list" where
  "FakeUdpSender_send data packets = (Inr (), packets @ [data])"

text \<open>
  A sender that was constructed closes exactly the socket it was given, and no construction succeeds
  without one.
\<close>

lemma sender_socket_lifecycle:
  "new_UdpSender ip port fd = Inr us \<Longrightarrow> 0 \<le> fd \<and> delete_UdpSender us = [fd]"
  by (auto simp: new_UdpSender_def delete_UdpSender_def split: if_splits)

section \<open>The interface IUdpSender\<close>

text \<open>
  The contract a client may rely on: a call that returns has put exactly its datagram on the wire,
  after those already there; a call that throws has put nothing.
\<close>

locale iudp_sender =
  fixes send :: "bytes \<Rightarrow> 'n \<Rightarrow> unit result \<times> 'n"
    and sent :: "'n \<Rightarrow> bytes list"
  assumes send_returns: "send data net = (Inr u, net') \<Longrightarrow> sent net' = sent net @ [data]"
    and send_throws: "send data net = (Inl e, net') \<Longrightarrow> sent net' = sent net"
begin

lemma send_cases:
  "sent (snd (send data net)) =
     (if throws (fst (send data net)) then sent net else sent net @ [data])"
proof (cases "send data net")
  case (Pair r net')
  then show ?thesis using send_returns send_throws by (cases r) simp_all
qed

lemma sent_grows: "prefix (sent net) (sent (snd (send data net)))"
  by (simp add: send_cases)

end

interpretation fake: iudp_sender FakeUdpSender_send "\<lambda>packets. packets"
  by unfold_locales (auto simp: FakeUdpSender_send_def)

text \<open>
  What the documentation of \<^verbatim>\<open>sendto\<close> promises for datagram sockets: a non-negative result
  means that the whole datagram was passed on to the destination, a negative one that nothing was.
\<close>

locale os_sendto =
  fixes sendto :: "'n sendto"
    and wire :: "'n \<Rightarrow> (dest \<times> bytes) list"
  assumes sendto_ok: "sendto fd data d net = (k, net') \<Longrightarrow> 0 \<le> k \<Longrightarrow> wire net' = wire net @ [(d, data)]"
    and sendto_error: "sendto fd data d net = (k, net') \<Longrightarrow> k < 0 \<Longrightarrow> wire net' = wire net"
begin

lemma udp_send_returns:
  assumes "UdpSender_send inet_pton sendto us data net = (Inr u, net')"
  shows "\<exists>a. inet_pton (us_gatewayIp us) = Some a \<and>
    wire net' = wire net @ [((a, us_gatewayPort us), data)]"
  using assms sendto_ok
  by (auto simp: UdpSender_send_def Let_def split: option.splits prod.splits if_splits)

lemma udp_send_throws:
  "UdpSender_send inet_pton sendto us data net = (Inl e, net') \<Longrightarrow> wire net' = wire net"
  using sendto_error
  by (auto simp: UdpSender_send_def Let_def split: option.splits prod.splits if_splits)

lemma udp_send_exception:
  "fst (UdpSender_send inet_pton sendto us data net) = Inl e \<Longrightarrow>
   e = runtime_error (if inet_pton (us_gatewayIp us) = None then ''Invalid IP address''
                      else ''UDP send failed'')"
  by (auto simp: UdpSender_send_def Let_def split: option.splits prod.splits if_splits)

end

sublocale os_sendto \<subseteq> udp: iudp_sender "UdpSender_send inet_pton sendto us" "\<lambda>net. map snd (wire net)"
  for inet_pton us
  using udp_send_returns udp_send_throws by unfold_locales fastforce+

text \<open>
  The loopback network of the demonstration program, which sends from and receives on 127.0.0.1:
  the datagrams of its open sockets in the order in which they were passed on.
\<close>

definition loopback_sendto :: "(dest \<times> bytes) list sendto" where
  "loopback_sendto fd data d net =
     (if fd < 0 then (- 1, net) else (int (length data), net @ [(d, data)]))"

interpretation loopback: os_sendto loopback_sendto "\<lambda>net. net"
  by unfold_locales (auto simp: loopback_sendto_def split: if_splits)

end
