(* ===== verification/ServiceLoop.thy ===== *)
theory ServiceLoop
  imports Prelude
begin

text \<open>
  The shape all service threads of the program share: a loop that tests an atomic flag, does one
  piece of work and tests again, while another thread may clear the flag at any time.  The locale
  states the unfolding of such a loop over the list of the inputs of its iterations; composition,
  termination after a stop and the invariant rule are proved once for all of them.
\<close>

text \<open>
  The status of an iteration whose body returned or threw.
\<close>

definition status_of :: "unit result \<times> 's \<Rightarrow> loop_status \<times> 's" where
  "status_of r = (case r of (Inl e, s) \<Rightarrow> (Threw e, s) | (Inr _, s) \<Rightarrow> (Running, s))"

lemma status_of_simps [simp]:
  "status_of (Inl e, s) = (Threw e, s)" "status_of (Inr u, s) = (Running, s)"
  by (simp_all add: status_of_def)

lemma snd_status_of [simp]: "snd (status_of r) = snd r"
  by (simp add: status_of_def split: prod.splits sum.splits)

locale service_loop =
  fixes loop :: "'i list \<Rightarrow> 's \<Rightarrow> loop_status \<times> 's"
    and stop_requested :: "'i \<Rightarrow> bool"
    and clear_flag :: "'s \<Rightarrow> 's"
    and flag :: "'s \<Rightarrow> bool"
    and body :: "'i \<Rightarrow> 's \<Rightarrow> loop_status \<times> 's"
  assumes loop_Nil: "loop [] s = (Running, s)"
    and loop_Cons: "loop (i # is) s =
      (let s0 = (if stop_requested i then clear_flag s else s)
       in if \<not> flag s0 then (Left, s0)
          else case body i s0 of
                 (Running, s1) \<Rightarrow> loop is s1
               | (Left, s1) \<Rightarrow> (Left, s1)
               | (Threw e, s1) \<Rightarrow> (Threw e, s1))"
    and clear_flag: "\<not> flag (clear_flag s)"
begin

lemma loop_stopped: "\<not> flag s \<Longrightarrow> fst (loop (i # is) s) = Left"
  by (simp add: loop_Cons Let_def clear_flag)

lemma loop_append:
  "loop (is @ js) s =
     (case loop is s of
        (Running, s1) \<Rightarrow> loop js s1
      | (Left, s1) \<Rightarrow> (Left, s1)
      | (Threw e, s1) \<Rightarrow> (Threw e, s1))"
proof (induction "is" arbitrary: s)
  case Nil
  show ?case by (simp add: loop_Nil)
next
  case (Cons i "is")
  define s0 where "s0 = (if stop_requested i then clear_flag s else s)"
  show ?case
    by (cases "flag s0"; cases "body i s0"; cases "fst (body i s0)")
      (simp_all add: loop_Cons Cons.IH flip: s0_def)
qed

text \<open>
  Termination: a loop that is asked to stop before one of its tests does not get past that test.
\<close>

lemma loop_terminates: "list_ex stop_requested is \<Longrightarrow> fst (loop is s) \<noteq> Running"
proof (induction "is" arbitrary: s)
  case (Cons i "is")
  define s0 where "s0 = (if stop_requested i then clear_flag s else s)"
  show ?case
  proof (cases "stop_requested i")
    case True
    then show ?thesis by (simp add: loop_Cons clear_flag)
  next
    case False
    with Cons show ?thesis
      by (cases "flag s0"; cases "body i s0"; cases "fst (body i s0)")
        (simp_all add: loop_Cons s0_def)
  qed
qed simp

lemma stop_ends_loop:
  assumes "stop_requested i"
  shows "loop (i # is) s = (Left, clear_flag s)"
  using assms by (simp add: loop_Cons clear_flag)

text \<open>
  What every body and the clearing of the flag keep, the loop keeps.
\<close>

lemma loop_invariant:
  assumes "I s" "\<And>s. I s \<Longrightarrow> I (clear_flag s)"
    and "\<And>i s. I s \<Longrightarrow> i \<in> set is \<Longrightarrow> I (snd (body i s))"
  shows "I (snd (loop is s))"
  using assms(1,3)
proof (induction "is" arbitrary: s)
  case Nil
  then show ?case by (simp add: loop_Nil)
next
  case (Cons i "is")
  define s0 where "s0 = (if stop_requested i then clear_flag s else s)"
  have s0: "I s0" using Cons.prems(1) assms(2) by (simp add: s0_def)
  obtain st s1 where b: "body i s0 = (st, s1)" by (cases "body i s0")
  have s1: "I s1" using Cons.prems(2) [OF s0, of i] b by simp
  have "I (snd (loop is s1))" using Cons.IH [OF s1] Cons.prems(2) by simp
  with s0 s1 b show ?case by (cases st) (simp_all add: loop_Cons flip: s0_def)
qed

end

section \<open>Loops over a plain flag\<close>

text \<open>
  The threads of \<^verbatim>\<open>main\<close> loop over an atomic flag of their own.  An input of an iteration says
  whether the flag was cleared before its test and carries what the body reads.
\<close>

fun flag_loop ::
  "('i \<Rightarrow> 's \<Rightarrow> unit result \<times> 's) \<Rightarrow> (bool \<times> 'i) list \<Rightarrow> bool \<times> 's \<Rightarrow> loop_status \<times> (bool \<times> 's)" where
  "flag_loop work [] bs = (Running, bs)"
| "flag_loop work ((cleared, i) # is) (b, s) =
     (let b0 = (b \<and> \<not> cleared)
      in if \<not> b0 then (Left, (b0, s))
         else case work i s of
                (Inl e, s1) \<Rightarrow> (Threw e, (b0, s1))
              | (Inr _, s1) \<Rightarrow> flag_loop work is (b0, s1))"

interpretation flag_thread: service_loop "flag_loop work" fst "\<lambda>(b, s). (False, s)" fst
  "\<lambda>(c, i) (b, s). case work i s of (Inl e, s1) \<Rightarrow> (Threw e, (b, s1)) | (Inr _, s1) \<Rightarrow> (Running, (b, s1))"
  for work
  by unfold_locales (auto simp: Let_def split: prod.splits sum.splits)

text \<open>
  As long as the flag is not cleared and the work returns, the loop goes on.
\<close>

lemma flag_loop_running:
  assumes "list_all (\<lambda>(cleared, i). \<not> cleared) is" "\<And>i s. fst (work i s) = Inr ()"
  shows "\<exists>s'. flag_loop work is (True, s) = (Running, (True, s'))"
  using assms(1)
proof (induction "is" arbitrary: s)
  case (Cons x "is")
  obtain c i where x: "x = (c, i)" by (cases x)
  obtain s1 where "work i s = (Inr (), s1)" using assms(2) [of i s] by (cases "work i s") auto
  with Cons x show ?case by simp
qed simp

lemma flag_loop_left:
  assumes "list_ex fst is" "\<And>i s. fst (work i s) = Inr ()"
  shows "fst (flag_loop work is bs) = Left"
  using assms(1)
proof (induction "is" arbitrary: bs)
  case (Cons x "is")
  obtain c i where x: "x = (c, i)" by (cases x)
  obtain b s where bs: "bs = (b, s)" by (cases bs)
  obtain s1 where "work i s = (Inr (), s1)" using assms(2) [of i s] by (cases "work i s") auto
  with Cons x bs show ?case by (cases c; cases b) (simp_all add: Let_def)
qed simp

end
