(* ===== verification/SensorNode.thy ===== *)
theory SensorNode
  imports Sensors PacketSerializer UdpSender ServiceLoop
begin

text \<open>
  The node of \<^verbatim>\<open>src/sensor/SensorNode.cpp\<close>: one measuring cycle, the heartbeat, and the loop of
  \<^verbatim>\<open>run\<close> with its two timers.  The sender is a parameter with the contract \<open>iudp_sender\<close>;
  the clock readings, the values drawn by the sensor and the calls of \<^verbatim>\<open>stop\<close> by other
  threads are the inputs of an iteration.
\<close>

section \<open>The node\<close>

record SensorNode =
  nd_sensor :: AnySensor
  nd_telemetryInterval :: int
  nd_heartbeatInterval :: int
  nd_running :: bool

type_synonym 'n send = "bytes \<Rightarrow> 'n \<Rightarrow> unit result \<times> 'n"

definition new_SensorNode :: "AnySensor \<Rightarrow> int \<Rightarrow> int \<Rightarrow> SensorNode" where
  "new_SensorNode sensor telemetryInterval heartbeatInterval =
     \<lparr>nd_sensor = sensor, nd_telemetryInterval = telemetryInterval,
      nd_heartbeatInterval = heartbeatInterval, nd_running = False\<rparr>"

definition default_telemetryInterval :: int where
  "default_telemetryInterval = 500"

definition default_heartbeatInterval :: int where
  "default_heartbeatInterval = 5000"

text \<open>
  \<open>draw\<close> is the value the sensor's generator yields, \<open>t\<close> the result of \<^verbatim>\<open>now()\<close>.  The
  sensor keeps its new reading even when the sender throws.
\<close>

definition tick ::
  "'n send \<Rightarrow> double \<Rightarrow> u64 \<Rightarrow> SensorNode \<Rightarrow> 'n \<Rightarrow> TelemetryMessage result \<times> SensorNode \<times> 'n" where
  "tick send draw t nd net =
     (let (_, s1) = collectData draw (nd_sensor nd);
          (reading, s2) = any_createTelemetry t s1;
          data = serialize_telemetry reading;
          (r, net') = send data net
      in (bind_result r (\<lambda>_. Inr reading), nd\<lparr>nd_sensor := s2\<rparr>, net'))"

definition sendHeartbeat :: "'n send \<Rightarrow> u64 \<Rightarrow> SensorNode \<Rightarrow> 'n \<Rightarrow> unit result \<times> 'n" where
  "sendHeartbeat send t nd net =
     (let heartbeat = \<lparr>hb_header = \<lparr>ph_type = HEARTBEAT, ph_sensorId = any_getId (nd_sensor nd),
                                    ph_timestamp_ms = t\<rparr>\<rparr>;
          data = serialize_heartbeat heartbeat
      in send data net)"

definition SensorNode_stop :: "SensorNode \<Rightarrow> SensorNode" where
  "SensorNode_stop nd = nd\<lparr>nd_running := False\<rparr>"

section \<open>The loop\<close>

text \<open>
  The steady clock counts nanoseconds; an interval in milliseconds is converted before it is
  compared with a difference of clock readings.
\<close>

definition ms :: "int \<Rightarrow> int" where
  "ms n = n * 1000000"

record node_input =
  in_stopped :: bool
  in_nowTime :: int
  in_draw :: double
  in_tickTime :: u64
  in_heartbeatTime :: u64

record 'n node_loop =
  nl_node :: SensorNode
  nl_lastTelemetry :: int
  nl_lastHeartbeat :: int
  nl_net :: 'n

definition telemetry_timer :: "'n send \<Rightarrow> node_input \<Rightarrow> 'n node_loop \<Rightarrow> unit result \<times> 'n node_loop" where
  "telemetry_timer send i st =
     (if in_nowTime i - nl_lastTelemetry st \<ge> ms (nd_telemetryInterval (nl_node st))
      then let (r, nd, net) = tick send (in_draw i) (in_tickTime i) (nl_node st) (nl_net st);
               st1 = st\<lparr>nl_node := nd, nl_net := net\<rparr>
           in (case r of Inl e \<Rightarrow> (Inl e, st1) | Inr _ \<Rightarrow> (Inr (), st1\<lparr>nl_lastTelemetry := in_nowTime i\<rparr>))
      else (Inr (), st))"

definition heartbeat_timer :: "'n send \<Rightarrow> node_input \<Rightarrow> 'n node_loop \<Rightarrow> unit result \<times> 'n node_loop" where
  "heartbeat_timer send i st =
     (if in_nowTime i - nl_lastHeartbeat st \<ge> ms (nd_heartbeatInterval (nl_node st))
      then let (r, net) = sendHeartbeat send (in_heartbeatTime i) (nl_node st) (nl_net st);
               st1 = st\<lparr>nl_net := net\<rparr>
           in (case r of Inl e \<Rightarrow> (Inl e, st1) | Inr _ \<Rightarrow> (Inr (), st1\<lparr>nl_lastHeartbeat := in_nowTime i\<rparr>))
      else (Inr (), st))"

definition run_body :: "'n send \<Rightarrow> node_input \<Rightarrow> 'n node_loop \<Rightarrow> unit result \<times> 'n node_loop" where
  "run_body send i st =
     (let (r, st1) = telemetry_timer send i st
      in case r of Inl e \<Rightarrow> (Inl e, st1) | Inr _ \<Rightarrow> heartbeat_timer send i st1)"

text \<open>
  The iterations of the loop for a finite list of inputs.
\<close>

fun run_loop :: "'n send \<Rightarrow> node_input list \<Rightarrow> 'n node_loop \<Rightarrow> loop_status \<times> 'n node_loop" where
  "run_loop send [] st = (Running, st)"
| "run_loop send (i # is) st =
     (let st0 = (if in_stopped i then st\<lparr>nl_node := SensorNode_stop (nl_node st)\<rparr> else st)
      in if \<not> nd_running (nl_node st0) then (Left, st0)
         else case run_body send i st0 of
                (Inl e, st1) \<Rightarrow> (Threw e, st1)
              | (Inr _, st1) \<Rightarrow> run_loop send is st1)"

text \<open>
  \<^verbatim>\<open>run\<close>: set the flag, take the two initial clock readings, loop.
\<close>

definition SensorNode_run ::
  "'n send \<Rightarrow> int \<Rightarrow> int \<Rightarrow> node_input list \<Rightarrow> SensorNode \<Rightarrow> 'n \<Rightarrow> loop_status \<times> 'n node_loop" where
  "SensorNode_run send t0 t1 is nd net =
     run_loop send is
       \<lparr>nl_node = nd\<lparr>nd_running := True\<rparr>, nl_lastTelemetry = t0, nl_lastHeartbeat = t1, nl_net = net\<rparr>"

interpretation node_loop: service_loop "run_loop send" in_stopped
  "\<lambda>st. st\<lparr>nl_node := SensorNode_stop (nl_node st)\<rparr>" "\<lambda>st. nd_running (nl_node st)"
  "\<lambda>i st. status_of (run_body send i st)"
  for send
  by unfold_locales (auto simp: Let_def SensorNode_stop_def split: prod.splits sum.splits)

section \<open>What one cycle sends\<close>

definition reading_of :: "double \<Rightarrow> u64 \<Rightarrow> AnySensor \<Rightarrow> TelemetryMessage" where
  "reading_of draw t s = fst (any_createTelemetry t (snd (collectData draw s)))"

definition beat_of :: "u64 \<Rightarrow> AnySensor \<Rightarrow> HeartbeatMessage" where
  "beat_of t s =
     \<lparr>hb_header = \<lparr>ph_type = HEARTBEAT, ph_sensorId = any_getId s, ph_timestamp_ms = t\<rparr>\<rparr>"

lemma reading_of_ok: "TelemetryMessage_ok (reading_of draw t s)"
  using any_class.reading_ok [of draw s "fst (collectData draw s)" "snd (collectData draw s)" t]
  by (simp add: reading_of_def)

lemma reading_of_header: "tm_header (reading_of draw t s) =
  \<lparr>ph_type = TELEMETRY, ph_sensorId = any_getId s, ph_timestamp_ms = t\<rparr>"
  by (simp add: reading_of_def any_class.create_message any_class.collect_id any_getId_def getId_def)

lemma reading_of_fields:
  "tm_type (reading_of draw t s) = getType s" "tm_value (reading_of draw t s) = fst (collectData draw s)"
  using any_class.reading_message [of draw s "fst (collectData draw s)" "snd (collectData draw s)" t]
  by (auto simp: reading_of_def)

lemma beat_of_ok: "HeartbeatMessage_ok (beat_of t s)"
  by (simp add: beat_of_def HeartbeatMessage_ok_def PacketHeader_ok_def)

lemma tick_eq:
  "tick send draw t nd net =
     (let (r, net') = send (serialize_telemetry (reading_of draw t (nd_sensor nd))) net
      in (bind_result r (\<lambda>_. Inr (reading_of draw t (nd_sensor nd))),
          nd\<lparr>nd_sensor := snd (any_createTelemetry t (snd (collectData draw (nd_sensor nd))))\<rparr>, net'))"
  by (simp add: tick_def reading_of_def Let_def case_prod_beta)

lemma sendHeartbeat_eq:
  "sendHeartbeat send t nd net = send (serialize_heartbeat (beat_of t (nd_sensor nd))) net"
  by (simp add: sendHeartbeat_def beat_of_def)

lemma tick_id:
  "tick send draw t nd net = (r, nd', net') \<Longrightarrow> any_getId (nd_sensor nd') = any_getId (nd_sensor nd)"
  by (auto simp: tick_eq Let_def any_getId_def getId_def any_class.create_id any_class.collect_id
      split: prod.splits)

lemma tick_config:
  "tick send draw t nd net = (r, nd', net') \<Longrightarrow> nd_telemetryInterval nd' = nd_telemetryInterval nd \<and>
   nd_heartbeatInterval nd' = nd_heartbeatInterval nd \<and> nd_running nd' = nd_running nd"
  by (auto simp: tick_eq Let_def split: prod.splits)

section \<open>What a run sends\<close>

definition is_telemetry_packet :: "bytes \<Rightarrow> bool" where
  "is_telemetry_packet p \<longleftrightarrow> peekMessageType p = Inr TELEMETRY"

definition is_heartbeat_packet :: "bytes \<Rightarrow> bool" where
  "is_heartbeat_packet p \<longleftrightarrow> peekMessageType p = Inr HEARTBEAT"

definition node_packet :: "u32 \<Rightarrow> bytes \<Rightarrow> bool" where
  "node_packet sid p \<longleftrightarrow>
     (\<exists>draw t s. any_getId s = sid \<and> p = serialize_telemetry (reading_of draw t s)) \<or>
     (\<exists>t s. any_getId s = sid \<and> p = serialize_heartbeat (beat_of t s))"

text \<open>
  The readings at which a timer that was last reset at \<open>l\<close> fires.
\<close>

fun fires :: "int \<Rightarrow> int \<Rightarrow> int list \<Rightarrow> int list" where
  "fires iv l [] = []"
| "fires iv l (t # ts) = (if t - l \<ge> iv then t # fires iv t ts else fires iv l ts)"

text \<open>
  From \<open>st\<close> to \<open>st'\<close> the node sent exactly \<open>ps\<close>, packets of its own; its identity and
  intervals are unchanged.
\<close>

definition emits ::
  "('n \<Rightarrow> bytes list) \<Rightarrow> 'n node_loop \<Rightarrow> 'n node_loop \<Rightarrow> bytes list \<Rightarrow> bool" where
  "emits sent st st' ps \<longleftrightarrow>
     sent (nl_net st') = sent (nl_net st) @ ps \<and>
     list_all (node_packet (any_getId (nd_sensor (nl_node st)))) ps \<and>
     any_getId (nd_sensor (nl_node st')) = any_getId (nd_sensor (nl_node st)) \<and>
     nd_telemetryInterval (nl_node st') = nd_telemetryInterval (nl_node st) \<and>
     nd_heartbeatInterval (nl_node st') = nd_heartbeatInterval (nl_node st)"

definition packet_counts :: "bytes list \<Rightarrow> nat \<times> nat" where
  "packet_counts ps = (length (filter is_telemetry_packet ps), length (filter is_heartbeat_packet ps))"

lemma emits_refl: "emits sent st st []"
  by (simp add: emits_def)

lemma emits_trans: "emits sent st s1 ps \<Longrightarrow> emits sent s1 st' qs \<Longrightarrow> emits sent st st' (ps @ qs)"
  by (simp add: emits_def)

lemma telemetry_packet:
  "is_telemetry_packet (serialize_telemetry (reading_of draw t s))"
  "\<not> is_heartbeat_packet (serialize_telemetry (reading_of draw t s))"
  "node_packet (any_getId s) (serialize_telemetry (reading_of draw t s))"
  by (auto simp: is_telemetry_packet_def is_heartbeat_packet_def node_packet_def reading_of_ok
      reading_of_header)

lemma heartbeat_packet:
  "is_heartbeat_packet (serialize_heartbeat (beat_of t s))"
  "\<not> is_telemetry_packet (serialize_heartbeat (beat_of t s))"
  "node_packet (any_getId s) (serialize_heartbeat (beat_of t s))"
  using beat_of_ok [of t s]
  by (auto simp: is_telemetry_packet_def is_heartbeat_packet_def node_packet_def beat_of_def)

context iudp_sender
begin

lemma tick_sent:
  assumes "tick send draw t nd net = (r, nd', net')"
  shows "sent net' = sent net @ (if throws r then [] else [serialize_telemetry (reading_of draw t (nd_sensor nd))])"
    "r = Inr m \<Longrightarrow> m = reading_of draw t (nd_sensor nd)"
  using assms send_cases [of "serialize_telemetry (reading_of draw t (nd_sensor nd))" net]
  by (auto simp: tick_eq Let_def bind_result_Inr_iff throws_def split: prod.splits sum.splits if_splits)

lemma heartbeat_sent:
  assumes "sendHeartbeat send t nd net = (r, net')"
  shows "sent net' = sent net @ (if throws r then [] else [serialize_heartbeat (beat_of t (nd_sensor nd))])"
  using assms send_cases [of "serialize_heartbeat (beat_of t (nd_sensor nd))" net]
  by (simp add: sendHeartbeat_eq)

lemma telemetry_timer_emits:
  assumes "telemetry_timer send i st = (r, st')"
  shows "\<exists>ps. emits sent st st' ps \<and> nl_lastHeartbeat st' = nl_lastHeartbeat st \<and>
    (r = Inr () \<longrightarrow>
       (let f = in_nowTime i - nl_lastTelemetry st \<ge> ms (nd_telemetryInterval (nl_node st))
        in packet_counts ps = (if f then 1 else 0, 0) \<and>
           nl_lastTelemetry st' = (if f then in_nowTime i else nl_lastTelemetry st)))"
proof (cases "in_nowTime i - nl_lastTelemetry st \<ge> ms (nd_telemetryInterval (nl_node st))")
  case False
  with assms show ?thesis
    by (intro exI [of _ "[]"]) (auto simp: telemetry_timer_def emits_refl packet_counts_def)
next
  case True
  obtain r1 nd net where t: "tick send (in_draw i) (in_tickTime i) (nl_node st) (nl_net st) = (r1, nd, net)"
    by (cases "tick send (in_draw i) (in_tickTime i) (nl_node st) (nl_net st)")
  show ?thesis
    using assms True tick_sent(1) [OF t] tick_id [OF t] tick_config [OF t]
    by (intro exI [of _ "if throws r1 then [] else [serialize_telemetry (reading_of (in_draw i) (in_tickTime i) (nd_sensor (nl_node st)))]"])
      (auto simp: telemetry_timer_def t emits_def packet_counts_def telemetry_packet throws_def Let_def split: sum.splits)
qed

lemma heartbeat_timer_emits:
  assumes "heartbeat_timer send i st = (r, st')"
  shows "\<exists>ps. emits sent st st' ps \<and> nl_lastTelemetry st' = nl_lastTelemetry st \<and>
    (r = Inr () \<longrightarrow>
       (let f = in_nowTime i - nl_lastHeartbeat st \<ge> ms (nd_heartbeatInterval (nl_node st))
        in packet_counts ps = (0, if f then 1 else 0) \<and>
           nl_lastHeartbeat st' = (if f then in_nowTime i else nl_lastHeartbeat st)))"
proof (cases "in_nowTime i - nl_lastHeartbeat st \<ge> ms (nd_heartbeatInterval (nl_node st))")
  case False
  with assms show ?thesis
    by (intro exI [of _ "[]"]) (auto simp: heartbeat_timer_def emits_refl packet_counts_def)
next
  case True
  obtain r1 net where t: "sendHeartbeat send (in_heartbeatTime i) (nl_node st) (nl_net st) = (r1, net)"
    by (cases "sendHeartbeat send (in_heartbeatTime i) (nl_node st) (nl_net st)")
  show ?thesis
    using assms True heartbeat_sent [OF t]
    by (intro exI [of _ "if throws r1 then [] else [serialize_heartbeat (beat_of (in_heartbeatTime i) (nd_sensor (nl_node st)))]"])
      (auto simp: heartbeat_timer_def t emits_def packet_counts_def heartbeat_packet throws_def Let_def split: sum.splits)
qed

lemma run_body_emits:
  assumes "run_body send i st = (r, st')"
  shows "\<exists>ps. emits sent st st' ps \<and>
    (r = Inr () \<longrightarrow>
       (let f = in_nowTime i - nl_lastTelemetry st \<ge> ms (nd_telemetryInterval (nl_node st));
            g = in_nowTime i - nl_lastHeartbeat st \<ge> ms (nd_heartbeatInterval (nl_node st))
        in packet_counts ps = (if f then 1 else 0, if g then 1 else 0) \<and>
           nl_lastTelemetry st' = (if f then in_nowTime i else nl_lastTelemetry st) \<and>
           nl_lastHeartbeat st' = (if g then in_nowTime i else nl_lastHeartbeat st)))"
proof -
  obtain r1 st1 where t: "telemetry_timer send i st = (r1, st1)" by (cases "telemetry_timer send i st")
  obtain ps where ps: "emits sent st st1 ps" "nl_lastHeartbeat st1 = nl_lastHeartbeat st"
    "r1 = Inr () \<longrightarrow>
       (let f = in_nowTime i - nl_lastTelemetry st \<ge> ms (nd_telemetryInterval (nl_node st))
        in packet_counts ps = (if f then 1 else 0, 0) \<and>
           nl_lastTelemetry st1 = (if f then in_nowTime i else nl_lastTelemetry st))"
    using telemetry_timer_emits [OF t] by blast
  show ?thesis
  proof (cases r1)
    case (Inl e)
    with assms t ps show ?thesis by (auto simp: run_body_def)
  next
    case (Inr u)
    then have h: "heartbeat_timer send i st1 = (r, st')" using assms t by (simp add: run_body_def)
    obtain qs where "emits sent st1 st' qs" "nl_lastTelemetry st' = nl_lastTelemetry st1"
      "r = Inr () \<longrightarrow>
       (let g = in_nowTime i - nl_lastHeartbeat st1 \<ge> ms (nd_heartbeatInterval (nl_node st1))
        in packet_counts qs = (0, if g then 1 else 0) \<and>
           nl_lastHeartbeat st' = (if g then in_nowTime i else nl_lastHeartbeat st1))"
      using heartbeat_timer_emits [OF h] by blast
    with ps Inr show ?thesis
      by (intro exI [of _ "ps @ qs"] conjI emits_trans [of _ _ st1])
        (auto simp: packet_counts_def Let_def emits_def)
  qed
qed

lemma run_loop_emits:
  assumes "run_loop send is st = (status, st')"
  shows "\<exists>ps. emits sent st st' ps \<and>
    (status = Running \<longrightarrow>
       packet_counts ps =
         (length (fires (ms (nd_telemetryInterval (nl_node st))) (nl_lastTelemetry st) (map in_nowTime is)),
          length (fires (ms (nd_heartbeatInterval (nl_node st))) (nl_lastHeartbeat st) (map in_nowTime is))))"
  using assms
proof (induction "is" arbitrary: st)
  case Nil
  then show ?case by (auto intro!: exI [of _ "[]"] simp: emits_refl packet_counts_def)
next
  case (Cons i "is")
  define st0 where "st0 = (if in_stopped i then st\<lparr>nl_node := SensorNode_stop (nl_node st)\<rparr> else st)"
  have st0: "emits sent st st0 []" "nl_lastTelemetry st0 = nl_lastTelemetry st"
      "nl_lastHeartbeat st0 = nl_lastHeartbeat st"
    by (simp_all add: st0_def emits_def SensorNode_stop_def)
  obtain r st1 where b: "run_body send i st0 = (r, st1)" by (cases "run_body send i st0")
  obtain qs where qs: "emits sent st0 st1 qs" "r = Inr () \<longrightarrow>
       (let f = in_nowTime i - nl_lastTelemetry st0 \<ge> ms (nd_telemetryInterval (nl_node st0));
            g = in_nowTime i - nl_lastHeartbeat st0 \<ge> ms (nd_heartbeatInterval (nl_node st0))
        in packet_counts qs = (if f then 1 else 0, if g then 1 else 0) \<and>
           nl_lastTelemetry st1 = (if f then in_nowTime i else nl_lastTelemetry st0) \<and>
           nl_lastHeartbeat st1 = (if g then in_nowTime i else nl_lastHeartbeat st0))"
    using run_body_emits [OF b] by blast
  have one: "emits sent st st1 qs" using emits_trans [OF st0(1) qs(1)] by simp
  show ?case
  proof (cases "nd_running (nl_node st0)"; cases r)
    fix u
    assume run: "nd_running (nl_node st0)" and r: "r = Inr u"
    then have rest: "run_loop send is st1 = (status, st')"
      using Cons.prems b by (simp add: Let_def flip: st0_def)
    from Cons.IH [OF this] obtain ps where ps: "emits sent st1 st' ps"
      "status = Running \<longrightarrow> packet_counts ps =
         (length (fires (ms (nd_telemetryInterval (nl_node st1))) (nl_lastTelemetry st1) (map in_nowTime is)),
          length (fires (ms (nd_heartbeatInterval (nl_node st1))) (nl_lastHeartbeat st1) (map in_nowTime is)))"
      by blast
    with one qs r st0 show ?thesis
      by (intro exI [of _ "qs @ ps"] conjI emits_trans [OF one ps(1)])
        (auto simp: packet_counts_def Let_def emits_def)
  qed (use Cons.prems b st0(1) one in \<open>auto simp: Let_def simp flip: st0_def\<close>)
qed

end

section \<open>The timers\<close>

text \<open>
  Consecutive clock readings neither go back nor lie more than \<open>G\<close> apart.
\<close>

definition steady_within :: "int \<Rightarrow> int list \<Rightarrow> bool" where
  "steady_within G ts \<longleftrightarrow> successively (\<lambda>a b. a \<le> b \<and> b \<le> a + G) ts"

lemma fires_rate:
  assumes "0 < iv" "l \<le> t0" "t0 - l < iv" "steady_within G (t0 # ts)"
  shows "int (length (fires iv l ts)) * iv \<le> last (t0 # ts) - l \<and>
    last (t0 # ts) - l < int (length (fires iv l ts)) * (iv + G) + iv"
  using assms
proof (induction ts arbitrary: l t0)
  case Nil
  then show ?case by simp
next
  case (Cons t ts)
  have t: "t0 \<le> t" "t \<le> t0 + G" "steady_within G (t # ts)"
    using Cons.prems(4) by (simp_all add: steady_within_def)
  show ?case
  proof (cases "t - l \<ge> iv")
    case True
    have "int (length (fires iv t ts)) * iv \<le> last (t # ts) - t \<and>
        last (t # ts) - t < int (length (fires iv t ts)) * (iv + G) + iv"
      using Cons.prems(1) t(3) by (intro Cons.IH) simp_all
    with True t Cons.prems show ?thesis by (auto simp: algebra_simps)
  next
    case False
    with Cons.IH [of l t] Cons.prems t show ?thesis by simp
  qed
qed

section \<open>Properties of the node\<close>

text \<open>
  C16: a measuring cycle of a node whose sender is a UDP socket puts exactly one datagram on the wire,
  addressed to the configured gateway; decoding it gives back the message the cycle returned, which
  carries the node's id, the time stamp and the type of the sensor.  When the cycle throws, nothing
  was sent and the exception tells a bad address from a failed call.
\<close>

theorem tick_delivers:
  assumes os: "os_sendto sendto wire"
    and tick: "tick (UdpSender_send inet_pton sendto us) draw t nd net = (r, nd', net')"
  shows "(case r of
      Inr m \<Rightarrow> (\<exists>a p. inet_pton (us_gatewayIp us) = Some a \<and>
          wire net' = wire net @ [((a, us_gatewayPort us), p)] \<and> deserializeTelemetry p = Inr m) \<and>
        tm_header m = \<lparr>ph_type = TELEMETRY, ph_sensorId = any_getId (nd_sensor nd), ph_timestamp_ms = t\<rparr> \<and>
        tm_type m = getType (nd_sensor nd) \<and> tm_value m = fst (collectData draw (nd_sensor nd))
    | Inl e \<Rightarrow> wire net' = wire net \<and>
        e = runtime_error (if inet_pton (us_gatewayIp us) = None then ''Invalid IP address''
                           else ''UDP send failed''))"
proof -
  let ?m = "reading_of draw t (nd_sensor nd)" and ?send = "UdpSender_send inet_pton sendto us"
  obtain r1 where s: "?send (serialize_telemetry ?m) net = (r1, net')" "r = bind_result r1 (\<lambda>_. Inr ?m)"
    using tick by (auto simp: tick_eq Let_def split: prod.splits)
  have p: "deserializeTelemetry (serialize_telemetry ?m) = Inr ?m"
    using deserializeTelemetry_serialize [OF reading_of_ok, of draw t "nd_sensor nd" "[]"] by simp
  show ?thesis
  proof (cases r1)
    case (Inl e)
    with s show ?thesis
      using os_sendto.udp_send_throws [OF os] os_sendto.udp_send_exception [OF os, of inet_pton us "serialize_telemetry ?m" net e]
      by simp
  next
    case (Inr u)
    with s p show ?thesis
      using os_sendto.udp_send_returns [OF os, of inet_pton us "serialize_telemetry ?m" net u net']
      by (auto simp: reading_of_header reading_of_fields)
  qed
qed

definition example_node :: SensorNode where
  "example_node = new_SensorNode (IsMotion (new_MotionSensor 1)) default_telemetryInterval default_heartbeatInterval"

definition example_sender :: UdpSender where
  "example_sender = \<lparr>us_gatewayIp = ''127.0.0.1'', us_gatewayPort = 9000, us_sockfd = 3\<rparr>"

theorem tick_delivers_witness:
  "\<exists>m p. snd (snd (tick (UdpSender_send (\<lambda>_. Some 0x7F000001) loopback_sendto example_sender) zero_double 7
      example_node [])) = [((0x7F000001, 9000), p)] \<and>
    deserializeTelemetry p = Inr m \<and> ph_sensorId (tm_header m) = 1"
  using tick_delivers [OF loopback.os_sendto_axioms, of "\<lambda>_. Some 0x7F000001" example_sender zero_double 7 example_node "[]"
      "Inr (reading_of zero_double 7 (nd_sensor example_node))"]
  by (auto simp: tick_eq UdpSender_send_def loopback_sendto_def example_sender_def example_node_def new_SensorNode_def Let_def
      any_getId_def getId_def new_MotionSensor_def truncate_eq)

text \<open>
  C12: the loop keeps its rates.  Over a run with a steady clock whose consecutive readings lie at most
  \<open>G\<close> nanoseconds apart, everything sent is a telemetry or heartbeat packet of this node, and
  the numbers of both are those of their timers: \<open>n\<close> packets of interval \<open>iv\<close> take at least
  \<open>n * iv\<close>, and no interval is overdrawn by more than \<open>G\<close>, so with the default five seconds
  heartbeats are less than five seconds plus \<open>G\<close> apart.
\<close>

theorem run_rates:
  assumes "iudp_sender send sent"
    and "0 < nd_telemetryInterval nd" "0 < nd_heartbeatInterval nd"
    and "steady_within G (t0 # map in_nowTime is)" "steady_within G (t1 # map in_nowTime is)"
    and "SensorNode_run send t0 t1 is nd net = (Running, st')"
  shows "\<exists>ps. sent (nl_net st') = sent net @ ps \<and> list_all (node_packet (any_getId (nd_sensor nd))) ps \<and>
    (let n = int (length (filter is_telemetry_packet ps)); iv = ms (nd_telemetryInterval nd);
         T = last (t0 # map in_nowTime is) - t0
     in n * iv \<le> T \<and> T < n * (iv + G) + iv) \<and>
    (let n = int (length (filter is_heartbeat_packet ps)); iv = ms (nd_heartbeatInterval nd);
         T = last (t1 # map in_nowTime is) - t1
     in n * iv \<le> T \<and> T < n * (iv + G) + iv)"
proof -
  let ?ts = "map in_nowTime is"
  obtain ps where ps: "sent (nl_net st') = sent net @ ps"
    "list_all (node_packet (any_getId (nd_sensor nd))) ps"
    "packet_counts ps = (length (fires (ms (nd_telemetryInterval nd)) t0 ?ts),
                         length (fires (ms (nd_heartbeatInterval nd)) t1 ?ts))"
    using iudp_sender.run_loop_emits [OF assms(1) assms(6) [unfolded SensorNode_run_def]]
    by (auto simp: emits_def)
  have "0 < ms (nd_telemetryInterval nd)" "0 < ms (nd_heartbeatInterval nd)"
    using assms(2,3) by (simp_all add: ms_def)
  with ps(3) assms(4,5) show ?thesis
    using fires_rate [of "ms (nd_telemetryInterval nd)" t0 t0 G ?ts]
      fires_rate [of "ms (nd_heartbeatInterval nd)" t1 t1 G ?ts]
    by (intro exI [of _ ps]) (simp add: ps(1,2) packet_counts_def Let_def)
qed

definition example_inputs :: "node_input list" where
  "example_inputs =
     [\<lparr>in_stopped = False, in_nowTime = ms 600, in_draw = zero_double, in_tickTime = 600, in_heartbeatTime = 600\<rparr>,
      \<lparr>in_stopped = False, in_nowTime = ms 1100, in_draw = zero_double, in_tickTime = 1100, in_heartbeatTime = 1100\<rparr>]"

lemma node_example_run:
  "fst (SensorNode_run FakeUdpSender_send 0 0 example_inputs example_node []) = Running"
  "length (nl_net (snd (SensorNode_run FakeUdpSender_send 0 0 example_inputs example_node []))) = 2"
  by (simp_all add: SensorNode_run_def example_inputs_def example_node_def new_SensorNode_def
      run_body_def telemetry_timer_def heartbeat_timer_def tick_eq FakeUdpSender_send_def ms_def
      default_telemetryInterval_def default_heartbeatInterval_def Let_def)

theorem run_rates_witness:
  "\<exists>ps. nl_net (snd (SensorNode_run FakeUdpSender_send 0 0 example_inputs example_node [])) = ps \<and>
     list_all (node_packet 1) ps \<and> length ps = 2 \<and> length (filter is_heartbeat_packet ps) < 2"
proof -
  let ?out = "SensorNode_run FakeUdpSender_send 0 0 example_inputs example_node []"
  have "?out = (Running, snd ?out)"
    using node_example_run(1) by (metis prod.collapse)
  from run_rates [OF fake.iudp_sender_axioms _ _ _ _ this, of "ms 600"] node_example_run(2)
  show ?thesis
    by (simp add: example_node_def new_SensorNode_def steady_within_def example_inputs_def ms_def
        default_telemetryInterval_def default_heartbeatInterval_def any_getId_def getId_def
        new_MotionSensor_def truncate_eq)
qed

text \<open>
  Stop ends the loop before anything more is sent: the test of the flag that follows it leaves the
  loop with the network untouched.  But run sets the flag itself: a stop that comes before run has
  no effect, and the node then runs as if it had never been stopped.
\<close>

lemma stop_then_run:
  "run_loop send (i\<lparr>in_stopped := True\<rparr> # is) st =
     (Left, st\<lparr>nl_node := SensorNode_stop (nl_node st)\<rparr>) \<and>
   SensorNode_run send t0 t1 js (SensorNode_stop nd) net = SensorNode_run send t0 t1 js nd net"
  by (simp add: SensorNode_run_def SensorNode_stop_def Let_def)

end
