(* ===== verification/StdText.thy ===== *)
theory StdText
  imports Binary64
begin

text \<open>
  The text facilities of the C++ standard library that the program uses: decimal output of
  unsigned integers (\<^verbatim>\<open>std::to_string\<close>, \<^verbatim>\<open>operator<<\<close>), left-justified
  fields (\<^verbatim>\<open>std::left\<close>, \<^verbatim>\<open>std::setw\<close>) and \<^verbatim>\<open>std::stoi\<close>.
\<close>

section \<open>Decimal output\<close>

definition digit_char :: "nat \<Rightarrow> char" where
  "digit_char d = ''0123456789'' ! d"

fun dec_string :: "nat \<Rightarrow> string" where
  "dec_string n =
     (if n < 10 then [digit_char n] else dec_string (n div 10) @ [digit_char (n mod 10)])"

declare dec_string.simps [simp del]

definition show_word :: "'a::len word \<Rightarrow> string" where
  "show_word w = dec_string (unat w)"

definition setw_left :: "nat \<Rightarrow> string \<Rightarrow> string" where
  "setw_left w s = s @ replicate (w - length s) CHR '' ''"

definition nl :: string where
  "nl = [CHR 0x0A]"

lemma length_setw_left: "length (setw_left w s) = max w (length s)"
  by (simp add: setw_left_def)

section \<open>Decimal input\<close>

definition is_digit :: "char \<Rightarrow> bool" where
  "is_digit c \<longleftrightarrow> c \<in> set ''0123456789''"

definition digit_value :: "char \<Rightarrow> nat" where
  "digit_value c = length (takeWhile (\<lambda>d. d \<noteq> c) ''0123456789'')"

definition dec_value :: "string \<Rightarrow> nat" where
  "dec_value s = foldl (\<lambda>a c. 10 * a + digit_value c) 0 s"

definition is_space :: "char \<Rightarrow> bool" where
  "is_space c \<longleftrightarrow>
     c \<in> {CHR '' '', CHR 0x09, CHR 0x0A, CHR 0x0B, CHR 0x0C, CHR 0x0D}"

text \<open>
  \<^verbatim>\<open>std::stoi\<close> in base ten: skip white space, take an optional sign and the longest run
  of digits; no digit is \<^verbatim>\<open>std::invalid_argument\<close>, a value outside \<^verbatim>\<open>int\<close> is
  \<^verbatim>\<open>std::out_of_range\<close>.  Characters after the digits are ignored.
\<close>

definition stoi :: "string \<Rightarrow> int result" where
  "stoi s =
     (let s1 = dropWhile is_space s;
          neg = (s1 \<noteq> [] \<and> hd s1 = CHR ''-'');
          s2 = (if s1 \<noteq> [] \<and> (hd s1 = CHR ''-'' \<or> hd s1 = CHR ''+'') then tl s1 else s1);
          ds = takeWhile is_digit s2;
          v = (if neg then - int (dec_value ds) else int (dec_value ds))
      in if ds = [] then Inl (invalid_argument ''stoi'')
         else if v < - (2 ^ 31) \<or> 2 ^ 31 \<le> v then Inl (out_of_range ''stoi'')
         else Inr v)"

section \<open>Output and input are inverse\<close>

lemma less_10_cases:
  "(n :: nat) < 10 \<Longrightarrow>
   n = 0 \<or> n = 1 \<or> n = 2 \<or> n = 3 \<or> n = 4 \<or> n = 5 \<or> n = 6 \<or> n = 7 \<or> n = 8 \<or> n = 9"
  by arith

lemma digit_char_digit [simp]: "n < 10 \<Longrightarrow> is_digit (digit_char n)"
  by (auto dest!: less_10_cases simp: is_digit_def digit_char_def)

lemma digit_value_char [simp]: "n < 10 \<Longrightarrow> digit_value (digit_char n) = n"
  by (auto dest!: less_10_cases simp: digit_value_def digit_char_def)

lemma is_digit_not_space [simp]: "is_digit c \<Longrightarrow> \<not> is_space c"
  by (auto simp: is_digit_def is_space_def)

lemma is_digit_not_sign [simp]: "is_digit c \<Longrightarrow> c \<noteq> CHR ''-'' \<and> c \<noteq> CHR ''+''"
  by (auto simp: is_digit_def)

lemma dec_string_digits: "c \<in> set (dec_string n) \<Longrightarrow> is_digit c"
proof (induction n rule: dec_string.induct)
  case (1 n)
  then show ?case by (subst (asm) (2) dec_string.simps) (auto split: if_splits)
qed

lemma dec_string_nonempty [simp]: "dec_string n \<noteq> []"
  by (subst dec_string.simps) simp

lemma dec_value_snoc [simp]: "dec_value (s @ [c]) = 10 * dec_value s + digit_value c"
  by (simp add: dec_value_def)

lemma dec_value_Nil [simp]: "dec_value [] = 0"
  by (simp add: dec_value_def)

lemma dec_value_dec_string [simp]: "dec_value (dec_string n) = n"
proof (induction n rule: dec_string.induct)
  case (1 n)
  show ?case
  proof (cases "n < 10")
    case True
    then show ?thesis
      using dec_value_snoc [of "[]" "digit_char n"] by (subst dec_string.simps) simp
  next
    case False
    with 1 show ?thesis by (subst dec_string.simps) simp
  qed
qed

lemma dec_string_inject [simp]: "dec_string m = dec_string n \<longleftrightarrow> m = n"
  by (metis dec_value_dec_string)

lemma dec_string_Cons: "\<exists>c cs. dec_string n = c # cs \<and> is_digit c"
  using dec_string_digits [of "hd (dec_string n)" n] by (cases "dec_string n") auto

lemma takeWhile_dec_string:
  "rest = [] \<or> \<not> is_digit (hd rest) \<Longrightarrow> takeWhile is_digit (dec_string n @ rest) = dec_string n"
  by (cases rest) (auto simp: dec_string_digits)

lemma stoi_dec_string_eq:
  assumes rest: "rest = [] \<or> \<not> is_digit (hd rest)"
  shows "stoi (dec_string n @ rest) = (if n < 2 ^ 31 then Inr (int n) else Inl (out_of_range ''stoi''))"
proof -
  obtain c cs where c: "dec_string n = c # cs" "is_digit c"
    using dec_string_Cons by blast
  then have "dropWhile is_space (dec_string n @ rest) = dec_string n @ rest"
    by simp
  moreover have "hd (dec_string n @ rest) \<noteq> CHR ''-''" "hd (dec_string n @ rest) \<noteq> CHR ''+''"
    using c by auto
  ultimately show ?thesis
    by (simp add: stoi_def Let_def takeWhile_dec_string [OF rest])
qed

section \<open>Output of doubles\<close>

text \<open>
  \<^verbatim>\<open>operator<<\<close> on a \<^verbatim>\<open>double\<close> with the default format: the conversion \<^verbatim>\<open>%g\<close> with
  six significant digits.  The magnitude is a fraction of natural numbers; it is scaled by a power of
  ten to six digits, rounded to the nearest integer with ties to even, and printed in fixed or
  scientific notation without trailing zeros.
\<close>

definition double_ratio :: "double \<Rightarrow> nat \<times> nat" where
  "double_ratio d =
     (let m = (if exp_field d = 0 then frac_field d else 2 ^ 52 + frac_field d);
          e = (if exp_field d = 0 then 1 else exp_field d)
      in if e \<ge> 1075 then (m * 2 ^ (e - 1075), 1) else (m, 2 ^ (1075 - e)))"

function exp10_up :: "nat \<Rightarrow> nat \<Rightarrow> nat" where
  "exp10_up n d = (if d = 0 \<or> n < 10 * d then 0 else Suc (exp10_up n (10 * d)))"
  by auto
termination by (relation "measure (\<lambda>(n, d). n - d)") auto

function exp10_down :: "nat \<Rightarrow> nat \<Rightarrow> nat" where
  "exp10_down n d = (if n = 0 \<or> d \<le> n then 0 else Suc (exp10_down (10 * n) d))"
  by auto
termination by (relation "measure (\<lambda>(n, d). d - n)") auto

declare exp10_up.simps [simp del] exp10_down.simps [simp del]

definition round_div :: "nat \<Rightarrow> nat \<Rightarrow> nat" where
  "round_div n d =
     (let q = n div d; r = n mod d
      in if 2 * r < d \<or> 2 * r = d \<and> even q then q else q + 1)"

text \<open>
  The six significant digits and the decimal exponent of a positive fraction.
\<close>

definition g6_digits :: "nat \<times> nat \<Rightarrow> nat \<times> int" where
  "g6_digits nd =
     (let (n, d) = nd;
          X = (if d \<le> n then int (exp10_up n d) else - int (exp10_down n d));
          m = (if X \<ge> 5 then round_div n (d * 10 ^ nat (X - 5)) else round_div (n * 10 ^ nat (5 - X)) d)
      in if m = 1000000 then (100000, X + 1) else (m, X))"

definition strip_zeros :: "string \<Rightarrow> string" where
  "strip_zeros s = rev (dropWhile (\<lambda>c. c = CHR ''0'') (rev s))"

definition with_point :: "string \<Rightarrow> string \<Rightarrow> string" where
  "with_point i f = (if strip_zeros f = [] then i else i @ ''.'' @ strip_zeros f)"

definition show_exponent :: "int \<Rightarrow> string" where
  "show_exponent X =
     (let a = dec_string (nat \<bar>X\<bar>)
      in ''e'' @ (if X < 0 then ''-'' else ''+'') @ (if length a < 2 then ''0'' @ a else a))"

definition show_magnitude :: "nat \<times> nat \<Rightarrow> string" where
  "show_magnitude nd =
     (let (m, X) = g6_digits nd; ds = dec_string m
      in if X < - 4 \<or> X \<ge> 6 then with_point (take 1 ds) (drop 1 ds) @ show_exponent X
         else if X \<ge> 0 then with_point (take (nat X + 1) ds) (drop (nat X + 1) ds)
         else with_point ''0'' (replicate (nat (- X) - 1) CHR ''0'' @ ds))"

definition show_double :: "double \<Rightarrow> string" where
  "show_double d =
     (if sign_bit d then ''-'' else []) @
     (if is_nan d then ''nan'' else if is_infinite d then ''inf''
      else if magnitude d = 0 then ''0'' else show_magnitude (double_ratio d))"

text \<open>
  The fraction is the magnitude: \<open>double_ratio\<close> and the exact value used by the comparisons agree.
\<close>

lemma pow2_merge: "a + b = c \<Longrightarrow> (2::nat) ^ a * 2 ^ b = 2 ^ c"
  by (simp flip: power_add)

lemma double_ratio_magnitude:
  "double_ratio d = (n, k) \<Longrightarrow> n * 2 ^ 1074 = magnitude d * k"
proof -
  assume r: "double_ratio d = (n, k)"
  have p: "(2::nat) ^ (e - 1075) * 2 ^ 1074 = 2 ^ (e - 1)" if "1075 \<le> e" for e :: nat
    using that by (intro pow2_merge) simp
  have q: "(2::nat) ^ 1074 = 2 ^ (e - 1) * 2 ^ (1075 - e)" if "1 \<le> e" "e < 1075" for e :: nat
    using that by (intro pow2_merge [symmetric]) simp
  show ?thesis
  proof (cases "exp_field d = 0")
    case True
    with r show ?thesis by (auto simp: double_ratio_def magnitude_def simp del: power_numeral)
  next
    case False
    with r p [of "exp_field d"] q [of "exp_field d"] show ?thesis
      by (auto simp: double_ratio_def magnitude_def Let_def mult.assoc simp del: power_numeral split: if_splits)
  qed
qed

end
