(* ===== verification/Gateway.thy ===== *)
theory Gateway
  imports PacketSerializer StdText "HOL-Library.Multiset"
begin

text \<open>
  \<^verbatim>\<open>src/gateway/Gateway.cpp\<close>: the registry of sensors, the packet dispatcher and the
  heartbeat watchdog.  Every member function holds the mutex for its whole critical section, so it
  is one state transformer; the value \<^verbatim>\<open>now()\<close> returns inside it is the argument \<open>t\<close>, and
  the messages passed to \<^verbatim>\<open>logger.log\<close> are returned in order.
  \<^verbatim>\<open>detectOfflineSensors\<close> reads the clock before it takes the lock: its argument
  \<open>currentTime\<close> may be older than entries of the registry it scans.
\<close>

section \<open>State\<close>

record SensorInfo =
  lastTelemetry :: TelemetryMessage
  lastTelemetryReceivedTime :: u64
  lastHeartbeatReceivedTime :: u64
  health :: SensorHealth

definition default_SensorInfo :: SensorInfo where
  "default_SensorInfo =
     \<lparr>lastTelemetry = zero_TelemetryMessage, lastTelemetryReceivedTime = 0,
      lastHeartbeatReceivedTime = 0, health = UNKNOWN\<rparr>"

type_synonym registry = "u32 \<rightharpoonup> SensorInfo"

record Gateway =
  sensors :: registry
  telemetryPacketsReceived :: u64
  heartbeatPacketsReceived :: u64

definition init_Gateway :: Gateway where
  "init_Gateway =
     \<lparr>sensors = Map.empty, telemetryPacketsReceived = 0, heartbeatPacketsReceived = 0\<rparr>"

section \<open>Operations\<close>

text \<open>\<^verbatim>\<open>sensors[id]\<close>: the entry of \<open>sid\<close>, value-initialised if it was absent.\<close>

definition slot :: "registry \<Rightarrow> u32 \<Rightarrow> SensorInfo" where
  "slot reg sid = (case reg sid of None \<Rightarrow> default_SensorInfo | Some info \<Rightarrow> info)"

definition updateSensorInfo :: "u64 \<Rightarrow> TelemetryMessage \<Rightarrow> Gateway \<Rightarrow> Gateway" where
  "updateSensorInfo t message g =
     (let sid = ph_sensorId (tm_header message);
          info = slot (sensors g) sid;
          info = info\<lparr>lastTelemetry := message\<rparr>;
          info = info\<lparr>lastTelemetryReceivedTime := t\<rparr>
      in g\<lparr>sensors := (sensors g)(sid \<mapsto> info),
           telemetryPacketsReceived := telemetryPacketsReceived g + 1\<rparr>)"

definition handleHeartbeat :: "u64 \<Rightarrow> HeartbeatMessage \<Rightarrow> Gateway \<Rightarrow> Gateway" where
  "handleHeartbeat t message g =
     (let sid = ph_sensorId (hb_header message);
          info = slot (sensors g) sid;
          info = info\<lparr>lastHeartbeatReceivedTime := t\<rparr>;
          info = info\<lparr>health := ONLINE\<rparr>
      in g\<lparr>sensors := (sensors g)(sid \<mapsto> info),
           heartbeatPacketsReceived := heartbeatPacketsReceived g + 1\<rparr>)"

definition handlePacket :: "u64 \<Rightarrow> bytes \<Rightarrow> Gateway \<Rightarrow> (Gateway \<times> string list) result" where
  "handlePacket t packet g =
     bind_result (peekMessageType packet) (\<lambda>ty.
       case ty of
         TELEMETRY \<Rightarrow>
           bind_result (deserializeTelemetry packet) (\<lambda>msg. Inr (updateSensorInfo t msg g, []))
       | HEARTBEAT \<Rightarrow>
           bind_result (deserializeHeartbeat packet) (\<lambda>hb. Inr (handleHeartbeat t hb g, []))
       | MessageType_cast _ \<Rightarrow> Inr (g, [''[GATEWAY] Unknown message type'']))"

definition getSensors :: "Gateway \<Rightarrow> registry" where
  "getSensors g = sensors g"

definition offline_log :: "u32 \<Rightarrow> string" where
  "offline_log sid = ''[GATEWAY] Sensor '' @ show_word sid @ '' is offline''"

text \<open>
  One iteration of the watchdog loop, then the loop over the registry in visiting order \<open>ids\<close>.  The
  vector \<open>offlineSensors\<close> is local to the function; it is kept to state what the loop collects.
\<close>

definition detect_one ::
  "u64 \<Rightarrow> u32 \<Rightarrow> registry \<times> u32 list \<times> string list \<Rightarrow> registry \<times> u32 list \<times> string list" where
  "detect_one currentTime sid = (\<lambda>(reg, offlineSensors, logs).
     case reg sid of
       None \<Rightarrow> (reg, offlineSensors, logs)
     | Some info \<Rightarrow>
         if health info = UNKNOWN \<or> lastHeartbeatReceivedTime info = 0
         then (reg, offlineSensors, logs)
         else if currentTime - lastHeartbeatReceivedTime info > SENSOR_HEARTBEAT_TIMEOUT_MS
              then if health info \<noteq> OFFLINE
                   then (reg(sid \<mapsto> info\<lparr>health := OFFLINE\<rparr>), offlineSensors @ [sid],
                         logs @ [offline_log sid])
                   else (reg, offlineSensors, logs)
              else (reg, offlineSensors, logs))"

fun detect_loop ::
  "u64 \<Rightarrow> u32 list \<Rightarrow> registry \<times> u32 list \<times> string list \<Rightarrow> registry \<times> u32 list \<times> string list" where
  "detect_loop currentTime [] s = s"
| "detect_loop currentTime (sid # ids) s = detect_loop currentTime ids (detect_one currentTime sid s)"

definition detectOfflineSensors :: "u64 \<Rightarrow> u32 list \<Rightarrow> Gateway \<Rightarrow> Gateway \<times> string list" where
  "detectOfflineSensors currentTime ids g =
     (case detect_loop currentTime ids (sensors g, [], []) of
        (reg, offlineSensors, logs) \<Rightarrow> (g\<lparr>sensors := reg\<rparr>, logs))"

definition getSecondsSinceLastHeartbeat :: "u64 \<Rightarrow> u32 \<Rightarrow> Gateway \<Rightarrow> u64" where
  "getSecondsSinceLastHeartbeat t sensorId g =
     (case sensors g sensorId of
        None \<Rightarrow> 0
      | Some info \<Rightarrow>
          if lastHeartbeatReceivedTime info = 0 then 0
          else (t - lastHeartbeatReceivedTime info) div 1000)"

definition getTelemetryPacketsReceived :: "Gateway \<Rightarrow> u64" where
  "getTelemetryPacketsReceived g = telemetryPacketsReceived g"

definition getHeartbeatPacketsReceived :: "Gateway \<Rightarrow> u64" where
  "getHeartbeatPacketsReceived g = heartbeatPacketsReceived g"

section \<open>The registry after an operation\<close>

lemma slot_simps [simp]:
  "reg sid = None \<Longrightarrow> slot reg sid = default_SensorInfo"
  "reg sid = Some info \<Longrightarrow> slot reg sid = info"
  by (simp_all add: slot_def)

lemma sensors_updateSensorInfo:
  "sensors (updateSensorInfo t m g) = (sensors g)(ph_sensorId (tm_header m) \<mapsto>
     (slot (sensors g) (ph_sensorId (tm_header m)))
       \<lparr>lastTelemetry := m, lastTelemetryReceivedTime := t\<rparr>)"
  by (simp add: updateSensorInfo_def Let_def)

lemma sensors_handleHeartbeat:
  "sensors (handleHeartbeat t m g) = (sensors g)(ph_sensorId (hb_header m) \<mapsto>
     (slot (sensors g) (ph_sensorId (hb_header m)))
       \<lparr>lastHeartbeatReceivedTime := t, health := ONLINE\<rparr>)"
  by (simp add: handleHeartbeat_def Let_def)

lemma counters_update [simp]:
  "telemetryPacketsReceived (updateSensorInfo t m g) = telemetryPacketsReceived g + 1"
  "heartbeatPacketsReceived (updateSensorInfo t m g) = heartbeatPacketsReceived g"
  "telemetryPacketsReceived (handleHeartbeat t h g) = telemetryPacketsReceived g"
  "heartbeatPacketsReceived (handleHeartbeat t h g) = heartbeatPacketsReceived g + 1"
  by (simp_all add: updateSensorInfo_def handleHeartbeat_def Let_def)

section \<open>The watchdog, entry by entry\<close>

text \<open>
  The verdict of a scan on one entry.  The subtraction is the source's unsigned 64-bit one.
\<close>

definition timed_out :: "u64 \<Rightarrow> SensorInfo \<Rightarrow> bool" where
  "timed_out currentTime info \<longleftrightarrow>
     health info \<noteq> UNKNOWN \<and> lastHeartbeatReceivedTime info \<noteq> 0 \<and>
     currentTime - lastHeartbeatReceivedTime info > SENSOR_HEARTBEAT_TIMEOUT_MS"

definition scan_entry :: "u64 \<Rightarrow> SensorInfo \<Rightarrow> SensorInfo" where
  "scan_entry currentTime info = (if timed_out currentTime info then info\<lparr>health := OFFLINE\<rparr> else info)"

definition newly_offline :: "u64 \<Rightarrow> registry \<Rightarrow> u32 \<Rightarrow> bool" where
  "newly_offline currentTime reg sid \<longleftrightarrow>
     (case reg sid of None \<Rightarrow> False | Some info \<Rightarrow> timed_out currentTime info \<and> health info = ONLINE)"

lemma detect_one_eq:
  "detect_one t sid (reg, off, logs) =
     (if newly_offline t reg sid
      then (reg(sid := map_option (scan_entry t) (reg sid)), off @ [sid], logs @ [offline_log sid])
      else (reg(sid := map_option (scan_entry t) (reg sid)), off, logs))"
proof (cases "reg sid")
  case (Some info)
  then show ?thesis
    by (cases "health info")
      (auto simp: detect_one_def newly_offline_def scan_entry_def timed_out_def)
qed (auto simp: detect_one_def newly_offline_def)

lemma newly_offline_update_other:
  "s \<noteq> sid \<Longrightarrow> newly_offline t (reg(sid := v)) s = newly_offline t reg s"
  by (simp add: newly_offline_def)

lemma detect_loop_eq:
  "distinct ids \<Longrightarrow>
   detect_loop t ids (reg, off, logs) =
     (\<lambda>s. if s \<in> set ids then map_option (scan_entry t) (reg s) else reg s,
      off @ filter (newly_offline t reg) ids,
      logs @ map offline_log (filter (newly_offline t reg) ids))"
proof (induction ids arbitrary: reg off logs)
  case (Cons sid ids)
  let ?reg = "reg(sid := map_option (scan_entry t) (reg sid))"
  have "filter (newly_offline t ?reg) ids = filter (newly_offline t reg) ids"
    using Cons.prems by (intro filter_cong refl) (metis distinct.simps(2) newly_offline_update_other)
  moreover have "(\<lambda>s. if s \<in> set ids then map_option (scan_entry t) (?reg s) else ?reg s) =
      (\<lambda>s. if s \<in> set (sid # ids) then map_option (scan_entry t) (reg s) else reg s)"
    using Cons.prems by auto
  ultimately show ?case
    using Cons by (simp add: detect_one_eq del: fun_upd_apply)
qed auto

lemma detectOfflineSensors_eq:
  assumes "iterates ids (sensors g)"
  shows "detectOfflineSensors t ids g =
    (g\<lparr>sensors := map_option (scan_entry t) \<circ> sensors g\<rparr>,
     map offline_log (filter (newly_offline t (sensors g)) ids))"
proof -
  have "(\<lambda>s. if s \<in> set ids then map_option (scan_entry t) (sensors g s) else sensors g s)
      = map_option (scan_entry t) \<circ> sensors g"
    using iterates_set [OF assms] by (auto simp: fun_eq_iff dom_def)
  then show ?thesis
    by (simp add: detectOfflineSensors_def detect_loop_eq [OF iterates_distinct [OF assms]])
qed

lemma scan_entry_simps [simp]:
  "lastTelemetry (scan_entry t info) = lastTelemetry info"
  "lastTelemetryReceivedTime (scan_entry t info) = lastTelemetryReceivedTime info"
  "lastHeartbeatReceivedTime (scan_entry t info) = lastHeartbeatReceivedTime info"
  by (simp_all add: scan_entry_def)

lemma health_scan_entry:
  "health (scan_entry t info) = (if timed_out t info then OFFLINE else health info)"
  by (simp add: scan_entry_def)

section \<open>Outcomes of the dispatcher\<close>

lemma handlePacket_serialized:
  "TelemetryMessage_ok m \<Longrightarrow> ph_type (tm_header m) = TELEMETRY \<Longrightarrow>
   handlePacket t (serialize_telemetry m) g = Inr (updateSensorInfo t m g, [])"
  "HeartbeatMessage_ok h \<Longrightarrow> ph_type (hb_header h) = HEARTBEAT \<Longrightarrow>
   handlePacket t (serialize_heartbeat h) g = Inr (handleHeartbeat t h g, [])"
  using deserializeTelemetry_serialize [of m "[]"] deserializeHeartbeat_serialize [of h "[]"]
  by (simp_all add: handlePacket_def)

text \<open>The four ways a packet is handled.\<close>

lemma handlePacket_cases:
  obtains (short_header) "length p < 13" "handlePacket t p g = Inl underflow_error"
  | (short_telemetry) "13 \<le> length p" "length p < 23" "p ! 0 = 1"
      "handlePacket t p g = Inl underflow_error"
  | (telemetry) m where "23 \<le> length p" "p ! 0 = 1" "TelemetryMessage_ok m"
      "ph_type (tm_header m) = TELEMETRY" "serialize_telemetry m = take 23 p"
      "handlePacket t p g = Inr (updateSensorInfo t m g, [])"
  | (heartbeat) h where "13 \<le> length p" "p ! 0 = 2" "HeartbeatMessage_ok h"
      "ph_type (hb_header h) = HEARTBEAT" "serialize_heartbeat h = take 13 p"
      "handlePacket t p g = Inr (handleHeartbeat t h g, [])"
  | (unknown) "13 \<le> length p" "p ! 0 \<noteq> 1" "p ! 0 \<noteq> 2"
      "handlePacket t p g = Inr (g, [''[GATEWAY] Unknown message type''])"
proof (cases "length p < 13")
  case True
  then show thesis by (intro short_header) (simp_all add: handlePacket_def peekMessageType_short)
next
  case False
  then have len: "13 \<le> length p" by simp
  have peek: "peekMessageType p = Inr (MessageType_of (p ! 0))"
    using len by (rule peekMessageType_first_byte)
  consider "p ! 0 = 1" | "p ! 0 = 2" | "p ! 0 \<noteq> 1" "p ! 0 \<noteq> 2" by blast
  then show thesis
  proof cases
    case 1
    then have ty: "MessageType_of (p ! 0) = TELEMETRY" by simp
    show thesis
    proof (cases rule: deserializeTelemetry_cases [of p])
      case short
      with len 1 ty peek show thesis by (intro short_telemetry) (simp_all add: handlePacket_def)
    next
      case (long m)
      have "p = serialize_telemetry m @ drop 23 p"
        by (simp add: long(4))
      then have "peekMessageType p = Inr (ph_type (tm_header m))"
        using serialize_telemetry_header [of m] long(3)
        by (metis TelemetryMessage_ok_def append.assoc peekMessageType_writeHeader)
      with peek ty have "ph_type (tm_header m) = TELEMETRY" by simp
      with long 1 ty peek show thesis by (intro telemetry) (simp_all add: handlePacket_def)
    qed
  next
    case 2
    then have ty: "MessageType_of (p ! 0) = HEARTBEAT" by simp
    obtain h where h: "readHeader p 0 = Inr (h, 13)" "PacketHeader_ok h"
      "writeHeader [] h = take 13 p"
      using len by (cases rule: readHeader_cases [of p]) auto
    then have "ph_type h = HEARTBEAT"
      using peek ty by (simp add: peekMessageType_def)
    with h len 2 ty peek show thesis
      by (intro heartbeat [of "\<lparr>hb_header = h\<rparr>"])
        (simp_all add: handlePacket_def deserializeHeartbeat_def HeartbeatMessage_ok_def
          serialize_heartbeat_def)
  next
    case 3
    with len peek show thesis
      by (intro unknown) (simp_all add: handlePacket_def MessageType_of_def)
  qed
qed

section \<open>Properties\<close>

lemma timeout_no_wrap:
  "hb \<le> t \<Longrightarrow> (t - hb > SENSOR_HEARTBEAT_TIMEOUT_MS) = (unat t - unat hb > 10000)" for t hb :: u64
  by (simp add: SENSOR_HEARTBEAT_TIMEOUT_MS_def word_less_nat_alt unat_sub)

lemma unat_diff_wrap:
  fixes t hb :: u64
  assumes "t < hb"
  shows "unat (t - hb) = 2 ^ 64 - (unat hb - unat t)"
proof -
  have "unat (t - hb) = 2 ^ 64 + unat t - unat hb"
    using assms by (simp add: unat_sub_if_size word_le_nat_alt word_less_nat_alt word_size)
  also have "\<dots> = 2 ^ 64 - (unat hb - unat t)"
    using assms by (simp add: word_less_nat_alt)
  finally show ?thesis .
qed

lemma timeout_wrap:
  fixes t hb :: u64
  assumes "t < hb" "unat hb - unat t < 2 ^ 64 - 10000"
  shows "t - hb > SENSOR_HEARTBEAT_TIMEOUT_MS"
proof -
  have "unat (t - hb) > 10000"
    using assms(2) unat_diff_wrap [OF assms(1)] by linarith
  then show ?thesis by (simp add: SENSOR_HEARTBEAT_TIMEOUT_MS_def word_less_nat_alt)
qed

text \<open>
  C25: which packets make \<^verbatim>\<open>handlePacket\<close> throw, and what an unknown type byte does: it
  throws exactly on packets shorter than a header and on telemetry packets shorter than 23 bytes;
  a packet with an unassigned type byte leaves the gateway unchanged and logs one line.
\<close>

theorem handlePacket_outcome:
  "(throws (handlePacket t p g) \<longleftrightarrow> length p < 13 \<or> p ! 0 = 1 \<and> length p < 23) \<and>
   (13 \<le> length p \<and> p ! 0 \<noteq> 1 \<and> p ! 0 \<noteq> 2 \<longrightarrow>
     handlePacket t p g = Inr (g, [''[GATEWAY] Unknown message type'']))"
  by (cases rule: handlePacket_cases [of p t g]) auto

theorem handlePacket_outcome_witness:
  "throws (handlePacket 0 [1, 2, 3] init_Gateway) \<and>
   throws (handlePacket 0 (replicate 20 1) init_Gateway) \<and>
   \<not> throws (handlePacket 0 (replicate 20 2) init_Gateway) \<and>
   handlePacket 0 (replicate 13 9) init_Gateway =
     Inr (init_Gateway, [''[GATEWAY] Unknown message type''])"
  using handlePacket_outcome [of 0 "[1, 2, 3]" init_Gateway]
    handlePacket_outcome [of 0 "replicate 20 1" init_Gateway]
    handlePacket_outcome [of 0 "replicate 20 2" init_Gateway]
    handlePacket_outcome [of 0 "replicate 13 9" init_Gateway] by simp

text \<open>
  C24: what a well-formed packet does.  A serialized telemetry message updates exactly the entry of
  its sensor (created if absent), which gets the message and the receive time and keeps its health and
  heartbeat time; a serialized heartbeat marks exactly its sensor as online at the receive time and
  does not touch the telemetry stored for it.  The counter of the kind grows by one, the other counter
  and every other entry stay as they are.
\<close>

theorem handlePacket_stores:
  assumes "TelemetryMessage_ok m" "ph_type (tm_header m) = TELEMETRY"
    and "HeartbeatMessage_ok h" "ph_type (hb_header h) = HEARTBEAT"
  shows "(\<exists>g' info. handlePacket t (serialize_telemetry m) g = Inr (g', []) \<and>
      sensors g' = (sensors g)(ph_sensorId (tm_header m) \<mapsto> info) \<and>
      lastTelemetry info = m \<and> lastTelemetryReceivedTime info = t \<and>
      health info = health (slot (sensors g) (ph_sensorId (tm_header m))) \<and>
      lastHeartbeatReceivedTime info =
        lastHeartbeatReceivedTime (slot (sensors g) (ph_sensorId (tm_header m))) \<and>
      telemetryPacketsReceived g' = telemetryPacketsReceived g + 1 \<and>
      heartbeatPacketsReceived g' = heartbeatPacketsReceived g) \<and>
    (\<exists>g' info. handlePacket t (serialize_heartbeat h) g = Inr (g', []) \<and>
      sensors g' = (sensors g)(ph_sensorId (hb_header h) \<mapsto> info) \<and>
      health info = ONLINE \<and> lastHeartbeatReceivedTime info = t \<and>
      lastTelemetry info = lastTelemetry (slot (sensors g) (ph_sensorId (hb_header h))) \<and>
      lastTelemetryReceivedTime info =
        lastTelemetryReceivedTime (slot (sensors g) (ph_sensorId (hb_header h))) \<and>
      heartbeatPacketsReceived g' = heartbeatPacketsReceived g + 1 \<and>
      telemetryPacketsReceived g' = telemetryPacketsReceived g)"
  using handlePacket_serialized(1) [OF assms(1,2), of t g] handlePacket_serialized(2) [OF assms(3,4), of t g]
  by (auto simp: sensors_updateSensorInfo sensors_handleHeartbeat)

theorem handlePacket_stores_witness:
  "(\<exists>g' info. handlePacket 77 (serialize_telemetry example_telemetry) init_Gateway = Inr (g', []) \<and>
      sensors g' = [5 \<mapsto> info] \<and> lastTelemetry info = example_telemetry \<and>
      lastTelemetryReceivedTime info = 77 \<and> health info = UNKNOWN \<and> telemetryPacketsReceived g' = 1) \<and>
   (\<exists>g' info. handlePacket 77 (serialize_heartbeat example_heartbeat) init_Gateway = Inr (g', []) \<and>
      sensors g' = [42 \<mapsto> info] \<and> health info = ONLINE \<and> lastHeartbeatReceivedTime info = 77 \<and>
      lastTelemetry info = zero_TelemetryMessage \<and> heartbeatPacketsReceived g' = 1)"
  using handlePacket_stores [of example_telemetry example_heartbeat 77 init_Gateway]
  by (auto simp: example_telemetry_def example_heartbeat_def init_Gateway_def default_SensorInfo_def
      TelemetryMessage_ok_def HeartbeatMessage_ok_def PacketHeader_ok_def)

definition example_gateway :: Gateway where
  "example_gateway =
     \<lparr>sensors = [3 \<mapsto> default_SensorInfo\<lparr>lastHeartbeatReceivedTime := 5000, health := ONLINE\<rparr>,
                 7 \<mapsto> default_SensorInfo\<lparr>lastHeartbeatReceivedTime := 9000, health := ONLINE\<rparr>],
      telemetryPacketsReceived = 0, heartbeatPacketsReceived = 2\<rparr>"

lemma example_gateway_iterates [simp]:
  "iterates [3, 7] (sensors example_gateway)" "iterates [7, 3] (sensors example_gateway)"
  by (auto simp: iterates_def example_gateway_def)

lemma example_gateway_entries [simp]:
  "sensors example_gateway 3 =
     Some (default_SensorInfo\<lparr>lastHeartbeatReceivedTime := 5000, health := ONLINE\<rparr>)"
  "sensors example_gateway 7 =
     Some (default_SensorInfo\<lparr>lastHeartbeatReceivedTime := 9000, health := ONLINE\<rparr>)"
  by (simp_all add: example_gateway_def)

text \<open>
  With a clock reading that is not behind the stored heartbeat, a watchdog scan judges a sensor
  correctly: a sensor that has sent a heartbeat ends up offline if and only if it already was or
  more than 10000 ms have passed since its last heartbeat, and nothing else of its entry changes.
\<close>

lemma watchdog_verdict:
  assumes "iterates ids (sensors g)" "sensors g sid = Some info"
    and "health info \<noteq> UNKNOWN" "lastHeartbeatReceivedTime info \<noteq> 0"
    and "lastHeartbeatReceivedTime info \<le> currentTime"
  shows "\<exists>info'. sensors (fst (detectOfflineSensors currentTime ids g)) sid = Some info' \<and>
    (health info' = OFFLINE \<longleftrightarrow>
      health info = OFFLINE \<or> unat currentTime - unat (lastHeartbeatReceivedTime info) > 10000) \<and>
    info' = info\<lparr>health := health info'\<rparr>"
proof -
  have "timed_out currentTime info \<longleftrightarrow>
      unat currentTime - unat (lastHeartbeatReceivedTime info) > 10000"
    using assms(3-5) by (simp add: timed_out_def timeout_no_wrap)
  then show ?thesis
    using assms(2) by (auto simp: detectOfflineSensors_eq [OF assms(1)] scan_entry_def)
qed

text \<open>
  C29: the result of a scan does not depend on the order in which the hash table is visited, and
  the log has one line for exactly each sensor the scan moved from online to offline.
\<close>

theorem detectOffline_order_independent:
  assumes "iterates ids (sensors g)" "iterates ids' (sensors g)"
  shows "fst (detectOfflineSensors t ids g) = fst (detectOfflineSensors t ids' g) \<and>
    mset (snd (detectOfflineSensors t ids g)) = mset (snd (detectOfflineSensors t ids' g)) \<and>
    mset (snd (detectOfflineSensors t ids g)) =
      image_mset offline_log (mset_set {sid. \<exists>info info'. sensors g sid = Some info \<and>
        sensors (fst (detectOfflineSensors t ids g)) sid = Some info' \<and>
        health info = ONLINE \<and> health info' = OFFLINE})"
proof -
  have "{sid. \<exists>info info'. sensors g sid = Some info \<and>
        sensors (fst (detectOfflineSensors t ids g)) sid = Some info' \<and>
        health info = ONLINE \<and> health info' = OFFLINE} = {sid. newly_offline t (sensors g) sid}"
    by (auto simp: detectOfflineSensors_eq [OF assms(1)] newly_offline_def health_scan_entry
        split: option.splits if_splits)
  moreover have "mset (filter (newly_offline t (sensors g)) ks) =
      mset_set {sid. newly_offline t (sensors g) sid}" if "iterates ks (sensors g)" for ks
  proof -
    have "set (filter (newly_offline t (sensors g)) ks) = {sid. newly_offline t (sensors g) sid}"
      using iterates_set [OF that] by (auto simp: newly_offline_def split: option.splits)
    then show ?thesis
      using iterates_distinct [OF that] by (metis distinct_filter mset_set_set)
  qed
  ultimately show ?thesis
    using assms by (simp add: detectOfflineSensors_eq)
qed

theorem detectOffline_order_independent_witness:
  "fst (detectOfflineSensors 16000 [3, 7] example_gateway) =
   fst (detectOfflineSensors 16000 [7, 3] example_gateway)"
  using detectOffline_order_independent [of "[3, 7]" example_gateway "[7, 3]" 16000] by simp

text \<open>
  The elapsed time is an unsigned difference, so a clock reading behind the stored heartbeat
  wraps around: unless the two are nearly \<open>2^64\<close> ms apart, the scan marks the sensor offline
  although its heartbeat is newer than the reading.
\<close>

lemma watchdog_clock_behind_marks_offline:
  assumes "iterates ids (sensors g)" "sensors g sid = Some info"
    and "health info = ONLINE" "currentTime < lastHeartbeatReceivedTime info"
    and "unat (lastHeartbeatReceivedTime info) - unat currentTime < 2 ^ 64 - 10000"
  shows "sensors (fst (detectOfflineSensors currentTime ids g)) sid =
    Some (info\<lparr>health := OFFLINE\<rparr>)"
proof -
  have "lastHeartbeatReceivedTime info \<noteq> 0"
    using assms(4) by auto
  then have "timed_out currentTime info"
    using assms(3-5) timeout_wrap by (simp add: timed_out_def)
  then show ?thesis
    using assms(2) by (simp add: detectOfflineSensors_eq [OF assms(1)] scan_entry_def)
qed

end
