(* ===== verification/UdpReceiver.thy ===== *)
theory UdpReceiver
  imports Gateway ServiceLoop
begin

text \<open>
  \<^verbatim>\<open>src/network/UdpReceiver.cpp\<close>: the thread that takes datagrams off a non-blocking socket and
  hands them to the gateway.  The operating system and the other threads are inputs: per iteration
  the outcome of \<^verbatim>\<open>recvfrom\<close>, the clock and the calls of \<^verbatim>\<open>stop\<close>.
\<close>

section \<open>State and operations\<close>

record UdpReceiver =
  ur_port :: u16
  ur_sockfd :: int
  ur_running :: bool

definition MAX_PACKET_SIZE :: nat where
  "MAX_PACKET_SIZE = 1024"

text \<open>
  The constructor; \<open>fd\<close> and \<open>bound\<close> are the results of \<^verbatim>\<open>socket\<close> and \<^verbatim>\<open>bind\<close>.  It also
  returns the descriptors it closes and what it writes to the error stream.
\<close>

definition new_UdpReceiver :: "u16 \<Rightarrow> int \<Rightarrow> int \<Rightarrow> (UdpReceiver \<times> int list \<times> string list) result" where
  "new_UdpReceiver port fd bound =
     (if fd < 0 then Inl (runtime_error ''Failed to create UDP socket'')
      else if bound < 0
           then Inr (\<lparr>ur_port = port, ur_sockfd = - 1, ur_running = False\<rparr>, [fd], [''bind failed''])
           else Inr (\<lparr>ur_port = port, ur_sockfd = fd, ur_running = False\<rparr>, [], []))"

text \<open>
  The outcome of \<^verbatim>\<open>recvfrom\<close>: a datagram, of which the buffer receives at most its own size,
  or a negative result with \<^verbatim>\<open>errno\<close> saying whether the call would have blocked.
\<close>

datatype recv_result = Datagram bytes | WouldBlock | RecvError

record rx_state =
  rx_receiver :: UdpReceiver
  rx_gateway :: Gateway
  rx_log :: "string list"
  rx_stderr :: "string list"

definition receivePacket :: "recv_result \<Rightarrow> u64 \<Rightarrow> rx_state \<Rightarrow> unit result \<times> rx_state" where
  "receivePacket rc t s =
     (case rc of
        Datagram d \<Rightarrow>
          let buffer = take MAX_PACKET_SIZE d
          in (case handlePacket t buffer (rx_gateway s) of
                Inl e \<Rightarrow> (Inl e, s)
              | Inr (g, logs) \<Rightarrow> (Inr (), s\<lparr>rx_gateway := g, rx_log := rx_log s @ logs\<rparr>))
      | WouldBlock \<Rightarrow> (Inr (), s)
      | RecvError \<Rightarrow>
          (if \<not> ur_running (rx_receiver s) then (Inr (), s)
           else (Inr (), s\<lparr>rx_stderr := rx_stderr s @ [''recvfrom failed'']\<rparr>)))"

definition UdpReceiver_stop :: "UdpReceiver \<Rightarrow> UdpReceiver" where
  "UdpReceiver_stop ur = ur\<lparr>ur_running := False\<rparr>"

definition delete_UdpReceiver :: "UdpReceiver \<Rightarrow> UdpReceiver \<times> int list" where
  "delete_UdpReceiver ur =
     (let ur1 = UdpReceiver_stop ur
      in if ur_sockfd ur1 \<ge> 0 then (ur1\<lparr>ur_sockfd := - 1\<rparr>, [ur_sockfd ur1]) else (ur1, []))"

text \<open>
  One iteration: \<open>ri_stop_before\<close> and \<open>ri_stop_during\<close> tell whether another thread called
  \<^verbatim>\<open>stop\<close> before the loop test or during \<^verbatim>\<open>recvfrom\<close>.
\<close>

record rx_input =
  ri_stop_before :: bool
  ri_stop_during :: bool
  ri_recv :: recv_result
  ri_now :: u64

definition stop_if :: "bool \<Rightarrow> rx_state \<Rightarrow> rx_state" where
  "stop_if b s = (if b then s\<lparr>rx_receiver := UdpReceiver_stop (rx_receiver s)\<rparr> else s)"

fun receive_loop :: "rx_input list \<Rightarrow> rx_state \<Rightarrow> loop_status \<times> rx_state" where
  "receive_loop [] s = (Running, s)"
| "receive_loop (i # is) s =
     (let s0 = stop_if (ri_stop_before i) s
      in if \<not> ur_running (rx_receiver s0) then (Left, s0)
         else case receivePacket (ri_recv i) (ri_now i) (stop_if (ri_stop_during i) s0) of
                (Inl e, s1) \<Rightarrow> (Threw e, s1)
              | (Inr _, s1) \<Rightarrow> receive_loop is s1)"

definition UdpReceiver_run :: "rx_input list \<Rightarrow> rx_state \<Rightarrow> loop_status \<times> rx_state" where
  "UdpReceiver_run is s =
     (if ur_sockfd (rx_receiver s) < 0
      then (Left, s\<lparr>rx_log := rx_log s @ [''Invalid socket. Receiver not started.'']\<rparr>)
      else let s1 = s\<lparr>rx_receiver := (rx_receiver s)\<lparr>ur_running := True\<rparr>\<rparr>;
               s2 = s1\<lparr>rx_log := rx_log s1 @ [''[UDP] Receiver started'']\<rparr>
           in receive_loop is s2)"

interpretation receiver_loop: service_loop receive_loop ri_stop_before "stop_if True"
  "\<lambda>s. ur_running (rx_receiver s)"
  "\<lambda>i s. status_of (receivePacket (ri_recv i) (ri_now i) (stop_if (ri_stop_during i) s))"
  by unfold_locales (auto simp: Let_def stop_if_def UdpReceiver_stop_def split: prod.splits sum.splits)

section \<open>The contract of a packet handler\<close>

text \<open>
  What the receiver needs of \<^verbatim>\<open>Gateway::handlePacket\<close>: whether it throws depends on the packet
  alone, and a packet it accepts keeps the invariant of the registry.
\<close>

locale packet_handler =
  fixes handle :: "u64 \<Rightarrow> bytes \<Rightarrow> 'g \<Rightarrow> ('g \<times> string list) result"
    and malformed :: "bytes \<Rightarrow> bool"
    and inv :: "'g \<Rightarrow> bool"
  assumes throws_iff: "throws (handle t p g) \<longleftrightarrow> malformed p"
    and handle_inv: "inv g \<Longrightarrow> handle t p g = Inr (g', logs) \<Longrightarrow> inv g'"
begin

fun handle_all :: "(u64 \<times> bytes) list \<Rightarrow> 'g \<Rightarrow> 'g" where
  "handle_all [] g = g"
| "handle_all ((t, p) # ps) g =
     (case handle t p g of Inl _ \<Rightarrow> g | Inr (g', _) \<Rightarrow> handle_all ps g')"

lemma accepted: "\<not> malformed p \<Longrightarrow> \<exists>g' logs. handle t p g = Inr (g', logs)"
  using throws_iff [of t p g] by (cases "handle t p g") auto

lemma rejected: "malformed p \<Longrightarrow> \<exists>e. handle t p g = Inl e"
  using throws_iff [of t p g] by (cases "handle t p g") auto

lemma handle_all_inv: "inv g \<Longrightarrow> inv (handle_all ps g)"
proof (induction ps arbitrary: g)
  case (Cons a ps)
  then show ?case
    by (cases a; cases "handle (fst a) (snd a) g") (auto dest: handle_inv)
qed simp

lemma handle_all_append:
  "list_all (\<lambda>(t, p). \<not> malformed p) ps \<Longrightarrow> handle_all (ps @ qs) g = handle_all qs (handle_all ps g)"
proof (induction ps arbitrary: g)
  case (Cons a ps)
  obtain t p where a: "a = (t, p)" by (cases a)
  with Cons.prems obtain g' logs where "handle t p g = Inr (g', logs)"
    using accepted [of p t g] by auto
  with Cons a show ?case by simp
qed simp

end

definition malformed_packet :: "bytes \<Rightarrow> bool" where
  "malformed_packet p \<longleftrightarrow> length p < 13 \<or> p ! 0 = 1 \<and> length p < 23"

interpretation gateway_handler: packet_handler handlePacket malformed_packet
  "\<lambda>g. finite (dom (sensors g))"
proof
  fix t p g g' logs
  show "throws (handlePacket t p g) \<longleftrightarrow> malformed_packet p"
    by (cases rule: handlePacket_cases [of p t g]) (auto simp: malformed_packet_def)
  show "finite (dom (sensors g'))"
    if "finite (dom (sensors g))" "handlePacket t p g = Inr (g', logs)"
    using that
    by (cases rule: handlePacket_cases [of p t g])
      (auto simp: sensors_updateSensorInfo sensors_handleHeartbeat)
qed

section \<open>What a run does\<close>

text \<open>
  The iterations that take place before the loop sees the flag cleared, and the packets they pass on.
\<close>

fun live_inputs :: "rx_input list \<Rightarrow> rx_input list" where
  "live_inputs [] = []"
| "live_inputs (i # is) =
     (if ri_stop_before i then [] else if ri_stop_during i then [i] else i # live_inputs is)"

fun received :: "rx_input list \<Rightarrow> (u64 \<times> bytes) list" where
  "received [] = []"
| "received (i # is) =
     (case ri_recv i of Datagram d \<Rightarrow> [(ri_now i, take MAX_PACKET_SIZE d)] | _ \<Rightarrow> []) @ received is"

lemma receive_loop_stopped:
  "\<not> ur_running (rx_receiver s) \<Longrightarrow>
   rx_gateway (snd (receive_loop is s)) = rx_gateway s \<and>
   fst (receive_loop is s) = (if is = [] then Running else Left)"
  by (cases "is") (auto simp: stop_if_def UdpReceiver_stop_def)

lemma receivePacket_threw:
  assumes "receivePacket rc t s = (Inl e, s1)"
  shows "s1 = s \<and> (\<exists>d. rc = Datagram d \<and> malformed_packet (take MAX_PACKET_SIZE d) \<and>
    handlePacket t (take MAX_PACKET_SIZE d) (rx_gateway s) = Inl e)"
proof (cases rc)
  case (Datagram d)
  with assms gateway_handler.throws_iff [of t "take MAX_PACKET_SIZE d" "rx_gateway s"] show ?thesis
    by (cases "handlePacket t (take MAX_PACKET_SIZE d) (rx_gateway s)")
      (auto simp: receivePacket_def Let_def)
qed (use assms in \<open>auto simp: receivePacket_def split: if_splits\<close>)

lemma receivePacket_returned:
  assumes "receivePacket rc t s = (Inr u, s1)"
  shows "rx_receiver s1 = rx_receiver s \<and>
    (case rc of
       Datagram d \<Rightarrow> \<not> malformed_packet (take MAX_PACKET_SIZE d) \<and>
         (\<exists>logs. handlePacket t (take MAX_PACKET_SIZE d) (rx_gateway s) = Inr (rx_gateway s1, logs))
     | _ \<Rightarrow> rx_gateway s1 = rx_gateway s)"
proof (cases rc)
  case (Datagram d)
  with assms gateway_handler.throws_iff [of t "take MAX_PACKET_SIZE d" "rx_gateway s"] show ?thesis
    by (cases "handlePacket t (take MAX_PACKET_SIZE d) (rx_gateway s)")
      (auto simp: receivePacket_def Let_def)
qed (use assms in \<open>auto simp: receivePacket_def split: if_splits\<close>)

lemma stop_if_simps [simp]:
  "rx_gateway (stop_if b s) = rx_gateway s"
  "ur_running (rx_receiver (stop_if b s)) \<longleftrightarrow> ur_running (rx_receiver s) \<and> \<not> b"
  by (simp_all add: stop_if_def UdpReceiver_stop_def)

lemma receive_loop_gateway:
  assumes "ur_running (rx_receiver s)" "receive_loop is s = (status, s')"
  shows "rx_gateway s' = gateway_handler.handle_all (received (live_inputs is)) (rx_gateway s) \<and>
    ((\<exists>e. status = Threw e) \<longleftrightarrow> list_ex (\<lambda>(t, p). malformed_packet p) (received (live_inputs is)))"
  using assms
proof (induction "is" arbitrary: s)
  case Nil
  then show ?case by auto
next
  case (Cons i "is")
  show ?case
  proof (cases "ri_stop_before i")
    case True
    with Cons.prems show ?thesis by (auto simp: Let_def)
  next
    case False
    let ?s = "stop_if (ri_stop_during i) s"
    obtain r s1 where rp: "receivePacket (ri_recv i) (ri_now i) ?s = (r, s1)"
      by (cases "receivePacket (ri_recv i) (ri_now i) ?s")
    show ?thesis
    proof (cases r)
      case (Inl e)
      with Cons.prems False rp receivePacket_threw [of "ri_recv i" "ri_now i" ?s e s1] show ?thesis
        by (auto simp: Let_def stop_if_def)
    next
      case (Inr u)
      note ok = receivePacket_returned [OF rp [unfolded Inr]]
      have rest: "receive_loop is s1 = (status, s')"
        using Cons.prems False rp Inr by (simp add: Let_def stop_if_def)
      show ?thesis
      proof (cases "ri_stop_during i")
        case True
        with ok rest receive_loop_stopped [of s1 "is"] False show ?thesis
          by (auto split: recv_result.splits if_splits)
      next
        case nostop: False
        have "ur_running (rx_receiver s1)" using ok nostop Cons.prems by simp
        from Cons.IH [OF this rest] ok nostop False show ?thesis
          by (auto split: recv_result.splits)
      qed
    qed
  qed
qed

section \<open>Properties of the receiver\<close>

text \<open>
  C13: a run of a bound receiver passes to the gateway exactly the datagrams of the iterations before
  the stop, in order, cut to 1024 bytes, until one is malformed; it is left by an exception if and
  only if one of them is malformed, and the registry stays finite.
\<close>

theorem receiver_run_gateway:
  assumes "0 \<le> ur_sockfd (rx_receiver s)" "UdpReceiver_run is s = (status, s')"
    and "finite (dom (sensors (rx_gateway s)))"
  shows "rx_gateway s' = packet_handler.handle_all handlePacket (received (live_inputs is)) (rx_gateway s) \<and>
    ((\<exists>e. status = Threw e) \<longleftrightarrow> list_ex (\<lambda>(t, p). malformed_packet p) (received (live_inputs is))) \<and>
    finite (dom (sensors (rx_gateway s')))"
proof -
  let ?s = "s\<lparr>rx_receiver := (rx_receiver s)\<lparr>ur_running := True\<rparr>,
              rx_log := rx_log s @ [''[UDP] Receiver started'']\<rparr>"
  have "receive_loop is ?s = (status, s')"
    using assms(1,2) by (simp add: UdpReceiver_run_def Let_def)
  from receive_loop_gateway [OF _ this] assms(3) gateway_handler.handle_all_inv show ?thesis by simp
qed

definition example_rx :: rx_state where
  "example_rx = \<lparr>rx_receiver = \<lparr>ur_port = 9000, ur_sockfd = 4, ur_running = False\<rparr>,
     rx_gateway = init_Gateway, rx_log = [], rx_stderr = []\<rparr>"

definition example_rx_inputs :: "rx_input list" where
  "example_rx_inputs =
     [\<lparr>ri_stop_before = False, ri_stop_during = False,
       ri_recv = Datagram (serialize_heartbeat example_heartbeat), ri_now = 50\<rparr>,
      \<lparr>ri_stop_before = False, ri_stop_during = False, ri_recv = WouldBlock, ri_now = 51\<rparr>]"

theorem receiver_run_gateway_witness:
  "rx_gateway (snd (UdpReceiver_run example_rx_inputs example_rx)) =
   packet_handler.handle_all handlePacket (received (live_inputs example_rx_inputs)) init_Gateway"
  using receiver_run_gateway [of example_rx example_rx_inputs
      "fst (UdpReceiver_run example_rx_inputs example_rx)" "snd (UdpReceiver_run example_rx_inputs example_rx)"]
  by (simp add: example_rx_def init_Gateway_def)

text \<open>
  Any datagram below the header size, an empty one included, ends the receiver: the exception of
  the deserializer passes through receivePacket and run, no later datagram is handled, and the gateway
  is as it was.
\<close>

lemma short_datagram_ends_receiver:
  assumes "0 \<le> ur_sockfd (rx_receiver s)" "length d < 13"
    and "ri_recv i = Datagram d" "\<not> ri_stop_before i"
  shows "\<exists>s'. UdpReceiver_run (i # is) s = (Threw underflow_error, s') \<and> rx_gateway s' = rx_gateway s"
proof -
  have "handlePacket t d g = Inl underflow_error" for t g
    using assms(2) by (simp add: handlePacket_def peekMessageType_short)
  moreover have "take MAX_PACKET_SIZE d = d"
    using assms(2) by (simp add: MAX_PACKET_SIZE_def)
  ultimately show ?thesis
    using assms by (simp add: UdpReceiver_run_def Let_def receivePacket_def)
qed

text \<open>
  The socket of a receiver is closed exactly once over its life, by the constructor when bind
  fails and by the destructor otherwise, whatever run did in between; after a failed bind run refuses
  to start and touches nothing but the log.
\<close>

lemma receiver_socket_lifecycle:
  assumes "new_UdpReceiver port fd bound = Inr (ur, closed, err)"
  shows "closed @ snd (delete_UdpReceiver (ur\<lparr>ur_running := b\<rparr>)) = [fd] \<and>
    (bound < 0 \<longrightarrow> err = [''bind failed''] \<and>
       UdpReceiver_run is \<lparr>rx_receiver = ur, rx_gateway = g, rx_log = l, rx_stderr = err\<rparr> =
         (Left, \<lparr>rx_receiver = ur, rx_gateway = g,
                 rx_log = l @ [''Invalid socket. Receiver not started.''], rx_stderr = err\<rparr>))"
  using assms
  by (auto simp: new_UdpReceiver_def delete_UdpReceiver_def UdpReceiver_stop_def UdpReceiver_run_def
      Let_def split: if_splits)

end
