(* ===== verification/Watchdog.thy ===== *)
theory Watchdog
  imports Gateway
begin

text \<open>
  The gateway under concurrency: the UDP receiver thread calling \<^verbatim>\<open>handlePacket\<close> and the
  watchdog thread of \<^verbatim>\<open>main.cpp\<close> calling \<^verbatim>\<open>detectOfflineSensors\<close>.  A critical
  section under the gateway's mutex is one step.  \<^verbatim>\<open>detectOfflineSensors\<close> is two steps,
  because its first statement reads the clock before the mutex is taken: packets may be handled
  between the two.  The clock is taken to be monotone, which favours the code: the system clock it
  really reads may also be set back.
\<close>

section \<open>The step relation\<close>

record wd_state =
  gw :: Gateway
  clock :: u64
  reading :: "u64 option"

definition init_wd :: "u64 \<Rightarrow> wd_state" where
  "init_wd c = \<lparr>gw = init_Gateway, clock = c, reading = None\<rparr>"

inductive wd_step :: "wd_state \<Rightarrow> wd_state \<Rightarrow> bool" where
  time_passes: "clock s \<le> c \<Longrightarrow> wd_step s (s\<lparr>clock := c\<rparr>)"
| packet: "handlePacket (clock s) p (gw s) = Inr (g', logs) \<Longrightarrow> wd_step s (s\<lparr>gw := g'\<rparr>)"
| read_clock: "reading s = None \<Longrightarrow> wd_step s (s\<lparr>reading := Some (clock s)\<rparr>)"
| locked_scan: "reading s = Some t \<Longrightarrow> iterates ids (sensors (gw s)) \<Longrightarrow>
    wd_step s (s\<lparr>gw := fst (detectOfflineSensors t ids (gw s)), reading := None\<rparr>)"

inductive wd_reachable :: "u64 \<Rightarrow> wd_state \<Rightarrow> bool" for c0 where
  start: "wd_reachable c0 (init_wd c0)"
| step: "wd_reachable c0 s \<Longrightarrow> wd_step s s' \<Longrightarrow> wd_reachable c0 s'"

inductive_cases wd_stepE: "wd_step s s'"

section \<open>Invariant\<close>

definition entry_inv :: "u64 \<Rightarrow> u32 \<Rightarrow> SensorInfo \<Rightarrow> bool" where
  "entry_inv c sid info \<longleftrightarrow>
     lastHeartbeatReceivedTime info \<le> c \<and> lastTelemetryReceivedTime info \<le> c \<and>
     TelemetryMessage_ok (lastTelemetry info) \<and>
     (lastTelemetry info = zero_TelemetryMessage \<or>
      ph_sensorId (tm_header (lastTelemetry info)) = sid \<and>
      ph_type (tm_header (lastTelemetry info)) = TELEMETRY) \<and>
     (health info = UNKNOWN \<longrightarrow> lastHeartbeatReceivedTime info = 0)"

definition wd_inv :: "wd_state \<Rightarrow> bool" where
  "wd_inv s \<longleftrightarrow>
     finite (dom (sensors (gw s))) \<and>
     (\<forall>sid info. sensors (gw s) sid = Some info \<longrightarrow> entry_inv (clock s) sid info) \<and>
     (\<forall>t. reading s = Some t \<longrightarrow> t \<le> clock s)"

lemma entry_inv_default [simp]: "entry_inv c sid default_SensorInfo"
  by (simp add: entry_inv_def default_SensorInfo_def)

lemma entry_inv_mono: "entry_inv c sid info \<Longrightarrow> c \<le> c' \<Longrightarrow> entry_inv c' sid info"
  by (auto simp: entry_inv_def)

lemma entry_inv_slot: "wd_inv s \<Longrightarrow> entry_inv (clock s) sid (slot (sensors (gw s)) sid)"
  by (cases "sensors (gw s) sid") (auto simp: wd_inv_def)

lemma entry_inv_scan: "entry_inv c sid info \<Longrightarrow> entry_inv c sid (scan_entry t info)"
  by (auto simp: entry_inv_def health_scan_entry split: if_splits)

lemma entry_inv_telemetry:
  "entry_inv c sid info \<Longrightarrow> TelemetryMessage_ok m \<Longrightarrow> ph_type (tm_header m) = TELEMETRY \<Longrightarrow>
   ph_sensorId (tm_header m) = sid \<Longrightarrow>
   entry_inv c sid (info\<lparr>lastTelemetry := m, lastTelemetryReceivedTime := c\<rparr>)"
  by (auto simp: entry_inv_def)

lemma entry_inv_heartbeat:
  "entry_inv c sid info \<Longrightarrow>
   entry_inv c sid (info\<lparr>lastHeartbeatReceivedTime := c, health := ONLINE\<rparr>)"
  by (auto simp: entry_inv_def)

lemma wd_inv_packet:
  assumes inv: "wd_inv s" and ok: "handlePacket (clock s) p (gw s) = Inr (g', logs)"
  shows "wd_inv (s\<lparr>gw := g'\<rparr>)"
proof (cases rule: handlePacket_cases [of p "clock s" "gw s"])
  case (telemetry m)
  then have "g' = updateSensorInfo (clock s) m (gw s)"
    using ok by simp
  with telemetry inv entry_inv_slot [OF inv, of "ph_sensorId (tm_header m)"] show ?thesis
    by (auto simp: wd_inv_def sensors_updateSensorInfo entry_inv_telemetry split: if_splits)
next
  case (heartbeat h)
  then have "g' = handleHeartbeat (clock s) h (gw s)"
    using ok by simp
  with inv entry_inv_slot [OF inv, of "ph_sensorId (hb_header h)"] show ?thesis
    by (auto simp: wd_inv_def sensors_handleHeartbeat entry_inv_heartbeat split: if_splits)
next
  case unknown
  with ok inv show ?thesis by (auto simp: wd_inv_def)
qed (use ok in simp_all)

lemma wd_inv_scan:
  assumes "wd_inv s" and "iterates ids (sensors (gw s))"
  shows "wd_inv (s\<lparr>gw := fst (detectOfflineSensors t ids (gw s)), reading := None\<rparr>)"
proof -
  have "dom (map_option (scan_entry t) \<circ> sensors (gw s)) = dom (sensors (gw s))"
    by (auto simp: dom_def)
  with assms show ?thesis
    by (auto simp: wd_inv_def detectOfflineSensors_eq intro: entry_inv_scan)
qed

lemma wd_step_inv: "wd_step s s' \<Longrightarrow> wd_inv s \<Longrightarrow> wd_inv s'"
proof (induction rule: wd_step.induct)
  case (time_passes s c)
  then show ?case by (auto simp: wd_inv_def intro: entry_inv_mono order_trans)
next
  case (packet s p g' logs)
  then show ?case by (blast intro: wd_inv_packet)
next
  case (read_clock s)
  then show ?case by (auto simp: wd_inv_def)
next
  case (locked_scan s t ids)
  then show ?case by (blast intro: wd_inv_scan)
qed

lemma wd_inv_init: "wd_inv (init_wd c)"
  by (simp add: wd_inv_def init_wd_def init_Gateway_def)

lemma wd_reachable_inv: "wd_reachable c0 s \<Longrightarrow> wd_inv s"
  by (induction rule: wd_reachable.induct) (auto intro: wd_inv_init wd_step_inv)

section \<open>Properties\<close>

text \<open>A reachable state with a sensor: one heartbeat handled at clock 1000.\<close>

definition one_sensor :: wd_state where
  "one_sensor = (init_wd 1000)\<lparr>gw := handleHeartbeat 1000 example_heartbeat init_Gateway\<rparr>"

lemma one_sensor_reachable: "wd_reachable 1000 one_sensor"
proof -
  have "handlePacket 1000 (serialize_heartbeat example_heartbeat) init_Gateway =
      Inr (handleHeartbeat 1000 example_heartbeat init_Gateway, [])"
    by (rule handlePacket_serialized) (simp, simp add: example_heartbeat_def)
  then have "wd_step (init_wd 1000) one_sensor"
    unfolding one_sensor_def
    by (intro wd_step.packet [of _ "serialize_heartbeat example_heartbeat"])
      (simp add: init_wd_def)
  then show ?thesis by (rule wd_reachable.step [OF wd_reachable.start])
qed

lemma one_sensor_entry:
  "sensors (gw one_sensor) 42 =
     Some (default_SensorInfo\<lparr>lastHeartbeatReceivedTime := 1000, health := ONLINE\<rparr>)"
  by (simp add: one_sensor_def sensors_handleHeartbeat example_heartbeat_def init_Gateway_def)

text \<open>
  C8: in every reachable state of receiver and watchdog the registry is finite and well formed:
  no stored receive time is ahead of the clock, the telemetry of an entry is either absent (all
  zero) or a telemetry message of that very sensor with valid fields, and a sensor of unknown
  health has no heartbeat time.
\<close>

theorem gateway_reachable_invariant:
  assumes "wd_reachable c0 s"
  shows "wd_inv s"
  using assms by (rule wd_reachable_inv)

theorem gateway_reachable_invariant_witness: "wd_inv one_sensor"
  using gateway_reachable_invariant [OF one_sensor_reachable] .

text \<open>
  In every reachable state \<^verbatim>\<open>getSecondsSinceLastHeartbeat\<close> returns the whole seconds
  since the last heartbeat, without wrap-around, because it reads the clock under the lock.
\<close>

lemma seconds_since_heartbeat:
  assumes "wd_reachable c0 s" "sensors (gw s) sid = Some info"
    and "lastHeartbeatReceivedTime info \<noteq> 0"
  shows "unat (getSecondsSinceLastHeartbeat (clock s) sid (gw s)) =
    (unat (clock s) - unat (lastHeartbeatReceivedTime info)) div 1000"
proof -
  have "lastHeartbeatReceivedTime info \<le> clock s"
    using wd_reachable_inv [OF assms(1)] assms(2) by (auto simp: wd_inv_def entry_inv_def)
  then show ?thesis
    using assms by (simp add: getSecondsSinceLastHeartbeat_def unat_div_distrib unat_sub)
qed

text \<open>
  C28: a live sensor can be declared offline: because the watchdog reads the clock before it takes
  the lock, there is a run, with a monotone clock, in which a heartbeat handled in between makes the
  unsigned difference wrap around, and the sensor whose heartbeat was received at the current clock
  value is offline.
\<close>

theorem live_sensor_marked_offline:
  "\<exists>s info. wd_reachable 1000 s \<and> sensors (gw s) 42 = Some info \<and>
     lastHeartbeatReceivedTime info = clock s \<and> health info = OFFLINE"
proof -
  let ?g = "handleHeartbeat 1001 example_heartbeat init_Gateway"
  let ?s1 = "(init_wd 1000)\<lparr>reading := Some 1000\<rparr>"
  let ?s2 = "?s1\<lparr>clock := 1001\<rparr>"
  let ?s3 = "?s2\<lparr>gw := ?g\<rparr>"
  let ?s4 = "?s3\<lparr>gw := fst (detectOfflineSensors 1000 [42] ?g), reading := None\<rparr>"
  have entry: "sensors ?g = [42 \<mapsto>
      default_SensorInfo\<lparr>lastHeartbeatReceivedTime := 1001, health := ONLINE\<rparr>]"
    by (simp add: sensors_handleHeartbeat example_heartbeat_def init_Gateway_def)
  then have iter: "iterates [42] (sensors ?g)" by (simp add: iterates_def)
  have s1: "wd_step (init_wd 1000) ?s1"
    using wd_step.read_clock [of "init_wd 1000"] by (simp add: init_wd_def)
  have s2: "wd_step ?s1 ?s2"
    by (rule wd_step.time_passes) (simp add: init_wd_def)
  have s3: "wd_step ?s2 ?s3"
    by (rule wd_step.packet [of _ "serialize_heartbeat example_heartbeat" _ "[]"])
      (simp add: init_wd_def example_heartbeat_def handlePacket_serialized(2)
        HeartbeatMessage_ok_def PacketHeader_ok_def)
  have s4: "wd_step ?s3 ?s4"
    using wd_step.locked_scan [of ?s3 1000 "[42]"] iter by simp
  from wd_reachable.start s1 have "wd_reachable 1000 ?s1" by (rule wd_reachable.step)
  then have "wd_reachable 1000 ?s2" using s2 by (rule wd_reachable.step)
  then have "wd_reachable 1000 ?s3" using s3 by (rule wd_reachable.step)
  then have "wd_reachable 1000 ?s4" using s4 by (rule wd_reachable.step)
  moreover have "sensors (gw ?s4) 42 = Some (default_SensorInfo
      \<lparr>lastHeartbeatReceivedTime := 1001, health := OFFLINE\<rparr>)"
    by (simp add: detectOfflineSensors_eq [OF iter] entry scan_entry_def timed_out_def
        SENSOR_HEARTBEAT_TIMEOUT_MS_def)
  ultimately show ?thesis
    by (intro exI [of _ ?s4] exI [of _ "default_SensorInfo
      \<lparr>lastHeartbeatReceivedTime := 1001, health := OFFLINE\<rparr>"] conjI) simp_all
qed

end
