(* ===== verification/SensorNetwork.thy ===== *)
theory SensorNetwork
  imports SensorNode UdpReceiver Watchdog
begin

text \<open>
  The program of \<^verbatim>\<open>src/main.cpp\<close>: seven sensors with their nodes, the telemetry and heartbeat
  threads that drive them, and the whole system as a step relation in which node actions, the
  network, the receiver, the watchdog and the clock interleave.  The network delivers any datagram
  that was sent, any number of times, in any order, or never, as UDP may.
\<close>

section \<open>The nodes of the program\<close>

definition system_sensors :: "AnySensor list" where
  "system_sensors =
     [IsMotion (new_MotionSensor 1), IsMotion (new_MotionSensor 2),
      IsTemperature (new_TemperatureSensor 3), IsTemperature (new_TemperatureSensor 4),
      IsBattery (new_BatterySensor 5),
      IsPressure (new_PressureSensor 6), IsPressure (new_PressureSensor 7)]"

definition system_nodes :: "SensorNode list" where
  "system_nodes =
     map (\<lambda>s. new_SensorNode s default_telemetryInterval default_heartbeatInterval) system_sensors"

text \<open>
  The sender of each node; \<open>fd\<close> is its socket.
\<close>

definition system_sender :: "int \<Rightarrow> UdpSender" where
  "system_sender fd = \<lparr>us_gatewayIp = ''127.0.0.1'', us_gatewayPort = 9000, us_sockfd = fd\<rparr>"

section \<open>The threads that drive the nodes\<close>

text \<open>
  One pass of the telemetry thread: the nodes tick one after the other, and an exception ends the
  pass.  Each node comes with its sender, the value its sensor draws and the clock reading.
\<close>

fun telemetry_round ::
  "('n send \<times> double \<times> u64 \<times> SensorNode) list \<Rightarrow> 'n \<Rightarrow> unit result \<times> SensorNode list \<times> 'n" where
  "telemetry_round [] net = (Inr (), [], net)"
| "telemetry_round ((send, draw, t, nd) # rest) net =
     (let (r, nd', net') = tick send draw t nd net
      in case r of
           Inl e \<Rightarrow> (Inl e, nd' # map (\<lambda>(_, _, _, nd). nd) rest, net')
         | Inr _ \<Rightarrow> (let (r', nds, net2) = telemetry_round rest net' in (r', nd' # nds, net2)))"

text \<open>
  One pass over the nodes that sends heartbeats: each node comes with its sender, the clock reading
  and whether it takes part.  At the start all take part; in the heartbeat thread nodes 3 and 7 do
  only while their flags are set.
\<close>

fun heartbeat_round :: "('n send \<times> u64 \<times> bool \<times> SensorNode) list \<Rightarrow> 'n \<Rightarrow> unit result \<times> 'n" where
  "heartbeat_round [] net = (Inr (), net)"
| "heartbeat_round ((send, t, enabled, nd) # rest) net =
     (if enabled
      then let (r, net') = sendHeartbeat send t nd net
           in case r of Inl e \<Rightarrow> (Inl e, net') | Inr _ \<Rightarrow> heartbeat_round rest net'
      else heartbeat_round rest net)"

definition initial_participants :: "bool list" where
  "initial_participants = replicate 7 True"

definition heartbeat_participants :: "bool \<Rightarrow> bool \<Rightarrow> bool list" where
  "heartbeat_participants sensor3Enabled sensor7Enabled =
     [True, True, sensor3Enabled, True, True, True, sensor7Enabled]"

lemma telemetry_round_sent:
  assumes "\<forall>(send, x)\<in>set jobs. iudp_sender send sent"
    and "telemetry_round jobs net = (Inr u, nds, net')"
  shows "\<exists>ms. sent net' = sent net @ map serialize_telemetry ms \<and> list_all TelemetryMessage_ok ms \<and>
    map (\<lambda>m. (ph_type (tm_header m), ph_sensorId (tm_header m), tm_type m)) ms =
      map (\<lambda>(_, _, _, nd). (TELEMETRY, any_getId (nd_sensor nd), getType (nd_sensor nd))) jobs"
  using assms
proof (induction jobs arbitrary: net nds)
  case Nil
  then show ?case by simp
next
  case (Cons job rest)
  obtain send draw t nd where job: "job = (send, draw, t, nd)" by (cases job) auto
  have snd: "iudp_sender send sent" using Cons.prems(1) job by simp
  obtain r nd' net1 where tk: "tick send draw t nd net = (r, nd', net1)"
    by (cases "tick send draw t nd net") auto
  then obtain m where r: "r = Inr m"
    using Cons.prems(2) job by (auto split: sum.splits)
  note m = iudp_sender.tick_sent [OF snd tk]
  obtain nds1 where rest: "telemetry_round rest net1 = (Inr u, nds1, net')"
    using Cons.prems(2) job tk r by (auto split: prod.splits)
  have "\<forall>(send, x)\<in>set rest. iudp_sender send sent" using Cons.prems(1) by simp
  from Cons.IH [OF this rest] obtain ms where
    "sent net' = sent net1 @ map serialize_telemetry ms" "list_all TelemetryMessage_ok ms"
    "map (\<lambda>m. (ph_type (tm_header m), ph_sensorId (tm_header m), tm_type m)) ms =
      map (\<lambda>(_, _, _, nd). (TELEMETRY, any_getId (nd_sensor nd), getType (nd_sensor nd))) rest"
    by blast
  with m r show ?case
    by (intro exI [of _ "reading_of draw t (nd_sensor nd) # ms"])
      (simp add: job reading_of_ok reading_of_header reading_of_fields)
qed

lemma heartbeat_round_sent:
  assumes "\<forall>(send, x)\<in>set jobs. iudp_sender send sent"
    and "heartbeat_round jobs net = (Inr u, net')"
  shows "\<exists>hs. sent net' = sent net @ map serialize_heartbeat hs \<and> list_all HeartbeatMessage_ok hs \<and>
    map (\<lambda>h. (ph_type (hb_header h), ph_sensorId (hb_header h))) hs =
      map (\<lambda>(_, _, _, nd). (HEARTBEAT, any_getId (nd_sensor nd))) (filter (\<lambda>(_, _, en, _). en) jobs)"
  using assms
proof (induction jobs arbitrary: net)
  case Nil
  then show ?case by simp
next
  case (Cons job rest)
  obtain send t en nd where job: "job = (send, t, en, nd)" by (cases job) auto
  have snd: "iudp_sender send sent" using Cons.prems(1) job by simp
  show ?case
  proof (cases en)
    case False
    with Cons job show ?thesis by simp
  next
    case True
    obtain r net1 where hb: "sendHeartbeat send t nd net = (r, net1)"
      by (cases "sendHeartbeat send t nd net") auto
    then obtain v where r: "r = Inr v"
      using Cons.prems(2) job True by (auto split: sum.splits)
    have rest: "heartbeat_round rest net1 = (Inr u, net')"
      using Cons.prems(2) job hb r True by simp
    have "\<forall>(send, x)\<in>set rest. iudp_sender send sent" using Cons.prems(1) by simp
    from Cons.IH [OF this rest] obtain hs where
      "sent net' = sent net1 @ map serialize_heartbeat hs" "list_all HeartbeatMessage_ok hs"
      "map (\<lambda>h. (ph_type (hb_header h), ph_sensorId (hb_header h))) hs =
        map (\<lambda>(_, _, _, nd). (HEARTBEAT, any_getId (nd_sensor nd))) (filter (\<lambda>(_, _, en, _). en) rest)"
      by blast
    with iudp_sender.heartbeat_sent [OF snd hb] r True show ?thesis
      by (intro exI [of _ "beat_of t (nd_sensor nd) # hs"])
        (simp add: job beat_of_ok, simp add: beat_of_def)
  qed
qed

section \<open>The system\<close>

record 'n sys =
  sy_nodes :: "SensorNode list"
  sy_net :: 'n
  sy_wd :: wd_state

definition init_sys :: "'n \<Rightarrow> u64 \<Rightarrow> 'n sys" where
  "init_sys net c = \<lparr>sy_nodes = system_nodes, sy_net = net, sy_wd = init_wd c\<rparr>"

text \<open>
  One step: a node ticks or sends a heartbeat through its own socket \<open>fds k\<close>, the receiver handles
  a datagram addressed to its port, the clock advances, or the watchdog reads the clock or scans.  A
  call that throws ends the program and has no step.
\<close>

inductive sys_step ::
  "(string \<Rightarrow> u32 option) \<Rightarrow> 'n sendto \<Rightarrow> ('n \<Rightarrow> (dest \<times> bytes) list) \<Rightarrow> (nat \<Rightarrow> int) \<Rightarrow>
   'n sys \<Rightarrow> 'n sys \<Rightarrow> bool"
  for inet_pton sendto wire fds where
  node_tick: "k < length (sy_nodes s) \<Longrightarrow>
    tick (UdpSender_send inet_pton sendto (system_sender (fds k))) draw (clock (sy_wd s))
      (sy_nodes s ! k) (sy_net s) = (Inr m, nd, net) \<Longrightarrow>
    sys_step inet_pton sendto wire fds s (s\<lparr>sy_nodes := (sy_nodes s)[k := nd], sy_net := net\<rparr>)"
| node_heartbeat: "k < length (sy_nodes s) \<Longrightarrow>
    sendHeartbeat (UdpSender_send inet_pton sendto (system_sender (fds k))) (clock (sy_wd s))
      (sy_nodes s ! k) (sy_net s) = (Inr u, net) \<Longrightarrow>
    sys_step inet_pton sendto wire fds s (s\<lparr>sy_net := net\<rparr>)"
| deliver: "((a, 9000), p) \<in> set (wire (sy_net s)) \<Longrightarrow>
    handlePacket (clock (sy_wd s)) (take MAX_PACKET_SIZE p) (gw (sy_wd s)) = Inr (g, logs) \<Longrightarrow>
    sys_step inet_pton sendto wire fds s (s\<lparr>sy_wd := (sy_wd s)\<lparr>gw := g\<rparr>\<rparr>)"
| time_advances: "clock (sy_wd s) \<le> c \<Longrightarrow>
    sys_step inet_pton sendto wire fds s (s\<lparr>sy_wd := (sy_wd s)\<lparr>clock := c\<rparr>\<rparr>)"
| watchdog_reads: "reading (sy_wd s) = None \<Longrightarrow>
    sys_step inet_pton sendto wire fds s (s\<lparr>sy_wd := (sy_wd s)\<lparr>reading := Some (clock (sy_wd s))\<rparr>\<rparr>)"
| watchdog_scans: "reading (sy_wd s) = Some t \<Longrightarrow> iterates ids (sensors (gw (sy_wd s))) \<Longrightarrow>
    sys_step inet_pton sendto wire fds s
      (s\<lparr>sy_wd := (sy_wd s)\<lparr>gw := fst (detectOfflineSensors t ids (gw (sy_wd s))), reading := None\<rparr>\<rparr>)"

inductive sys_reachable ::
  "(string \<Rightarrow> u32 option) \<Rightarrow> 'n sendto \<Rightarrow> ('n \<Rightarrow> (dest \<times> bytes) list) \<Rightarrow> (nat \<Rightarrow> int) \<Rightarrow> 'n sys \<Rightarrow> bool"
  for inet_pton sendto wire fds where
  boot: "wire net = [] \<Longrightarrow> sys_reachable inet_pton sendto wire fds (init_sys net c)"
| move: "sys_reachable inet_pton sendto wire fds s \<Longrightarrow> sys_step inet_pton sendto wire fds s s' \<Longrightarrow>
    sys_reachable inet_pton sendto wire fds s'"

section \<open>Where the contents of the registry come from\<close>

text \<open>
  The identifiers and classes of the seven sensors.
\<close>

definition roster :: "(u32 \<times> SensorType) list" where
  "roster = [(1, Motion), (2, Motion), (3, Temperature), (4, Temperature), (5, Battery),
             (6, Pressure), (7, Pressure)]"

definition node_entry :: "SensorNode \<Rightarrow> u32 \<times> SensorType" where
  "node_entry nd = (any_getId (nd_sensor nd), getType (nd_sensor nd))"

definition roster_packet :: "bytes \<Rightarrow> bool" where
  "roster_packet p \<longleftrightarrow>
     (\<exists>m. p = serialize_telemetry m \<and> TelemetryMessage_ok m \<and> ph_type (tm_header m) = TELEMETRY \<and>
        (ph_sensorId (tm_header m), tm_type m) \<in> set roster) \<or>
     (\<exists>h. p = serialize_heartbeat h \<and> HeartbeatMessage_ok h \<and> ph_type (hb_header h) = HEARTBEAT \<and>
        ph_sensorId (hb_header h) \<in> fst ` set roster)"

definition entry_from :: "(dest \<times> bytes) list \<Rightarrow> u32 \<Rightarrow> SensorInfo \<Rightarrow> bool" where
  "entry_from w sid info \<longleftrightarrow>
     sid \<in> fst ` set roster \<and>
     (lastTelemetry info = zero_TelemetryMessage \<or>
      (sid, tm_type (lastTelemetry info)) \<in> set roster \<and>
      (\<exists>d. (d, serialize_telemetry (lastTelemetry info)) \<in> set w))"

definition sys_inv :: "('n \<Rightarrow> (dest \<times> bytes) list) \<Rightarrow> 'n sys \<Rightarrow> bool" where
  "sys_inv wire s \<longleftrightarrow>
     map node_entry (sy_nodes s) = roster \<and>
     (\<forall>(d, p)\<in>set (wire (sy_net s)). roster_packet p) \<and>
     (\<forall>sid info. sensors (gw (sy_wd s)) sid = Some info \<longrightarrow> entry_from (wire (sy_net s)) sid info)"

lemma map_node_entry_system: "map node_entry system_nodes = roster"
  by (simp add: system_nodes_def system_sensors_def roster_def node_entry_def new_SensorNode_def
      any_getId_def getId_def truncate_eq new_MotionSensor_def new_TemperatureSensor_def
      new_BatterySensor_def new_PressureSensor_def)

lemma length_system_nodes: "length system_nodes = 7"
  by (simp add: system_nodes_def system_sensors_def)

lemma tick_entry:
  assumes "tick send draw t nd net = (r, nd', net')"
  shows "node_entry nd' = node_entry nd"
proof -
  have "getType (nd_sensor nd') = getType (nd_sensor nd)"
    using assms by (auto simp: tick_eq Let_def any_class.create_class any_class.collect_class split: prod.splits)
  with tick_id [OF assms] show ?thesis by (simp add: node_entry_def)
qed

lemma roster_packet_reading:
  "node_entry nd \<in> set roster \<Longrightarrow> roster_packet (serialize_telemetry (reading_of draw t (nd_sensor nd)))"
  unfolding roster_packet_def
  by (intro disjI1 exI [of _ "reading_of draw t (nd_sensor nd)"])
    (simp add: reading_of_ok reading_of_header reading_of_fields node_entry_def)

lemma roster_packet_beat:
  assumes "node_entry nd \<in> set roster"
  shows "roster_packet (serialize_heartbeat (beat_of t (nd_sensor nd)))"
proof -
  have "any_getId (nd_sensor nd) \<in> fst ` set roster"
    using imageI [OF assms, of fst] by (simp add: node_entry_def)
  moreover have "hb_header (beat_of t (nd_sensor nd)) =
      \<lparr>ph_type = HEARTBEAT, ph_sensorId = any_getId (nd_sensor nd), ph_timestamp_ms = t\<rparr>"
    by (simp add: beat_of_def)
  ultimately show ?thesis
    unfolding roster_packet_def
    by (intro disjI2 exI [of _ "beat_of t (nd_sensor nd)"]) (simp add: beat_of_ok)
qed

lemma roster_packet_take: "roster_packet p \<Longrightarrow> take MAX_PACKET_SIZE p = p"
  by (auto simp: roster_packet_def MAX_PACKET_SIZE_def c_telemetry.enc_length serialize_heartbeat_def
      c_header.enc_length)

lemma roster_packet_handled:
  assumes "roster_packet p"
  shows "(\<exists>m. p = serialize_telemetry m \<and> (ph_sensorId (tm_header m), tm_type m) \<in> set roster \<and>
            handlePacket t p g = Inr (updateSensorInfo t m g, [])) \<or>
         (\<exists>h. ph_sensorId (hb_header h) \<in> fst ` set roster \<and> handlePacket t p g = Inr (handleHeartbeat t h g, []))"
  using assms unfolding roster_packet_def by (metis handlePacket_serialized)

lemma roster_packet_wellformed: "roster_packet p \<Longrightarrow> \<not> malformed_packet (take MAX_PACKET_SIZE p)"
  using roster_packet_handled [of p 0 init_Gateway] gateway_handler.throws_iff [of 0 p init_Gateway]
  by (auto simp: roster_packet_take)

lemma entry_from_mono: "entry_from w sid info \<Longrightarrow> entry_from (w @ w') sid info"
  by (auto simp: entry_from_def)

lemma entry_from_slot:
  "sid \<in> fst ` set roster \<Longrightarrow> (\<And>info. reg sid = Some info \<Longrightarrow> entry_from w sid info) \<Longrightarrow>
   entry_from w sid (slot reg sid)"
  by (cases "reg sid") (simp_all add: entry_from_def default_SensorInfo_def)

lemma entry_from_telemetry:
  "(sid, tm_type m) \<in> set roster \<Longrightarrow> (d, serialize_telemetry m) \<in> set w \<Longrightarrow>
   entry_from w sid (info\<lparr>lastTelemetry := m, lastTelemetryReceivedTime := t\<rparr>)"
  using imageI [of "(sid, tm_type m)" "set roster" fst] by (cases d) (auto simp: entry_from_def)

lemma entry_from_scan: "entry_from w sid (scan_entry t info) = entry_from w sid info"
  by (simp add: entry_from_def)

lemma entry_from_heartbeat:
  "entry_from w sid (info\<lparr>lastHeartbeatReceivedTime := t, health := h\<rparr>) = entry_from w sid info"
  by (simp add: entry_from_def)

lemma sys_inv_send:
  assumes "sys_inv wire s" "wire net = wire (sy_net s) @ [(d, p)]" "roster_packet p"
    and "map node_entry nds = roster"
  shows "sys_inv wire (s\<lparr>sy_nodes := nds, sy_net := net\<rparr>)"
  using assms by (auto simp: sys_inv_def intro: entry_from_mono)

lemma sys_inv_deliver:
  assumes inv: "sys_inv wire s" and p: "((a, 9000), p) \<in> set (wire (sy_net s))"
    and h: "handlePacket t (take MAX_PACKET_SIZE p) (gw (sy_wd s)) = Inr (g, logs)"
  shows "sys_inv wire (s\<lparr>sy_wd := (sy_wd s)\<lparr>gw := g\<rparr>\<rparr>)"
proof -
  let ?reg = "sensors (gw (sy_wd s))" and ?w = "wire (sy_net s)"
  have old: "entry_from ?w sid info" if "?reg sid = Some info" for sid info
    using inv that by (simp add: sys_inv_def)
  have rp: "roster_packet p" using inv p by (auto simp: sys_inv_def)
  have "entry_from ?w sid info" if new: "sensors g sid = Some info" for sid info
    using roster_packet_handled [OF rp, of t "gw (sy_wd s)"]
  proof (elim disjE exE conjE)
    fix m
    assume m: "p = serialize_telemetry m" "(ph_sensorId (tm_header m), tm_type m) \<in> set roster"
      and "handlePacket t p (gw (sy_wd s)) = Inr (updateSensorInfo t m (gw (sy_wd s)), [])"
    then have "g = updateSensorInfo t m (gw (sy_wd s))"
      using h rp by (simp add: roster_packet_take)
    then show ?thesis
      using new old m p by (auto simp: sensors_updateSensorInfo split: if_splits intro: entry_from_telemetry)
  next
    fix b
    assume b: "ph_sensorId (hb_header b) \<in> fst ` set roster"
      and "handlePacket t p (gw (sy_wd s)) = Inr (handleHeartbeat t b (gw (sy_wd s)), [])"
    then have "g = handleHeartbeat t b (gw (sy_wd s))"
      using h rp by (simp add: roster_packet_take)
    moreover have "entry_from ?w (ph_sensorId (hb_header b)) (slot ?reg (ph_sensorId (hb_header b)))"
      using b old by (rule entry_from_slot)
    ultimately show ?thesis
      using new old by (auto simp: sensors_handleHeartbeat entry_from_heartbeat split: if_splits)
  qed
  with inv show ?thesis by (simp add: sys_inv_def)
qed

lemma sys_inv_scan:
  assumes "sys_inv wire s" "iterates ids (sensors (gw (sy_wd s)))"
  shows "sys_inv wire (s\<lparr>sy_wd := (sy_wd s)\<lparr>gw := fst (detectOfflineSensors t ids (gw (sy_wd s))), reading := None\<rparr>\<rparr>)"
  using assms by (auto simp: sys_inv_def detectOfflineSensors_eq entry_from_scan)

lemma node_in_roster: "sys_inv wire s \<Longrightarrow> k < length (sy_nodes s) \<Longrightarrow> node_entry (sy_nodes s ! k) \<in> set roster"
  by (metis length_map nth_map nth_mem sys_inv_def)

lemma sys_step_inv:
  assumes os: "os_sendto sendto wire"
  shows "sys_step inet_pton sendto wire fds s s' \<Longrightarrow> sys_inv wire s \<Longrightarrow> sys_inv wire s'"
proof (induction rule: sys_step.induct)
  case (node_tick k s draw m nd net)
  let ?p = "serialize_telemetry (reading_of draw (clock (sy_wd s)) (nd_sensor (sy_nodes s ! k)))"
  obtain r where "UdpSender_send inet_pton sendto (system_sender (fds k)) ?p (sy_net s) = (r, net)" "\<not> throws r"
    using node_tick(2) by (auto simp: tick_eq Let_def bind_result_Inr_iff split: prod.splits)
  then obtain d where "wire net = wire (sy_net s) @ [(d, ?p)]"
    using os_sendto.udp_send_returns [OF os] by (cases r) fastforce+
  moreover have "map node_entry ((sy_nodes s)[k := nd]) = roster"
    using node_tick tick_entry [OF node_tick(2)] by (simp add: map_update sys_inv_def) (metis length_map list_update_same_conv nth_map)
  ultimately show ?case
    using node_tick roster_packet_reading [OF node_in_roster] by (blast intro: sys_inv_send)
next
  case (node_heartbeat k s u net)
  let ?p = "serialize_heartbeat (beat_of (clock (sy_wd s)) (nd_sensor (sy_nodes s ! k)))"
  obtain d where "wire net = wire (sy_net s) @ [(d, ?p)]"
    using node_heartbeat(2) os_sendto.udp_send_returns [OF os] by (simp add: sendHeartbeat_eq) blast
  moreover have "roster_packet ?p"
    using node_heartbeat by (intro roster_packet_beat node_in_roster)
  ultimately show ?case
    using sys_inv_send [of wire s net d ?p "sy_nodes s"] node_heartbeat(3) by (simp add: sys_inv_def)
next
  case (deliver a p s g logs)
  then show ?case by (blast intro: sys_inv_deliver)
next
  case (watchdog_scans s t ids)
  then show ?case by (blast intro: sys_inv_scan)
qed (simp_all add: sys_inv_def)

lemma sys_reachable_inv:
  assumes "os_sendto sendto wire"
  shows "sys_reachable inet_pton sendto wire fds s \<Longrightarrow> sys_inv wire s"
proof (induction rule: sys_reachable.induct)
  case (boot net c)
  then show ?case
    by (simp add: sys_inv_def init_sys_def map_node_entry_system init_wd_def init_Gateway_def)
next
  case (move s s')
  then show ?case using sys_step_inv [OF assms] by blast
qed

lemma sys_step_wd:
  "sys_step inet_pton sendto wire fds s s' \<Longrightarrow> sy_wd s' = sy_wd s \<or> wd_step (sy_wd s) (sy_wd s')"
  by (induction rule: sys_step.induct) (auto intro: wd_step.intros)

lemma sys_reachable_wd:
  "sys_reachable inet_pton sendto wire fds s \<Longrightarrow> \<exists>c. wd_reachable c (sy_wd s)"
proof (induction rule: sys_reachable.induct)
  case (boot net c)
  then show ?case by (auto simp: init_sys_def intro: wd_reachable.start)
next
  case (move s s')
  then show ?case using sys_step_wd [of inet_pton sendto wire fds s s'] by (metis wd_reachable.step)
qed

lemma roster_ids: "sid \<in> fst ` set roster \<longleftrightarrow> sid \<in> {1, 2, 3, 4, 5, 6, 7}"
  by (auto simp: roster_def)

section \<open>Properties of the system\<close>

text \<open>
  C1: end to end.  Whatever the network loses, repeats or reorders and however the threads interleave,
  in every reachable state only the seven sensors of the program are registered, the telemetry stored
  for one of them is a message of its own class that a node really put on the wire, byte for byte, no
  datagram on the wire can make the receiver throw, and the registry satisfies the invariant of the
  gateway.
\<close>

theorem system_provenance:
  assumes "os_sendto sendto wire" "sys_reachable inet_pton sendto wire fds s"
  shows "(\<forall>sid info. sensors (gw (sy_wd s)) sid = Some info \<longrightarrow>
      sid \<in> {1, 2, 3, 4, 5, 6, 7} \<and>
      (lastTelemetry info = zero_TelemetryMessage \<or>
       (sid, tm_type (lastTelemetry info)) \<in> set roster \<and>
       (\<exists>d. (d, serialize_telemetry (lastTelemetry info)) \<in> set (wire (sy_net s))))) \<and>
    (\<forall>(d, p)\<in>set (wire (sy_net s)). \<forall>t g. \<not> throws (handlePacket t (take MAX_PACKET_SIZE p) g)) \<and>
    wd_inv (sy_wd s)"
proof -
  have inv: "sys_inv wire s" using sys_reachable_inv [OF assms] .
  have "wd_inv (sy_wd s)" using sys_reachable_wd [OF assms(2)] wd_reachable_inv by blast
  moreover have "\<forall>(d, p)\<in>set (wire (sy_net s)). \<forall>t g. \<not> throws (handlePacket t (take MAX_PACKET_SIZE p) g)"
    using inv roster_packet_wellformed by (auto simp: sys_inv_def gateway_handler.throws_iff)
  ultimately show ?thesis
    using inv by (auto simp: sys_inv_def entry_from_def roster_ids)
qed

definition example_packet :: bytes where
  "example_packet = serialize_telemetry (reading_of zero_double 1000 (IsMotion (new_MotionSensor 1)))"

definition example_address :: "string \<Rightarrow> u32 option" where
  "example_address ip = (if ip = ''127.0.0.1'' then Some 0x7F000001 else None)"

lemma example_tick_reachable:
  "\<exists>s. sys_reachable example_address loopback_sendto (\<lambda>net. net) (\<lambda>k. 3) s \<and>
     sy_net s = [((0x7F000001, 9000), example_packet)] \<and> sy_wd s = init_wd 1000"
proof -
  let ?s = "init_sys [] 1000" and ?send = "UdpSender_send example_address loopback_sendto (system_sender 3)"
  have boot: "sys_reachable example_address loopback_sendto (\<lambda>net. net) (\<lambda>k. 3) ?s"
    by (rule sys_reachable.boot) simp
  obtain m nd where tk: "tick ?send zero_double 1000 (system_nodes ! 0) [] =
      (Inr m, nd, [((0x7F000001, 9000), example_packet)])"
    by (simp add: tick_eq UdpSender_send_def loopback_sendto_def system_sender_def example_address_def
        system_nodes_def system_sensors_def new_SensorNode_def example_packet_def Let_def)
  have "sys_step example_address loopback_sendto (\<lambda>net. net) (\<lambda>k. 3) ?s
      (?s\<lparr>sy_nodes := (sy_nodes ?s)[0 := nd], sy_net := [((0x7F000001, 9000), example_packet)]\<rparr>)"
    using node_tick [of 0 ?s example_address loopback_sendto "\<lambda>k. 3" zero_double m nd _ "\<lambda>net. net"] tk
    by (simp add: init_sys_def init_wd_def length_system_nodes)
  from sys_reachable.move [OF boot this] show ?thesis
    by (intro exI conjI) (assumption, simp_all add: init_sys_def)
qed

theorem system_provenance_witness:
  "\<exists>s. sys_reachable example_address loopback_sendto (\<lambda>net. net) (\<lambda>k. 3) s \<and>
     sy_net s = [((0x7F000001, 9000), example_packet)] \<and>
     \<not> throws (handlePacket 1005 (take MAX_PACKET_SIZE example_packet) init_Gateway) \<and> wd_inv (sy_wd s)"
proof -
  obtain s where s: "sys_reachable example_address loopback_sendto (\<lambda>net. net) (\<lambda>k. 3) s"
    "sy_net s = [((0x7F000001, 9000), example_packet)]"
    using example_tick_reachable by blast
  from system_provenance [OF loopback.os_sendto_axioms s(1)] s show ?thesis by auto
qed

section \<open>The main thread\<close>

text \<open>
  The statements of \<^verbatim>\<open>main\<close> that act on the rest of the program, in order, without the
  declarations of the objects and flags.  What a started thread does, its own log lines included, is
  not part of the script; stopping the receiver or the server clears the flag of its thread.
\<close>

datatype service = Udp | Tcp | Dashboard | WatchdogThread | TelemetryThread | HeartbeatThread

text \<open>
  The six services can be enumerated, in the order in which \<^verbatim>\<open>main\<close> starts their threads.
\<close>

instantiation service :: enum
begin

definition enum_service :: "service list" where
  "enum_service = [Udp, Tcp, Dashboard, WatchdogThread, TelemetryThread, HeartbeatThread]"

definition enum_all_service :: "(service \<Rightarrow> bool) \<Rightarrow> bool" where
  "enum_all_service P \<longleftrightarrow> list_all P [Udp, Tcp, Dashboard, WatchdogThread, TelemetryThread, HeartbeatThread]"

definition enum_ex_service :: "(service \<Rightarrow> bool) \<Rightarrow> bool" where
  "enum_ex_service P \<longleftrightarrow> list_ex P [Udp, Tcp, Dashboard, WatchdogThread, TelemetryThread, HeartbeatThread]"

instance
proof
  have all: "UNIV = set [Udp, Tcp, Dashboard, WatchdogThread, TelemetryThread, HeartbeatThread]"
    by (auto intro: service.exhaust)
  show "(UNIV :: service set) = set enum_class.enum" unfolding enum_service_def by (rule all)
  show "distinct (enum_class.enum :: service list)" by (simp add: enum_service_def)
  show "enum_class.enum_all P \<longleftrightarrow> Ball UNIV P" "enum_class.enum_ex P \<longleftrightarrow> Bex UNIV P" for P :: "service \<Rightarrow> bool"
    unfolding all enum_all_service_def enum_ex_service_def by simp_all
qed

end

abbreviation services :: "service list" where
  "services \<equiv> enum_class.enum"

lemma in_services [simp]: "t \<in> set services"
  by (simp flip: UNIV_enum)

lemmas services_def = enum_service_def

datatype main_action =
    StartLogger
  | LogLine string
  | StartThread service
  | AwaitReady
  | SleepMs nat
  | InitialHeartbeats
  | EnableSensor7
  | AwaitEnter
  | ClearFlag service
  | JoinThread service
  | StopLogger
  | JoinLogger
  | Print string

text \<open>
  The services, the dashboard, the watchdog and the telemetry are started.
\<close>

definition startup_script :: "main_action list" where
  "startup_script =
     [Print (''=== SMART SENSOR NETWORK DEMO START ==='' @ nl @ nl),
      StartLogger,
      LogLine ''[SYSTEM] Logger started'',
      StartThread Udp,
      StartThread Tcp,
      AwaitReady,
      LogLine ''[SYSTEM] All services ready'',
      StartThread Dashboard,
      StartThread WatchdogThread,
      LogLine ''[SYSTEM] Sensors initialized'',
      LogLine ''[SYSTEM] Sending initial telemetry packets'',
      StartThread TelemetryThread,
      SleepMs 100,
      LogLine ''[GATEWAY] Updated all sensors...'']"

text \<open>
  The heartbeats, the announced loss of sensors 3 and 7 and the recovery of sensor 7, up to the key press.
\<close>

definition simulation_script :: "main_action list" where
  "simulation_script =
     [LogLine ''[SYSTEM] Sending initial heartbeats'',
      InitialHeartbeats,
      StartThread HeartbeatThread,
      LogLine ''[SYSTEM] Waiting for watchdog detection'',
      LogLine ''[WATCHDOG] Sensor 3 marked OFFLINE'',
      LogLine ''[WATCHDOG] Sensor 7 marked OFFLINE'',
      SleepMs (unat SENSOR_HEARTBEAT_TIMEOUT_MS + 2000),
      LogLine ''[SYSTEM] Watchdog check completed'',
      LogLine ''[SYSTEM] Waiting for TCP client...'',
      SleepMs (unat SENSOR_HEARTBEAT_TIMEOUT_MS + 9000),
      LogLine ''[WATCHDOG] Sensor 7 recovered'',
      EnableSensor7,
      SleepMs 100,
      LogLine ''[SYSTEM] Sensor 7 recovery completed'',
      AwaitEnter]"

text \<open>
  The flags are cleared and the threads joined, then receiver and server are stopped and joined.
  \<^verbatim>\<open>logger.stop()\<close> is two actions: it clears the flag of the logger and notifies its worker,
  then it joins it.
\<close>

definition shutdown_script :: "main_action list" where
  "shutdown_script =
     [LogLine ''[SYSTEM] Shutting down...'',
      ClearFlag Dashboard,
      ClearFlag TelemetryThread,
      ClearFlag HeartbeatThread,
      ClearFlag WatchdogThread,
      JoinThread Dashboard,
      JoinThread TelemetryThread,
      JoinThread HeartbeatThread,
      JoinThread WatchdogThread,
      ClearFlag Udp,
      ClearFlag Tcp,
      JoinThread Udp,
      JoinThread Tcp,
      StopLogger,
      JoinLogger,
      Print (''[SYSTEM] Shutdown complete'' @ nl),
      Print (nl @ ''=== SYSTEM SHUTDOWN COMPLETE ==='' @ nl)]"

definition main_script :: "main_action list" where
  "main_script = startup_script @ simulation_script @ shutdown_script"

lemmas script_defs = main_script_def startup_script_def simulation_script_def shutdown_script_def

fun slept :: "main_action list \<Rightarrow> nat" where
  "slept [] = 0"
| "slept (SleepMs n # as) = n + slept as"
| "slept (_ # as) = slept as"

text \<open>
  Every action before the first \<open>b\<close>.
\<close>

definition before :: "main_action \<Rightarrow> main_action list \<Rightarrow> main_action list" where
  "before b as = takeWhile (\<lambda>a. a \<noteq> b) as"

text \<open>
  The control actions of the script, with the texts and the durations left open.
\<close>

definition script_with :: "(nat \<Rightarrow> string) \<Rightarrow> (nat \<Rightarrow> nat) \<Rightarrow> main_action list" where
  "script_with l n =
     [Print (l 0), StartLogger, LogLine (l 1), StartThread Udp, StartThread Tcp, AwaitReady,
      LogLine (l 2), StartThread Dashboard, StartThread WatchdogThread, LogLine (l 3),
      LogLine (l 4), StartThread TelemetryThread, SleepMs (n 0), LogLine (l 5), LogLine (l 6),
      InitialHeartbeats, StartThread HeartbeatThread, LogLine (l 7), LogLine (l 8), LogLine (l 9),
      SleepMs (n 1), LogLine (l 10), LogLine (l 11), SleepMs (n 2), LogLine (l 12), EnableSensor7,
      SleepMs (n 3), LogLine (l 13), AwaitEnter, LogLine (l 14), ClearFlag Dashboard,
      ClearFlag TelemetryThread, ClearFlag HeartbeatThread, ClearFlag WatchdogThread,
      JoinThread Dashboard, JoinThread TelemetryThread, JoinThread HeartbeatThread,
      JoinThread WatchdogThread, ClearFlag Udp, ClearFlag Tcp, JoinThread Udp, JoinThread Tcp,
      StopLogger, JoinLogger, Print (l 15), Print (l 16)]"

definition main_texts :: "string list" where
  "main_texts =
     [''=== SMART SENSOR NETWORK DEMO START ==='' @ nl @ nl,
      ''[SYSTEM] Logger started'',
      ''[SYSTEM] All services ready'',
      ''[SYSTEM] Sensors initialized'',
      ''[SYSTEM] Sending initial telemetry packets'',
      ''[GATEWAY] Updated all sensors...'',
      ''[SYSTEM] Sending initial heartbeats'',
      ''[SYSTEM] Waiting for watchdog detection'',
      ''[WATCHDOG] Sensor 3 marked OFFLINE'',
      ''[WATCHDOG] Sensor 7 marked OFFLINE'',
      ''[SYSTEM] Watchdog check completed'',
      ''[SYSTEM] Waiting for TCP client...'',
      ''[WATCHDOG] Sensor 7 recovered'',
      ''[SYSTEM] Sensor 7 recovery completed'',
      ''[SYSTEM] Shutting down...'',
      ''[SYSTEM] Shutdown complete'' @ nl,
      nl @ ''=== SYSTEM SHUTDOWN COMPLETE ==='' @ nl]"

definition main_durations :: "nat list" where
  "main_durations = [100, (unat SENSOR_HEARTBEAT_TIMEOUT_MS + 2000), (unat SENSOR_HEARTBEAT_TIMEOUT_MS + 9000), 100]"

lemma main_script_eq: "main_script = script_with (nth main_texts) (nth main_durations)"
  by (simp add: script_defs script_with_def main_texts_def main_durations_def)

text \<open>
  The main thread starts, stops and joins every service once, in that order, and the logger is stopped
  only after all joins.
\<close>

lemma script_order:
  "count_list (script_with l n) (StartThread t) = 1"
  "count_list (script_with l n) (ClearFlag t) = 1"
  "StartThread t \<in> set (before (ClearFlag t) (script_with l n))"
  "ClearFlag t \<in> set (before (JoinThread t) (script_with l n))"
  "JoinThread t \<in> set (before StopLogger (script_with l n))"
  "AwaitReady \<in> set (before (StartThread t) (script_with l n)) \<longleftrightarrow> t \<noteq> Udp \<and> t \<noteq> Tcp"
  "StartThread t \<in> set (before AwaitReady (script_with l n)) \<longleftrightarrow> t = Udp \<or> t = Tcp"
  "AwaitReady \<in> set (before (ClearFlag t) (script_with l n))"
  "ClearFlag Udp \<in> set (before (ClearFlag Tcp) (script_with l n))"
  "StartLogger \<in> set (before StopLogger (script_with l n))" "count_list (script_with l n) StartLogger = 1"
  "StopLogger \<in> set (before JoinLogger (script_with l n))"
  by (cases t; simp add: script_with_def before_def)+

lemma main_script_order:
  "count_list main_script (StartThread t) = 1"
  "count_list main_script (ClearFlag t) = 1"
  "StartThread t \<in> set (before (ClearFlag t) main_script)"
  "ClearFlag t \<in> set (before (JoinThread t) main_script)"
  "JoinThread t \<in> set (before StopLogger main_script)"
  "AwaitReady \<in> set (before (StartThread t) main_script) \<longleftrightarrow> t \<noteq> Udp \<and> t \<noteq> Tcp"
  "StartThread t \<in> set (before AwaitReady main_script) \<longleftrightarrow> t = Udp \<or> t = Tcp"
  "AwaitReady \<in> set (before (ClearFlag t) main_script)"
  "ClearFlag Udp \<in> set (before (ClearFlag Tcp) main_script)"
  "StartLogger \<in> set (before StopLogger main_script)" "count_list main_script StartLogger = 1"
  "StopLogger \<in> set (before JoinLogger main_script)"
  unfolding main_script_eq by (fact script_order)+

lemma main_script_facts:
  "length main_script = 46" "JoinThread t \<in> set main_script" "StopLogger \<in> set main_script"
  unfolding main_script_eq by (cases t; simp add: script_with_def)+

text \<open>
  The two lines that announce sensors 3 and 7 as offline are written by the main thread itself,
  unconditionally, right after the initial heartbeats and without any sleep in between; the watchdog
  needs more than ten seconds of silence, and a scan within them leaves a sensor just heard online.
\<close>

lemma offline_announced_early:
  assumes "lastHeartbeatReceivedTime info \<le> t" "t - lastHeartbeatReceivedTime info \<le> 10000"
    and "sensors g sid = Some info" "health info = ONLINE" "iterates ids (sensors g)"
  shows "slept (before (LogLine ''[WATCHDOG] Sensor 3 marked OFFLINE'') main_script) =
      slept (before InitialHeartbeats main_script) \<and>
    slept (before (LogLine ''[WATCHDOG] Sensor 7 marked OFFLINE'') main_script) =
      slept (before InitialHeartbeats main_script) \<and>
    map_option health (sensors (fst (detectOfflineSensors t ids g)) sid) = Some ONLINE"
proof -
  have "\<not> timed_out t info"
    using assms(1,2) by (auto simp: timed_out_def SENSOR_HEARTBEAT_TIMEOUT_MS_def not_less)
  then have "map_option health (sensors (fst (detectOfflineSensors t ids g)) sid) = Some ONLINE"
    using assms by (simp add: detectOfflineSensors_eq health_scan_entry)
  then show ?thesis by (simp add: script_defs before_def)
qed

end
