(* ===== verification/Monitor.thy ===== *)
theory Monitor
  imports Gateway
begin

text \<open>
  The reports of \<^verbatim>\<open>src/monitor/Monitor.cpp\<close>.  A report takes the gateway's mutex several times,
  once per call of a gateway member, and other threads may change the registry in between.  So a
  report is a function of a view: what its \<open>k\<close>-th critical section sees, the gateway, the order in
  which a loop over the copied map visits it, and the clock.  A quiet view sees the same gateway
  throughout.
\<close>

section \<open>Views\<close>

record snapshot =
  sn_gateway :: Gateway
  sn_order :: "u32 list"
  sn_now :: u64

type_synonym view = "nat \<Rightarrow> snapshot"

definition snapshot_ok :: "snapshot \<Rightarrow> bool" where
  "snapshot_ok sn \<longleftrightarrow> iterates (sn_order sn) (sensors (sn_gateway sn))"

definition view_sensors :: "view \<Rightarrow> nat \<Rightarrow> registry" where
  "view_sensors v k = getSensors (sn_gateway (v k))"

definition view_seconds :: "view \<Rightarrow> nat \<Rightarrow> u32 \<Rightarrow> u64" where
  "view_seconds v k sid = getSecondsSinceLastHeartbeat (sn_now (v k)) sid (sn_gateway (v k))"

definition quiet :: "Gateway \<Rightarrow> u32 list \<Rightarrow> u64 \<Rightarrow> view" where
  "quiet g order t = (\<lambda>k. \<lparr>sn_gateway = g, sn_order = order, sn_now = t\<rparr>)"

text \<open>
  \<^verbatim>\<open>std::unordered_map::at\<close>.
\<close>

definition map_at :: "registry \<Rightarrow> u32 \<Rightarrow> SensorInfo result" where
  "map_at reg sid =
     (case reg sid of None \<Rightarrow> Inl (out_of_range ''unordered_map::at'') | Some info \<Rightarrow> Inr info)"

section \<open>Reports\<close>

definition list_header :: string where
  "list_header = nl @ ''=== SENSOR LIST ==='' @ nl @ nl @
     setw_left 6 ''ID'' @ setw_left 15 ''TYPE'' @ setw_left 12 ''STATE'' @ setw_left 12 ''HEALTH'' @
     ''LAST HB'' @ nl @
     ''-----------------------------------------------------'' @ nl"

definition list_row :: "u32 \<Rightarrow> SensorInfo \<Rightarrow> u64 \<Rightarrow> string" where
  "list_row sid info seconds =
     (let telemetry = lastTelemetry info
      in setw_left 6 (show_word sid) @
         setw_left 15 (to_string_SensorType (tm_type telemetry)) @
         setw_left 12 (to_string_SensorState (tm_state telemetry)) @
         setw_left 12 (to_string_SensorHealth (health info)) @
         show_word seconds @ '' sec'' @ nl)"

text \<open>
  The loop over the sorted identifiers; row \<open>k\<close> asks the gateway for the heartbeat age anew.
\<close>

fun list_loop :: "registry \<Rightarrow> view \<Rightarrow> nat \<Rightarrow> u32 list \<Rightarrow> string \<Rightarrow> string result" where
  "list_loop reg v k [] oss = Inr oss"
| "list_loop reg v k (sid # ids) oss =
     bind_result (map_at reg sid) (\<lambda>info.
       list_loop reg v (Suc k) ids (oss @ list_row sid info (view_seconds v k sid)))"

definition sensorList :: "view \<Rightarrow> string result" where
  "sensorList v =
     (let reg = view_sensors v 0;
          ids = sort (sn_order (v 0))
      in bind_result (list_loop reg v 1 ids list_header) (\<lambda>oss. Inr (oss @ nl @ nl @ nl)))"

definition sensorDetails :: "view \<Rightarrow> u32 \<Rightarrow> string" where
  "sensorDetails v sid =
     (case view_sensors v 0 sid of
        None \<Rightarrow> ''sensor not found'' @ nl @ nl
      | Some info \<Rightarrow>
          let r = lastTelemetry info
          in nl @ ''=== SENSOR INFORMATION ==='' @ nl @ nl @
             ''Packet Header'' @ nl @
             ''--------------'' @ nl @
             ''messageType : '' @ to_string_MessageType (ph_type (tm_header r)) @ nl @
             ''sensorId    : '' @ show_word sid @ nl @
             ''timestamp   : '' @ show_word (ph_timestamp_ms (tm_header r)) @ nl @ nl @
             ''Telemetry Payload'' @ nl @
             ''-----------------'' @ nl @
             ''sensorType  : '' @ to_string_SensorType (tm_type r) @ nl @
             ''state       : '' @ to_string_SensorState (tm_state r) @ nl @
             ''value       : '' @ show_double (tm_value r) @ nl @ nl @
             ''Heartbeat Status'' @ nl @
             ''----------------'' @ nl @
             ''health         : '' @ to_string_SensorHealth (health info) @ nl @
             ''last heartbeat : '' @ show_word (view_seconds v 1 sid) @ '' sec ago'' @ nl @ nl @ nl)"

definition help_report :: string where
  "help_report =
     nl @ ''Available commands:'' @ nl @
     ''-------------------'' @ nl @
     ''list              - Show all sensors'' @ nl @
     ''get <id>          - Show sensor details'' @ nl @
     ''health            - Show sensor health status'' @ nl @
     ''stats             - Show system statistics'' @ nl @
     ''help              - Show available commands'' @ nl @ nl @ nl"

definition count_one :: "SensorInfo \<Rightarrow> HealthCounts \<Rightarrow> HealthCounts" where
  "count_one info hc =
     (case health info of
        ONLINE \<Rightarrow> hc\<lparr>hc_online := hc_online hc + 1\<rparr>
      | OFFLINE \<Rightarrow> hc\<lparr>hc_offline := hc_offline hc + 1\<rparr>
      | _ \<Rightarrow> hc\<lparr>hc_unknown := hc_unknown hc + 1\<rparr>)"

fun count_loop :: "registry \<Rightarrow> u32 list \<Rightarrow> HealthCounts \<Rightarrow> HealthCounts" where
  "count_loop reg [] hc = hc"
| "count_loop reg (sid # ids) hc =
     count_loop reg ids (case reg sid of None \<Rightarrow> hc | Some info \<Rightarrow> count_one info hc)"

definition countHealthSensors :: "view \<Rightarrow> HealthCounts" where
  "countHealthSensors v = count_loop (view_sensors v 0) (sn_order (v 0)) default_HealthCounts"

definition offline_row :: "u32 \<Rightarrow> SensorInfo \<Rightarrow> string" where
  "offline_row sid info =
     ''- Sensor '' @ show_word sid @ '' ('' @ to_string_SensorType (tm_type (lastTelemetry info)) @
     '')'' @ nl"

fun offline_loop :: "registry \<Rightarrow> u32 list \<Rightarrow> string \<Rightarrow> string" where
  "offline_loop reg [] oss = oss"
| "offline_loop reg (sid # ids) oss =
     offline_loop reg ids
       (case reg sid of
          None \<Rightarrow> oss
        | Some info \<Rightarrow> if health info = OFFLINE then oss @ offline_row sid info else oss)"

text \<open>
  The copy the loop runs over is taken first (section 0), the counts come from a second copy
  (section 1).
\<close>

definition healthSummary :: "view \<Rightarrow> string" where
  "healthSummary v =
     (let reg = view_sensors v 0;
          healthCount = countHealthSensors (\<lambda>k. v (Suc k));
          oss = nl @ ''=== HEALTH SUMMARY ==='' @ nl @ nl @
            ''ONLINE  : '' @ show_word (hc_online healthCount) @ nl @
            ''OFFLINE : '' @ show_word (hc_offline healthCount) @ nl @
            ''UNKNOWN : '' @ show_word (hc_unknown healthCount) @ nl @ nl @
            ''Offline sensors:'' @ nl
      in offline_loop reg (sn_order (v 0)) oss @ nl @ nl @ nl)"

text \<open>
  \<^verbatim>\<open>sensors.size()\<close> of a copied map.
\<close>

definition map_size :: "snapshot \<Rightarrow> u64" where
  "map_size sn = word_of_nat (length (sn_order sn))"

definition getStats :: "view \<Rightarrow> SystemStats" where
  "getStats v =
     (let healthCount = countHealthSensors (\<lambda>k. v (Suc k));
          stats = default_SystemStats;
          stats = stats\<lparr>ss_totalSensors := map_size (v 0)\<rparr>;
          stats = stats\<lparr>ss_telemetryPackets := getTelemetryPacketsReceived (sn_gateway (v 2))\<rparr>;
          stats = stats\<lparr>ss_heartbeatPackets := getHeartbeatPacketsReceived (sn_gateway (v 3))\<rparr>;
          stats = stats\<lparr>ss_health := (ss_health stats)\<lparr>hc_online := hc_online healthCount\<rparr>\<rparr>;
          stats = stats\<lparr>ss_health := (ss_health stats)\<lparr>hc_offline := hc_offline healthCount\<rparr>\<rparr>
      in stats)"

definition stats :: "view \<Rightarrow> string" where
  "stats v =
     (let st = getStats v
      in nl @ ''=== SYSTEM STATISTICS ==='' @ nl @ nl @
         ''Total sensors      : '' @ show_word (ss_totalSensors st) @ nl @
         ''Telemetry packets  : '' @ show_word (ss_telemetryPackets st) @ nl @
         ''Heartbeat messages : '' @ show_word (ss_heartbeatPackets st) @ nl @
         ''Online sensors     : '' @ show_word (hc_online (ss_health st)) @ nl @
         ''Offline sensors    : '' @ show_word (hc_offline (ss_health st)) @ nl @ nl @ nl)"

section \<open>Counting\<close>

lemma count_loop_eq:
  "set ids \<subseteq> dom reg \<Longrightarrow>
   count_loop reg ids hc =
     \<lparr>hc_online = hc_online hc + word_of_nat (length (filter (\<lambda>sid. health (the (reg sid)) = ONLINE) ids)),
      hc_offline = hc_offline hc + word_of_nat (length (filter (\<lambda>sid. health (the (reg sid)) = OFFLINE) ids)),
      hc_unknown = hc_unknown hc + word_of_nat (length (filter (\<lambda>sid. health (the (reg sid)) = UNKNOWN) ids))\<rparr>"
proof (induction ids arbitrary: hc)
  case (Cons sid ids)
  then obtain info where "reg sid = Some info" by auto
  with Cons show ?case by (cases "health info") (simp_all add: count_one_def algebra_simps)
qed simp

lemma distinct_u32_length:
  assumes "distinct (ids :: u32 list)"
  shows "length ids < 2 ^ 64"
proof -
  have "length ids = card (set ids)" using assms by (simp add: distinct_card)
  also have "\<dots> \<le> card (UNIV :: u32 set)" by (intro card_mono) simp_all
  also have "\<dots> = 2 ^ 32" by (simp add: card_word)
  finally show ?thesis by simp
qed

lemma length_filter_card:
  "iterates ids reg \<Longrightarrow>
   length (filter (\<lambda>sid. P (the (reg sid))) ids) = card {sid. \<exists>info. reg sid = Some info \<and> P info}"
proof -
  assume it: "iterates ids reg"
  have "set (filter (\<lambda>sid. P (the (reg sid))) ids) = {sid. \<exists>info. reg sid = Some info \<and> P info}"
    using it by (auto simp: iterates_def)
  moreover have "distinct (filter (\<lambda>sid. P (the (reg sid))) ids)"
    using it by (simp add: iterates_def)
  ultimately show ?thesis by (metis distinct_card)
qed

definition with_health :: "SensorHealth \<Rightarrow> registry \<Rightarrow> u32 set" where
  "with_health h reg = {sid. \<exists>info. reg sid = Some info \<and> health info = h}"

lemma unat_count:
  assumes "iterates ids (reg :: registry)"
  shows "unat (word_of_nat (length (filter (\<lambda>sid. health (the (reg sid)) = h) ids)) :: u64) =
    card (with_health h reg)"
proof -
  have "length (filter (\<lambda>sid. health (the (reg sid)) = h) ids) \<le> length ids" by simp
  also have "\<dots> < 2 ^ 64" using assms by (intro distinct_u32_length) (simp add: iterates_def)
  finally have "length (filter (\<lambda>sid. health (the (reg sid)) = h) ids) < 2 ^ 64" .
  then show ?thesis
    using length_filter_card [OF assms, of "\<lambda>info. health info = h"]
    by (simp add: unsigned_of_nat take_bit_nat_eq_self with_health_def)
qed

lemma health_partition:
  assumes "finite (dom (reg :: registry))"
  shows "card (with_health ONLINE reg) + card (with_health OFFLINE reg) +
    card (with_health UNKNOWN reg) = card (dom reg)"
proof -
  have fin: "finite (with_health h reg)" for h
    by (rule finite_subset [OF _ assms]) (auto simp: with_health_def)
  have "dom reg = with_health ONLINE reg \<union> with_health OFFLINE reg \<union> with_health UNKNOWN reg"
    by (auto simp: with_health_def) (metis SensorHealth.exhaust)
  moreover have "with_health h reg \<inter> with_health h' reg = {}" if "h \<noteq> h'" for h h'
    using that by (auto simp: with_health_def)
  ultimately show ?thesis
    using fin by (simp add: card_Un_disjoint Int_Un_distrib2)
qed

lemma countHealthSensors_counts:
  assumes "snapshot_ok (v 0)"
  shows "unat (hc_online (countHealthSensors v)) = card (with_health ONLINE (view_sensors v 0))"
    "unat (hc_offline (countHealthSensors v)) = card (with_health OFFLINE (view_sensors v 0))"
    "unat (hc_unknown (countHealthSensors v)) = card (with_health UNKNOWN (view_sensors v 0))"
proof -
  have it: "iterates (sn_order (v 0)) (view_sensors v 0)"
    using assms by (simp add: snapshot_ok_def view_sensors_def getSensors_def)
  then have "set (sn_order (v 0)) \<subseteq> dom (view_sensors v 0)"
    by (simp add: iterates_def)
  then show "unat (hc_online (countHealthSensors v)) = card (with_health ONLINE (view_sensors v 0))"
    "unat (hc_offline (countHealthSensors v)) = card (with_health OFFLINE (view_sensors v 0))"
    "unat (hc_unknown (countHealthSensors v)) = card (with_health UNKNOWN (view_sensors v 0))"
    by (simp_all add: countHealthSensors_def count_loop_eq default_HealthCounts_def unat_count [OF it])
qed

lemma map_size_card: "snapshot_ok sn \<Longrightarrow> unat (map_size sn) = card (dom (sensors (sn_gateway sn)))"
  using distinct_u32_length [of "sn_order sn"]
  by (simp add: snapshot_ok_def map_size_def iterates_length iterates_distinct unsigned_of_nat
      take_bit_nat_eq_self)

section \<open>Loops that print\<close>

lemma list_loop_eq:
  "set ids \<subseteq> dom reg \<Longrightarrow>
   list_loop reg v k ids oss =
     Inr (oss @ concat (map (\<lambda>(k, sid). list_row sid (the (reg sid)) (view_seconds v k sid)) (enumerate k ids)))"
proof (induction ids arbitrary: k oss)
  case (Cons sid ids)
  then obtain info where "reg sid = Some info" by auto
  with Cons show ?case by (simp add: map_at_def)
qed simp

text \<open>
  The rows of the list with the identifiers they belong to.
\<close>

definition list_rows :: "view \<Rightarrow> (u32 \<times> string) list" where
  "list_rows v =
     map (\<lambda>(k, sid). (sid, list_row sid (the (view_sensors v 0 sid)) (view_seconds v k sid)))
       (enumerate 1 (sorted_list_of_set (dom (view_sensors v 0))))"

lemma list_rows_ids: "map fst (list_rows v) = sorted_list_of_set (dom (view_sensors v 0))"
  by (simp add: list_rows_def comp_def case_prod_beta)

lemma list_rows_row:
  assumes "finite (dom (view_sensors v 0))" "(sid, row) \<in> set (list_rows v)"
  shows "\<exists>info k. view_sensors v 0 sid = Some info \<and> row = list_row sid info (view_seconds v k sid)"
proof -
  have "sid \<in> set (map fst (list_rows v))" using assms(2) by force
  then obtain info where "view_sensors v 0 sid = Some info" using assms(1) unfolding list_rows_ids by auto
  with assms(2) show ?thesis by (auto simp: list_rows_def)
qed

lemma sensorList_rows:
  assumes "snapshot_ok (v 0)"
  shows "sensorList v = Inr (list_header @ concat (map snd (list_rows v)) @ nl @ nl @ nl)"
proof -
  have it: "iterates (sn_order (v 0)) (view_sensors v 0)"
    using assms by (simp add: snapshot_ok_def view_sensors_def getSensors_def)
  then have "sort (sn_order (v 0)) = sorted_list_of_set (dom (view_sensors v 0))"
    by (metis iterates_def sorted_list_of_set_sort_remdups distinct_remdups_id)
  moreover have "finite (dom (view_sensors v 0))" using it by (rule iterates_finite)
  ultimately show ?thesis
    by (simp add: sensorList_def Let_def list_loop_eq list_rows_def comp_def split_def)
qed

lemma offline_loop_eq:
  "set ids \<subseteq> dom reg \<Longrightarrow>
   offline_loop reg ids oss =
     oss @ concat (map (\<lambda>sid. offline_row sid (the (reg sid)))
                    (filter (\<lambda>sid. health (the (reg sid)) = OFFLINE) ids))"
proof (induction ids arbitrary: oss)
  case (Cons sid ids)
  then obtain info where "reg sid = Some info" by auto
  with Cons show ?case by simp
qed simp

section \<open>Properties of the reports\<close>

definition example_view :: view where
  "example_view = quiet example_gateway [7, 3] 12000"

lemma example_view_ok [simp]: "snapshot_ok (example_view k)"
  by (simp add: example_view_def quiet_def snapshot_ok_def)

text \<open>
  C23: the sensor list never throws and does not depend on the hash table: whatever order the loop
  over the map has, the report is the header, one row per registered sensor in ascending order of
  the identifiers with the data of the copied registry, and the trailer.
\<close>

theorem sensorList_sorted:
  assumes "snapshot_ok (v 0)"
  shows "sensorList v =
    Inr (list_header @
         concat (map (\<lambda>(k, sid). list_row sid (the (view_sensors v 0 sid)) (view_seconds v k sid))
                  (enumerate 1 (sorted_list_of_set (dom (view_sensors v 0))))) @
         nl @ nl @ nl)"
  using sensorList_rows [of v] assms by (simp add: list_rows_def comp_def split_def)

theorem sensorList_sorted_witness:
  "sensorList example_view =
     Inr (list_header @ list_row 3 (the (sensors example_gateway 3)) (view_seconds example_view 1 3) @
          list_row 7 (the (sensors example_gateway 7)) (view_seconds example_view 2 7) @ nl @ nl @ nl)"
proof -
  have reg: "view_sensors example_view 0 = sensors example_gateway"
    by (simp add: example_view_def quiet_def view_sensors_def getSensors_def)
  have "sorted_list_of_set (dom (sensors example_gateway)) = [3, 7]"
    by (simp add: example_gateway_def)
  then show ?thesis
    using sensorList_sorted [of example_view] by (simp add: reg numeral_2_eq_2)
qed

text \<open>
  The health counters are exact: each is the number of sensors with that health in the registry
  that was copied, without wrap-around, and the three add up to the number of sensors.
\<close>

lemma countHealthSensors_exact:
  assumes "snapshot_ok (v 0)"
  shows "unat (hc_online (countHealthSensors v)) = card (with_health ONLINE (view_sensors v 0)) \<and>
    unat (hc_offline (countHealthSensors v)) = card (with_health OFFLINE (view_sensors v 0)) \<and>
    unat (hc_unknown (countHealthSensors v)) = card (with_health UNKNOWN (view_sensors v 0)) \<and>
    unat (hc_online (countHealthSensors v)) + unat (hc_offline (countHealthSensors v)) +
      unat (hc_unknown (countHealthSensors v)) = card (dom (view_sensors v 0))"
proof -
  have "finite (dom (view_sensors v 0))"
    using assms by (auto simp: snapshot_ok_def view_sensors_def getSensors_def dest: iterates_finite)
  then show ?thesis
    using countHealthSensors_counts [of v] assms health_partition by simp
qed

text \<open>
  The statistics never report an unknown sensor: their unknown counter stays zero, so on a quiet
  registry the online and offline counters fall short of the total by exactly the number of sensors
  that have not sent a heartbeat.
\<close>

lemma getStats_drops_unknown:
  assumes "iterates order (sensors g)"
  shows "hc_unknown (ss_health (getStats v)) = 0 \<and>
    unat (ss_totalSensors (getStats (quiet g order t))) =
      unat (hc_online (ss_health (getStats (quiet g order t)))) +
      unat (hc_offline (ss_health (getStats (quiet g order t)))) + card (with_health UNKNOWN (sensors g))"
proof -
  let ?v = "quiet g order t"
  have ok: "snapshot_ok (?v k)" for k using assms by (simp add: snapshot_ok_def quiet_def)
  have shift: "(\<lambda>k. ?v (Suc k)) = ?v" by (simp add: quiet_def)
  have reg: "view_sensors ?v 0 = sensors g" by (simp add: view_sensors_def quiet_def getSensors_def)
  have "unat (map_size (?v 0)) = card (dom (sensors g))"
    using map_size_card [OF ok, of 0] by (simp add: quiet_def)
  with countHealthSensors_counts [OF ok] health_partition [OF iterates_finite [OF assms]] show ?thesis
    by (simp add: getStats_def Let_def shift reg default_SystemStats_def default_HealthCounts_def)
qed

lemma healthSummary_rows:
  assumes "snapshot_ok (v 0)"
  shows "\<exists>pre mid ids. distinct ids \<and> set ids = with_health OFFLINE (view_sensors v 0) \<and>
    healthSummary v =
      pre @ ''OFFLINE : '' @ show_word (hc_offline (countHealthSensors (\<lambda>k. v (Suc k)))) @ nl @ mid @
      ''Offline sensors:'' @ nl @
      concat (map (\<lambda>sid. offline_row sid (the (view_sensors v 0 sid))) ids) @ nl @ nl @ nl"
proof -
  let ?reg = "view_sensors v 0" and ?hc = "countHealthSensors (\<lambda>k. v (Suc k))"
  let ?ids = "filter (\<lambda>sid. health (the (?reg sid)) = OFFLINE) (sn_order (v 0))"
  have it: "iterates (sn_order (v 0)) ?reg"
    using assms by (simp add: snapshot_ok_def view_sensors_def getSensors_def)
  then have "distinct ?ids" "set ?ids = with_health OFFLINE ?reg"
    by (auto simp: iterates_def with_health_def)
  moreover have "healthSummary v =
      (nl @ ''=== HEALTH SUMMARY ==='' @ nl @ nl @ ''ONLINE  : '' @ show_word (hc_online ?hc) @ nl) @
      ''OFFLINE : '' @ show_word (hc_offline ?hc) @ nl @
      (''UNKNOWN : '' @ show_word (hc_unknown ?hc) @ nl @ nl) @
      ''Offline sensors:'' @ nl @
      concat (map (\<lambda>sid. offline_row sid (the (?reg sid))) ?ids) @ nl @ nl @ nl"
    using it by (simp add: healthSummary_def Let_def offline_loop_eq iterates_def)
  ultimately show ?thesis by blast
qed

text \<open>
  C32: the health summary lists each offline sensor of the copied registry exactly once and no other,
  and on a quiet registry the number of lines is the OFFLINE figure printed above them.
\<close>

theorem healthSummary_lists_offline:
  assumes "snapshot_ok (v 0)"
  shows "\<exists>pre mid ids figure. distinct ids \<and> set ids = with_health OFFLINE (view_sensors v 0) \<and>
    healthSummary v =
      pre @ ''OFFLINE : '' @ show_word (figure :: u64) @ nl @ mid @ ''Offline sensors:'' @ nl @
      concat (map (\<lambda>sid. offline_row sid (the (view_sensors v 0 sid))) ids) @ nl @ nl @ nl \<and>
    (v 1 = v 0 \<longrightarrow> length ids = unat figure)"
proof -
  let ?figure = "hc_offline (countHealthSensors (\<lambda>k. v (Suc k)))"
  obtain pre mid ids where ids: "distinct ids" "set ids = with_health OFFLINE (view_sensors v 0)"
    and report: "healthSummary v = pre @ ''OFFLINE : '' @ show_word ?figure @ nl @ mid @ ''Offline sensors:'' @ nl @
      concat (map (\<lambda>sid. offline_row sid (the (view_sensors v 0 sid))) ids) @ nl @ nl @ nl"
    using healthSummary_rows [of v] assms by blast
  have "length ids = card (with_health OFFLINE (view_sensors v 0))" using ids by (metis distinct_card)
  then have "v 1 = v 0 \<longrightarrow> length ids = unat ?figure"
    using countHealthSensors_counts(2) [of "\<lambda>k. v (Suc k)"] assms by (simp add: view_sensors_def)
  with ids report show ?thesis by blast
qed

theorem healthSummary_lists_offline_witness:
  "\<exists>pre mid ids figure. distinct ids \<and> set ids = with_health OFFLINE (view_sensors example_view 0) \<and>
    healthSummary example_view =
      pre @ ''OFFLINE : '' @ show_word (figure :: u64) @ nl @ mid @ ''Offline sensors:'' @ nl @
      concat (map (\<lambda>sid. offline_row sid (the (view_sensors example_view 0 sid))) ids) @ nl @ nl @ nl \<and>
    length ids = unat figure"
proof -
  have "example_view 1 = example_view 0" by (simp add: example_view_def quiet_def)
  then show ?thesis using healthSummary_lists_offline [of example_view] example_view_ok [of 0] by blast
qed

end
