(* ===== verification/TcpServer.thy ===== *)
theory TcpServer
  imports Monitor
begin

text \<open>
  \<^verbatim>\<open>src/network/TcpServer.cpp\<close>: the text interface for monitoring clients.  The results of the
  socket calls, the calls of \<^verbatim>\<open>stop\<close> by other threads and what the reports see of the gateway
  are inputs; the text written to clients, the log lines, the closed descriptors and the error stream
  are outputs.
\<close>

section \<open>State, construction, destruction\<close>

record TcpServer =
  ts_serverSocket :: int
  ts_running :: bool
  ts_clientConnected :: bool
  ts_lastCommand :: string

definition tcp_MAX_PACKET_SIZE :: nat where
  "tcp_MAX_PACKET_SIZE = 1024"

definition tcp_server_with :: "int \<Rightarrow> TcpServer" where
  "tcp_server_with fd =
     \<lparr>ts_serverSocket = fd, ts_running = False, ts_clientConnected = False, ts_lastCommand = []\<rparr>"

text \<open>
  The constructor; \<open>fd\<close>, \<open>bound\<close> and \<open>listening\<close> are the results of \<^verbatim>\<open>socket\<close>, \<^verbatim>\<open>bind\<close>
  and \<^verbatim>\<open>listen\<close>.  It also returns the closed descriptors and the output of \<^verbatim>\<open>perror\<close>.
\<close>

definition new_TcpServer :: "int \<Rightarrow> int \<Rightarrow> int \<Rightarrow> (TcpServer \<times> int list \<times> string list) result" where
  "new_TcpServer fd bound listening =
     (if fd < 0 then Inl (runtime_error ''Failed to create TCP socket'')
      else if bound < 0 then Inr (tcp_server_with (- 1), [fd], [''bind failed''])
      else if listening < 0 then Inr (tcp_server_with (- 1), [fd], [''listen failed''])
      else Inr (tcp_server_with fd, [], []))"

definition TcpServer_stop :: "TcpServer \<Rightarrow> TcpServer" where
  "TcpServer_stop ts = ts\<lparr>ts_running := False\<rparr>"

definition delete_TcpServer :: "TcpServer \<Rightarrow> TcpServer \<times> int list" where
  "delete_TcpServer ts =
     (let ts1 = TcpServer_stop ts
      in if ts_serverSocket ts1 \<ge> 0 then (ts1\<lparr>ts_serverSocket := - 1\<rparr>, [ts_serverSocket ts1])
         else (ts1, []))"

definition isClientConnected :: "TcpServer \<Rightarrow> bool" where
  "isClientConnected ts = ts_clientConnected ts"

definition getLastCommand :: "TcpServer \<Rightarrow> string" where
  "getLastCommand ts = (if ts_lastCommand ts = [] then ''None'' else ts_lastCommand ts)"

section \<open>Requests\<close>

definition is_line_end :: "char \<Rightarrow> bool" where
  "is_line_end c \<longleftrightarrow> c = CHR 0x0A \<or> c = CHR 0x0D"

text \<open>
  The loop that pops line ends off the back of the request.
\<close>

function normalize_request :: "string \<Rightarrow> string" where
  "normalize_request req =
     (if req \<noteq> [] \<and> is_line_end (last req) then normalize_request (butlast req) else req)"
  by auto
termination by (relation "measure length") auto

declare normalize_request.simps [simp del]

definition prefixLength :: nat where
  "prefixLength = 4"

definition parseId :: "string \<Rightarrow> u32 result" where
  "parseId request =
     (if length request < prefixLength then Inl (out_of_range ''basic_string::substr'')
      else bind_result (stoi (drop prefixLength request)) (\<lambda>sid.
             if sid \<le> 0 then Inl (invalid_argument ''Invalid sensor id'') else Inr (word_of_int sid)))"

definition not_found_log :: "u32 \<Rightarrow> string" where
  "not_found_log sid = ''[TCP] Sensor '' @ show_word sid @ '' not found''"

text \<open>
  The response, the server with the command remembered, and the lines logged.  The comparison of the
  32-bit identifier with \<^verbatim>\<open>size()\<close> is made in 64 bits.  Only the branch of \<^verbatim>\<open>get\<close> is
  inside the try block.
\<close>

definition processRequest :: "view \<Rightarrow> string \<Rightarrow> TcpServer \<Rightarrow> (string \<times> TcpServer \<times> string list) result" where
  "processRequest v request ts =
     (let req = normalize_request request;
          ts1 = ts\<lparr>ts_lastCommand := req\<rparr>;
          logs = [''[TCP] Command: '' @ req]
      in if req = ''help'' then Inr (help_report, ts1, logs)
         else if req = ''list'' then bind_result (sensorList v) (\<lambda>r. Inr (r, ts1, logs))
         else if req = ''health'' then Inr (healthSummary v, ts1, logs)
         else if req = ''stats'' then Inr (stats v, ts1, logs)
         else if prefix ''get '' req
         then (case parseId req of
                 Inl _ \<Rightarrow> Inr (''invalid sensor id'' @ nl @ nl, ts1, logs @ [''[TCP] Invalid sensor id''])
               | Inr sid \<Rightarrow>
                   let logs1 = (if (ucast sid :: u64) > map_size (v 0) then logs @ [not_found_log sid] else logs)
                   in Inr (sensorDetails (\<lambda>k. v (Suc k)) sid, ts1, logs1))
         else Inr (''unknown command'' @ nl @ nl, ts1, logs @ [''[TCP] Unknown command: '' @ req]))"

section \<open>Sessions\<close>

datatype write_status = Written | Blocked_write | Failed_write

text \<open>
  The loop that writes a response; \<open>ws\<close> are the results of successive calls of \<^verbatim>\<open>write\<close> and
  \<open>out\<close> is what the client has received.
\<close>

fun write_response :: "int list \<Rightarrow> nat \<Rightarrow> string \<Rightarrow> string \<Rightarrow> write_status \<times> string" where
  "write_response [] tot response out =
     (if tot < length response then (Blocked_write, out) else (Written, out))"
| "write_response (sent # ws) tot response out =
     (if tot < length response
      then if sent \<le> 0 then (Failed_write, out)
           else write_response ws (tot + nat sent) response
                  (out @ take (nat sent) (drop tot response))
      else (Written, out))"

text \<open>
  One exchange of a session: what \<^verbatim>\<open>read\<close> delivers (\<open>None\<close> for a result that is not positive),
  what the report sees of the gateway, and the results of \<^verbatim>\<open>write\<close>.
\<close>

record exchange =
  ex_read :: "string option"
  ex_view :: view
  ex_writes :: "int list"

record session =
  se_server :: TcpServer
  se_out :: string
  se_log :: "string list"

fun handleClient :: "exchange list \<Rightarrow> session \<Rightarrow> loop_status \<times> session" where
  "handleClient [] s = (Running, s)"
| "handleClient (x # xs) s =
     (case ex_read x of
        None \<Rightarrow> (Left, s)
      | Some request \<Rightarrow>
          (case processRequest (ex_view x) request (se_server s) of
             Inl e \<Rightarrow> (Threw e, s)
           | Inr (response, ts, logs) \<Rightarrow>
               (let s1 = s\<lparr>se_server := ts, se_log := se_log s @ logs\<rparr>
                in case write_response (ex_writes x) 0 response (se_out s1) of
                     (Written, out) \<Rightarrow> handleClient xs (s1\<lparr>se_out := out\<rparr>)
                   | (Blocked_write, out) \<Rightarrow> (Running, s1\<lparr>se_out := out\<rparr>)
                   | (Failed_write, out) \<Rightarrow>
                       (Left, s1\<lparr>se_out := out, se_log := se_log s1 @ [''[TCP] Failed to send response'']\<rparr>))))"

section \<open>The accept loop\<close>

datatype accept_result = Accepted int | AcceptWouldBlock | AcceptError

record tcp_input =
  ti_stop_before :: bool
  ti_stop_during :: bool
  ti_accept :: accept_result
  ti_session :: "exchange list"

record tcp_state =
  tc_server :: TcpServer
  tc_log :: "string list"
  tc_closed :: "int list"
  tc_stderr :: "string list"
  tc_out :: "string list"

definition tcp_stop_if :: "bool \<Rightarrow> tcp_state \<Rightarrow> tcp_state" where
  "tcp_stop_if b s = (if b then s\<lparr>tc_server := TcpServer_stop (tc_server s)\<rparr> else s)"

text \<open>
  From the log line of a new connection to the one of its end; the text received by the client is
  appended to \<open>tc_out\<close>.
\<close>

definition serve_client :: "int \<Rightarrow> exchange list \<Rightarrow> tcp_state \<Rightarrow> loop_status \<times> tcp_state" where
  "serve_client clientSock xs s =
     (let s1 = s\<lparr>tc_log := tc_log s @ [''[TCP] Client connected''],
                 tc_server := (tc_server s)\<lparr>ts_clientConnected := True\<rparr>\<rparr>;
          (st, se) = handleClient xs \<lparr>se_server = tc_server s1, se_out = [], se_log = []\<rparr>;
          s2 = s1\<lparr>tc_server := se_server se, tc_log := tc_log s1 @ se_log se,
                  tc_out := tc_out s1 @ [se_out se]\<rparr>
      in if st = Left
         then (Left, s2\<lparr>tc_server := (tc_server s2)\<lparr>ts_clientConnected := False\<rparr>,
                        tc_closed := tc_closed s2 @ [clientSock],
                        tc_log := tc_log s2 @ [''[TCP] Client disconnected'']\<rparr>)
         else (st, s2))"

fun accept_loop :: "tcp_input list \<Rightarrow> tcp_state \<Rightarrow> loop_status \<times> tcp_state" where
  "accept_loop [] s = (Running, s)"
| "accept_loop (i # is) s =
     (let s0 = tcp_stop_if (ti_stop_before i) s
      in if \<not> ts_running (tc_server s0) then (Left, s0)
         else let s1 = tcp_stop_if (ti_stop_during i) s0
              in case ti_accept i of
                   Accepted clientSock \<Rightarrow>
                     (case serve_client clientSock (ti_session i) s1 of
                        (Left, s2) \<Rightarrow> accept_loop is s2
                      | (st, s2) \<Rightarrow> (st, s2))
                 | AcceptWouldBlock \<Rightarrow> if \<not> ts_running (tc_server s1) then (Left, s1) else accept_loop is s1
                 | AcceptError \<Rightarrow>
                     if \<not> ts_running (tc_server s1) then (Left, s1)
                     else accept_loop is (s1\<lparr>tc_stderr := tc_stderr s1 @ [''accept failed'']\<rparr>))"

definition TcpServer_run :: "tcp_input list \<Rightarrow> tcp_state \<Rightarrow> loop_status \<times> tcp_state" where
  "TcpServer_run is s =
     (if ts_serverSocket (tc_server s) < 0
      then (Left, s\<lparr>tc_log := tc_log s @ [''[TCP] Server not initialized'']\<rparr>)
      else let s1 = s\<lparr>tc_server := (tc_server s)\<lparr>ts_running := True\<rparr>\<rparr>
           in accept_loop is (s1\<lparr>tc_log := tc_log s1 @ [''[TCP] Server started'']\<rparr>))"

section \<open>Request lemmas\<close>

lemma normalize_eq: "normalize_request req = rev (dropWhile is_line_end (rev req))"
proof (induction req rule: normalize_request.induct)
  case (1 req)
  show ?case
  proof (cases req rule: rev_cases)
    case Nil
    then show ?thesis by (simp add: normalize_request.simps)
  next
    case (snoc ys y)
    with 1 show ?thesis by (subst normalize_request.simps) simp
  qed
qed

lemma normalize_line:
  "req = [] \<or> \<not> is_line_end (last req) \<Longrightarrow> list_all is_line_end eol \<Longrightarrow> normalize_request (req @ eol) = req"
  by (cases req rule: rev_cases)
    (auto simp: normalize_eq list_all_iff dropWhile_append3 rev_swap)

lemma processRequest_returns:
  assumes "snapshot_ok (v 0)"
  shows "\<exists>response logs. processRequest v request ts =
    Inr (response, ts\<lparr>ts_lastCommand := normalize_request request\<rparr>, (''[TCP] Command: '' @ normalize_request request) # logs)"
proof -
  have list: "\<exists>r. sensorList v = Inr r"
  proof -
    have "set (sort (sn_order (v 0))) \<subseteq> dom (view_sensors v 0)"
      using assms by (simp add: snapshot_ok_def view_sensors_def getSensors_def iterates_def)
    then show ?thesis by (simp add: sensorList_def Let_def list_loop_eq)
  qed
  then show ?thesis
    by (auto simp: processRequest_def Let_def split: sum.splits)
qed

lemma dec_string_last: "\<not> is_line_end (last (dec_string n))"
  using dec_string_digits [of "last (dec_string n)" n]
  by (auto simp: is_line_end_def is_digit_def)

lemma parseId_get:
  "parseId (''get '' @ dec_string n) =
     (if n = 0 then Inl (invalid_argument ''Invalid sensor id'')
      else if n < 2 ^ 31 then Inr (word_of_nat n)
      else Inl (out_of_range ''stoi''))"
  using stoi_dec_string_eq [of "[]" n]
  by (auto simp: parseId_def prefixLength_def)

section \<open>Writing a response\<close>

text \<open>
  What the documentation of \<^verbatim>\<open>write\<close> promises: it never reports more bytes than it was given.
  Results beyond the end of the response are never asked for.
\<close>

fun writes_ok :: "int list \<Rightarrow> nat \<Rightarrow> bool" where
  "writes_ok [] n = True"
| "writes_ok (sent # ws) n = (n = 0 \<or> sent \<le> int n \<and> (0 < sent \<longrightarrow> writes_ok ws (n - nat sent)))"

lemma write_response_prefix:
  assumes "writes_ok ws (length response - tot)" "tot \<le> length response"
    and "write_response ws tot response (out @ take tot response) = (st, out')"
  shows "\<exists>n. tot \<le> n \<and> n \<le> length response \<and> out' = out @ take n response \<and>
    (st = Written \<longleftrightarrow> n = length response)"
  using assms
proof (induction ws arbitrary: tot)
  case Nil
  then show ?case by (auto split: if_splits)
next
  case (Cons sent ws)
  show ?case
  proof (cases "tot < length response \<and> 0 < sent")
    case False
    with Cons.prems show ?thesis by (auto split: if_splits intro!: exI [of _ tot])
  next
    case True
    have next_tot: "tot + nat sent \<le> length response"
      using True Cons.prems(1) by auto
    have "take tot response @ take (nat sent) (drop tot response) = take (tot + nat sent) response"
      by (simp add: take_add)
    then have "write_response ws (tot + nat sent) response (out @ take (tot + nat sent) response) = (st, out')"
      using True Cons.prems(3) by simp
    moreover have "writes_ok ws (length response - (tot + nat sent))"
      using True Cons.prems(1) by simp
    ultimately obtain n where "tot + nat sent \<le> n" "n \<le> length response" "out' = out @ take n response"
      "st = Written \<longleftrightarrow> n = length response"
      using Cons.IH next_tot by blast
    then show ?thesis by (intro exI [of _ n]) simp
  qed
qed

lemma write_response_completes:
  assumes "list_all (\<lambda>w. 0 < w) ws" "length response - tot \<le> length ws"
  shows "fst (write_response ws tot response out) = Written"
  using assms by (induction ws arbitrary: tot out) auto

section \<open>Properties of the server\<close>

text \<open>
  The listening socket is closed exactly once over the life of a server, and after a failed bind or
  listen run refuses to start and touches nothing but the log.
\<close>

lemma server_socket_lifecycle:
  assumes "new_TcpServer fd bound listening = Inr (ts, closed, err)"
  shows "closed @ snd (delete_TcpServer (ts\<lparr>ts_running := b\<rparr>)) = [fd]"
    "bound < 0 \<or> listening < 0 \<Longrightarrow> ts_serverSocket (tc_server s) = ts_serverSocket ts \<Longrightarrow>
     TcpServer_run is s = (Left, s\<lparr>tc_log := tc_log s @ [''[TCP] Server not initialized'']\<rparr>)"
  using assms
  by (auto simp: new_TcpServer_def delete_TcpServer_def TcpServer_stop_def TcpServer_run_def
      tcp_server_with_def Let_def split: if_splits)

text \<open>
  A request never throws out of processRequest, whatever bytes the client sends: there is always
  a response, the command without its line end becomes the last command, and the first line logged is
  that command.
\<close>

lemma processRequest_total:
  assumes "snapshot_ok (v 0)"
  shows "\<exists>response ts' logs. processRequest v request ts = Inr (response, ts', logs) \<and>
    ts' = ts\<lparr>ts_lastCommand := rev (dropWhile is_line_end (rev request))\<rparr> \<and>
    hd logs = ''[TCP] Command: '' @ rev (dropWhile is_line_end (rev request))"
  using processRequest_returns [of v request ts] assms by (auto simp: normalize_eq)

text \<open>
  C15: get and the decimal output of identifiers are inverse up to the range of a signed int: for every
  identifier below two to the 31 but zero, with any line end, the request answers with the details of
  exactly that sensor; identifiers from two to the 31 on, which the registry can hold, are rejected as
  invalid, and so is zero.
\<close>

theorem get_request:
  assumes "list_all is_line_end eol"
  shows "\<exists>ts' logs. processRequest v (''get '' @ show_word (sid :: u32) @ eol) ts =
    Inr (if sid \<noteq> 0 \<and> sid < 0x80000000 then sensorDetails (\<lambda>k. v (Suc k)) sid
         else ''invalid sensor id'' @ nl @ nl, ts', logs)"
proof -
  let ?req = "''get '' @ dec_string (unat sid)"
  have "normalize_request (?req @ eol) = ?req"
    using assms dec_string_last [of "unat sid"] by (intro normalize_line) simp_all
  moreover have "unat sid < 2 ^ 31 \<longleftrightarrow> sid < 0x80000000" "unat sid = 0 \<longleftrightarrow> sid = 0"
    by (simp_all add: word_less_nat_alt unat_eq_0)
  ultimately show ?thesis
    using parseId_get [of "unat sid"]
    by (auto simp: processRequest_def show_word_def Let_def)
qed

theorem get_request_witness:
  "\<exists>ts' logs. processRequest example_view (''get 7'' @ nl) (tcp_server_with 5) =
     Inr (sensorDetails (\<lambda>k. example_view (Suc k)) 7, ts', logs)"
  using get_request [of nl example_view 7 "tcp_server_with 5"]
  by (simp add: nl_def is_line_end_def show_word_def dec_string.simps digit_char_def)

text \<open>
  The "not found" line of get does not tell whether the sensor is registered: it compares the
  identifier with the number of sensors.  With the two sensors 3 and 7 registered, get 7 logs that
  sensor 7 was not found and answers with its details, and get 1 finds nothing and logs nothing.
\<close>

lemma get_logs_wrong_not_found:
  "(\<exists>ts' logs. processRequest example_view ''get 7'' ts = Inr (sensorDetails example_view 7, ts', logs) \<and>
      not_found_log 7 \<in> set logs \<and> sensors example_gateway 7 \<noteq> None) \<and>
   (\<exists>ts' logs. processRequest example_view ''get 1'' ts = Inr (''sensor not found'' @ nl @ nl, ts', logs) \<and>
      not_found_log 1 \<notin> set logs \<and> sensors example_gateway 1 = None)"
proof -
  have shift: "(\<lambda>k. example_view (Suc k)) = example_view" by (simp add: example_view_def quiet_def)
  have size: "map_size (example_view 0) = 2" by (simp add: example_view_def quiet_def map_size_def)
  have norm: "normalize_request ''get 7'' = ''get 7''" "normalize_request ''get 1'' = ''get 1''"
    by (simp_all add: normalize_eq is_line_end_def)
  have parse: "parseId ''get 7'' = Inr 7" "parseId ''get 1'' = Inr 1"
    using parseId_get [of 7] parseId_get [of 1] by (simp_all add: dec_string.simps digit_char_def)
  have one: "sensors example_gateway 1 = None" "view_sensors example_view 0 1 = None"
    by (simp_all add: example_gateway_def example_view_def quiet_def view_sensors_def getSensors_def)
  show ?thesis
    by (simp add: processRequest_def norm parse Let_def shift size one sensorDetails_def [of _ 1]
        not_found_log_def)
qed

text \<open>
  Partial writes lose nothing: as long as write never claims more than it was given, the client has
  received a prefix of the response at every moment and the whole of it exactly when the loop ends
  normally; when every call makes progress, at most one call per byte is needed.
\<close>

lemma response_delivered:
  assumes "writes_ok ws (length response)" "write_response ws 0 response out = (st, out')"
  shows "(\<exists>n. out' = out @ take n response) \<and> (st = Written \<longrightarrow> out' = out @ response) \<and>
    (list_all (\<lambda>w. 0 < w) ws \<and> length response \<le> length ws \<longrightarrow> st = Written)"
  using write_response_prefix [of ws response 0 out st out'] write_response_completes [of ws response 0 out] assms
  by auto

text \<open>
  A call of \<^verbatim>\<open>read\<close> that succeeds delivers between one byte and the size of the buffer.
\<close>

definition read_ok :: "exchange \<Rightarrow> bool" where
  "read_ok x \<longleftrightarrow>
     (case ex_read x of None \<Rightarrow> True | Some r \<Rightarrow> r \<noteq> [] \<and> length r \<le> tcp_MAX_PACKET_SIZE)"

text \<open>
  An exchange in which the client sends something and every call of \<^verbatim>\<open>write\<close> makes progress.
\<close>

definition active :: "exchange \<Rightarrow> bool" where
  "active x \<longleftrightarrow>
     read_ok x \<and> snapshot_ok (ex_view x 0) \<and>
     (\<exists>request. ex_read x = Some request \<and>
        (\<forall>ts response ts' logs. processRequest (ex_view x) request ts = Inr (response, ts', logs) \<longrightarrow>
           length response \<le> length (ex_writes x))) \<and>
     list_all (\<lambda>w. 0 < w) (ex_writes x)"

lemma handleClient_active_step:
  assumes "active x"
  shows "\<exists>s1. handleClient (x # xs) s = handleClient xs s1 \<and>
    ts_running (se_server s1) = ts_running (se_server s)"
proof -
  obtain request where r: "ex_read x = Some request" "snapshot_ok (ex_view x 0)"
    "\<And>ts response ts' logs. processRequest (ex_view x) request ts = Inr (response, ts', logs) \<Longrightarrow>
       length response \<le> length (ex_writes x)" "list_all (\<lambda>w. 0 < w) (ex_writes x)"
    using assms unfolding active_def by blast
  obtain response logs where p: "processRequest (ex_view x) request (se_server s) =
      Inr (response, (se_server s)\<lparr>ts_lastCommand := normalize_request request\<rparr>, logs)"
    using processRequest_returns [of "ex_view x" request "se_server s"] r(2) by blast
  have "fst (write_response (ex_writes x) 0 response out) = Written" for out
    using r(3) [OF p] r(4) by (intro write_response_completes) simp_all
  then obtain out' where "write_response (ex_writes x) 0 response (se_out s) = (Written, out')"
    by (metis prod.collapse)
  with r(1) p show ?thesis by auto
qed

lemma handleClient_active:
  "list_all active xs \<Longrightarrow> \<exists>s'. handleClient xs s = (Running, s') \<and>
     ts_running (se_server s') = ts_running (se_server s)"
proof (induction xs arbitrary: s)
  case (Cons x xs)
  then obtain s1 where "handleClient (x # xs) s = handleClient xs s1"
    "ts_running (se_server s1) = ts_running (se_server s)"
    using handleClient_active_step [of x xs s] by auto
  with Cons show ?case by auto
qed simp

text \<open>
  C33: a connected client keeps the server alive: the session loop never looks at the flag, so after
  stop has cleared it a client that keeps talking is served for as long as it likes, and run has not
  returned.
\<close>

theorem session_outlives_stop:
  assumes "ts_serverSocket (tc_server s) \<ge> 0" "ti_accept i = Accepted sock" "\<not> ti_stop_before i"
    and "ti_stop_during i" "list_all active (ti_session i)"
  shows "\<exists>s'. TcpServer_run (i # is) s = (Running, s') \<and> \<not> ts_running (tc_server s')"
proof -
  obtain se where "handleClient (ti_session i)
      \<lparr>se_server = (tc_server s)\<lparr>ts_running := False, ts_clientConnected := True\<rparr>, se_out = [], se_log = []\<rparr> =
      (Running, se)" "\<not> ts_running (se_server se)"
    using handleClient_active [OF assms(5), of "\<lparr>se_server = (tc_server s)\<lparr>ts_running := False, ts_clientConnected := True\<rparr>,
        se_out = [], se_log = []\<rparr>"] by auto
  with assms show ?thesis
    by (simp add: TcpServer_run_def Let_def tcp_stop_if_def TcpServer_stop_def serve_client_def)
qed

definition help_exchange :: exchange where
  "help_exchange = \<lparr>ex_read = Some ''help'', ex_view = example_view, ex_writes = replicate 512 1\<rparr>"

lemma help_exchange_active: "active help_exchange"
proof -
  have "normalize_request ''help'' = ''help''" by (simp add: normalize_eq is_line_end_def)
  moreover have "length help_report \<le> 512" by (simp add: help_report_def nl_def)
  ultimately show ?thesis
    by (auto simp: active_def read_ok_def tcp_MAX_PACKET_SIZE_def help_exchange_def processRequest_def
        Let_def list_all_iff)
qed

theorem session_outlives_stop_witness:
  "\<exists>s'. TcpServer_run
      [\<lparr>ti_stop_before = False, ti_stop_during = True, ti_accept = Accepted 6, ti_session = replicate 3 help_exchange\<rparr>]
      \<lparr>tc_server = tcp_server_with 5, tc_log = [], tc_closed = [], tc_stderr = [], tc_out = []\<rparr> = (Running, s') \<and>
    \<not> ts_running (tc_server s')"
  using session_outlives_stop [of "\<lparr>tc_server = tcp_server_with 5, tc_log = [], tc_closed = [], tc_stderr = [], tc_out = []\<rparr>"
      "\<lparr>ti_stop_before = False, ti_stop_during = True, ti_accept = Accepted 6, ti_session = replicate 3 help_exchange\<rparr>" 6 "[]"]
    help_exchange_active
  by (simp add: tcp_server_with_def list_all_iff)

section \<open>When the server ends\<close>

text \<open>
  A session that ends whatever the state of the server: one in which the client disconnects in the end
  is such a session.
\<close>

definition session_ends :: "exchange list \<Rightarrow> bool" where
  "session_ends xs \<longleftrightarrow> (\<forall>s. fst (handleClient xs s) \<noteq> Running)"

lemma handleClient_append:
  "list_all active xs \<Longrightarrow> \<exists>s'. handleClient (xs @ ys) s = handleClient ys s'"
proof (induction xs arbitrary: s)
  case (Cons x xs)
  then obtain s1 where "handleClient (x # xs @ ys) s = handleClient (xs @ ys) s1"
    using handleClient_active_step [of x "xs @ ys" s] by auto
  with Cons show ?case by auto
qed auto

lemma session_ends_disconnect:
  assumes "list_all active xs" "ex_read x = None"
  shows "session_ends (xs @ [x])"
  unfolding session_ends_def
proof
  fix s
  obtain s' where "handleClient (xs @ [x]) s = handleClient [x] s'"
    using handleClient_append [OF assms(1)] by blast
  with assms(2) show "fst (handleClient (xs @ [x]) s) \<noteq> Running" by simp
qed

lemma serve_client_ends: "session_ends xs \<Longrightarrow> fst (serve_client sock xs s) \<noteq> Running"
  by (auto simp: serve_client_def Let_def session_ends_def split: prod.splits) (metis fst_conv)

lemma accept_loop_terminates:
  assumes "list_all (\<lambda>i. session_ends (ti_session i)) is" "list_ex ti_stop_before is"
  shows "fst (accept_loop is s) \<noteq> Running"
  using assms
proof (induction "is" arbitrary: s)
  case (Cons i "is")
  show ?case
  proof (cases "ti_stop_before i")
    case True
    then show ?thesis by (simp add: Let_def tcp_stop_if_def TcpServer_stop_def)
  next
    case False
    then have IH: "fst (accept_loop is s') \<noteq> Running" for s'
      using Cons by simp
    let ?s = "tcp_stop_if (ti_stop_during i) s"
    have "fst (serve_client sock (ti_session i) ?s) \<noteq> Running" for sock
      using Cons.prems(1) by (intro serve_client_ends) simp
    with False IH show ?thesis
      by (auto simp: Let_def tcp_stop_if_def [of False] split: accept_result.splits prod.splits loop_status.splits)
        (metis fst_conv)+
  qed
qed simp

end
