(* ===== verification/TimeUtils.thy ===== *)
theory TimeUtils
  imports StdText "HOL-Library.Signed_Division"
begin

text \<open>
  The clock helpers of \<^verbatim>\<open>include/common/TimeUtils.hpp\<close>.  The system clock is an input: the
  number of its ticks (nanoseconds) since the epoch, a signed integer, and for
  \<^verbatim>\<open>currentTimeString\<close> the broken-down local time of the same reading, which depends on the
  time zone of the machine.
\<close>

section \<open>The functions\<close>

definition NANOS_PER_MILLI :: int where
  "NANOS_PER_MILLI = 1000000"

text \<open>
  \<^verbatim>\<open>duration_cast<milliseconds>\<close> divides with truncation towards zero.
\<close>

definition duration_cast_ms :: "int \<Rightarrow> int" where
  "duration_cast_ms ticks = ticks sdiv NANOS_PER_MILLI"

definition now :: "int \<Rightarrow> u64" where
  "now ticks = word_of_int (duration_cast_ms ticks)"

record tm =
  tm_hour :: nat
  tm_min :: nat
  tm_sec :: nat

definition show_int :: "int \<Rightarrow> string" where
  "show_int i = (if i < 0 then CHR ''-'' # dec_string (nat (- i)) else dec_string (nat i))"

text \<open>
  \<^verbatim>\<open>std::setw\<close> with a fill character and the default right alignment.
\<close>

definition setw_right :: "char \<Rightarrow> nat \<Rightarrow> string \<Rightarrow> string" where
  "setw_right c w s = replicate (w - length s) c @ s"

text \<open>
  The conversions \<^verbatim>\<open>%H\<close>, \<^verbatim>\<open>%M\<close> and \<^verbatim>\<open>%S\<close> of \<^verbatim>\<open>std::put_time\<close> print two digits.
\<close>

definition two_digits :: "nat \<Rightarrow> string" where
  "two_digits n = setw_right (CHR ''0'') 2 (dec_string n)"

definition put_time_HMS :: "tm \<Rightarrow> string" where
  "put_time_HMS t = two_digits (tm_hour t) @ '':'' @ two_digits (tm_min t) @ '':'' @ two_digits (tm_sec t)"

definition currentTimeString :: "tm \<Rightarrow> int \<Rightarrow> string" where
  "currentTimeString t ticks =
     (let ms = duration_cast_ms ticks smod 1000
      in put_time_HMS t @ ''.'' @ setw_right (CHR ''0'') 3 (show_int ms))"

section \<open>The shape of a time stamp\<close>

lemma length_dec_string_le:
  "n < 10 ^ k \<Longrightarrow> 0 < k \<Longrightarrow> length (dec_string n) \<le> k"
proof (induction n arbitrary: k rule: dec_string.induct)
  case (1 n)
  show ?case
  proof (cases "n < 10")
    case True
    with 1 show ?thesis by (simp add: dec_string.simps [of n])
  next
    case False
    then obtain j where j: "k = Suc j" "0 < j"
      using 1(2,3) by (cases k; cases "k = 1") auto
    then have "n div 10 < 10 ^ j"
      using 1(2) by (simp add: less_mult_imp_div_less mult.commute)
    with 1(1) False j show ?thesis by (simp add: dec_string.simps [of n])
  qed
qed

lemma length_setw_right: "length (setw_right c w s) = max w (length s)"
  by (simp add: setw_right_def)

lemma length_two_digits: "n < 100 \<Longrightarrow> length (two_digits n) = 2"
  using length_dec_string_le [of n 2] by (simp add: two_digits_def length_setw_right)

definition tm_ok :: "tm \<Rightarrow> bool" where
  "tm_ok t \<longleftrightarrow> tm_hour t < 24 \<and> tm_min t < 60 \<and> tm_sec t \<le> 60"

lemma sdiv_nonneg: "0 \<le> a \<Longrightarrow> 0 < b \<Longrightarrow> a sdiv b = a div (b :: int)"
  by (cases "a = 0") (simp_all add: signed_divide_int_def)

lemma smod_nonneg: "0 \<le> a \<Longrightarrow> 0 < b \<Longrightarrow> a smod b = a mod (b :: int)"
  by (cases "a = 0") (simp_all add: signed_modulo_int_def)

lemma duration_cast_nonneg: "0 \<le> ticks \<Longrightarrow> duration_cast_ms ticks = ticks div 1000000"
  by (simp add: duration_cast_ms_def NANOS_PER_MILLI_def sdiv_nonneg)

lemma time_string_length:
  assumes "tm_ok t" "0 \<le> ticks"
  shows "length (currentTimeString t ticks) = 12"
proof -
  have ms: "0 \<le> duration_cast_ms ticks smod 1000" "duration_cast_ms ticks smod 1000 < 1000"
    using assms(2) by (simp_all add: duration_cast_nonneg smod_nonneg pos_imp_zdiv_nonneg_iff)
  then have "length (show_int (duration_cast_ms ticks smod 1000)) \<le> 3"
    using length_dec_string_le [of "nat (duration_cast_ms ticks smod 1000)" 3]
    by (simp add: show_int_def)
  with assms(1) show ?thesis
    by (simp add: currentTimeString_def put_time_HMS_def Let_def length_setw_right tm_ok_def
        length_two_digits)
qed

lemma now_nonneg: "0 \<le> ticks \<Longrightarrow> uint (now ticks) = ticks div 1000000 mod 2 ^ 64"
  by (simp add: now_def duration_cast_nonneg uint_word_of_int)

end
