(* ===== verification/Logger.thy ===== *)
theory Logger
  imports TimeUtils
begin

text \<open>
  The logger of \<^verbatim>\<open>src/monitor/Logger.cpp\<close> and its interface \<^verbatim>\<open>ILogger\<close>.  The first part
  models the members and the operations, each critical section a state transformer, and states the
  interface as a locale: whatever the messages are, the retained history is the end of the stamped
  sequence.  The second part is the interleaving of the worker thread with callers of
  \<^verbatim>\<open>log\<close> and with \<^verbatim>\<open>stop\<close>: a step relation in which the mutex, the condition
  variable and the atomic flag are explicit.
\<close>

section \<open>State and operations\<close>

record Logger =
  lg_queue :: "string list"
  lg_running :: bool
  lg_joinable :: bool
  lg_history :: "string list"

definition init_Logger :: Logger where
  "init_Logger = \<lparr>lg_queue = [], lg_running = False, lg_joinable = False, lg_history = []\<rparr>"

definition MAX_HISTORY :: nat where
  "MAX_HISTORY = 15"

text \<open>
  The entry pushed to the history; \<open>ts\<close> is the result of \<^verbatim>\<open>currentTimeString()\<close>.
\<close>

definition stamped :: "string \<Rightarrow> string \<Rightarrow> string" where
  "stamped ts msg = ''['' @ ts @ ''] '' @ msg"

definition Logger_log :: "string \<Rightarrow> string \<Rightarrow> Logger \<Rightarrow> Logger" where
  "Logger_log ts msg lg =
     (let lg1 = lg\<lparr>lg_queue := lg_queue lg @ [msg]\<rparr>;
          h = lg_history lg1 @ [stamped ts msg]
      in lg1\<lparr>lg_history := (if length h > MAX_HISTORY then tl h else h)\<rparr>)"

text \<open>
  Assigning a new thread to a joinable \<^verbatim>\<open>std::thread\<close> calls \<^verbatim>\<open>std::terminate\<close>: that is \<open>None\<close>.
\<close>

definition Logger_start :: "Logger \<Rightarrow> Logger option" where
  "Logger_start lg =
     (let lg1 = lg\<lparr>lg_running := True\<rparr>
      in if lg_joinable lg1 then None else Some (lg1\<lparr>lg_joinable := True\<rparr>))"

definition getRecentLogs :: "Logger \<Rightarrow> string list" where
  "getRecentLogs lg = lg_history lg"

text \<open>
  The inner loop of \<^verbatim>\<open>run\<close>: it pops until the queue is empty.
\<close>

fun pop_all :: "string list \<Rightarrow> string list" where
  "pop_all [] = []"
| "pop_all (_ # q) = pop_all q"

lemma pop_all_empty [simp]: "pop_all q = []"
  by (induction q) simp_all

section \<open>The logging interface\<close>

text \<open>
  The contract of \<^verbatim>\<open>ILogger::log\<close> for a sink that keeps a bounded history: a call appends its
  entry and only forgets from the old end.
\<close>

definition last_n :: "nat \<Rightarrow> 'a list \<Rightarrow> 'a list" where
  "last_n n xs = drop (length xs - n) xs"

lemma length_last_n [simp]: "length (last_n n xs) = min n (length xs)"
  by (simp add: last_n_def)

lemma last_n_all: "length xs \<le> n \<Longrightarrow> last_n n xs = xs"
  by (simp add: last_n_def)

lemma last_n_snoc: "0 < n \<Longrightarrow> last_n n (last_n n xs @ [x]) = last_n n (xs @ [x])"
  by (cases "n \<le> length xs") (simp_all add: last_n_def Suc_diff_le)

locale log_sink =
  fixes log_call :: "'c \<Rightarrow> string \<Rightarrow> 's \<Rightarrow> 's"
    and entries :: "'s \<Rightarrow> string list"
    and entry :: "'c \<Rightarrow> string \<Rightarrow> string"
    and capacity :: nat
  assumes capacity_pos: "0 < capacity"
    and entries_log:
      "length (entries s) \<le> capacity \<Longrightarrow>
       entries (log_call c m s) = last_n capacity (entries s @ [entry c m])"
begin

definition log_calls :: "('c \<times> string) list \<Rightarrow> 's \<Rightarrow> 's" where
  "log_calls calls s = fold (\<lambda>(c, m). log_call c m) calls s"

lemma entries_bounded:
  "length (entries s) \<le> capacity \<Longrightarrow> length (entries (log_calls calls s)) \<le> capacity"
  by (induction calls arbitrary: s) (auto simp: log_calls_def entries_log)

lemma entries_log_calls:
  assumes "length (entries s) \<le> capacity"
  shows "entries (log_calls calls s) =
    last_n capacity (entries s @ map (\<lambda>(c, m). entry c m) calls)"
proof (induction calls rule: rev_induct)
  case Nil
  with assms show ?case by (simp add: log_calls_def last_n_all)
next
  case (snoc call calls)
  obtain c m where call: "call = (c, m)" by (cases call)
  have "entries (log_calls (calls @ [call]) s) =
      last_n capacity (entries (log_calls calls s) @ [entry c m])"
    using entries_log [OF entries_bounded [OF assms]] by (simp add: log_calls_def call)
  with snoc capacity_pos show ?case
    by (simp add: call last_n_snoc flip: append_assoc)
qed

lemma newest_entry:
  "length (entries s) \<le> capacity \<Longrightarrow>
   entries (log_call c m s) \<noteq> [] \<and> last (entries (log_call c m s)) = entry c m"
  using capacity_pos by (simp add: entries_log last_n_def)

end

lemma Logger_log_history:
  "length (lg_history lg) \<le> MAX_HISTORY \<Longrightarrow>
   lg_history (Logger_log ts msg lg) = last_n MAX_HISTORY (lg_history lg @ [stamped ts msg])"
  by (cases "length (lg_history lg) = MAX_HISTORY"; cases "lg_history lg")
    (simp_all add: Logger_log_def Let_def last_n_def drop_Suc MAX_HISTORY_def)

interpretation logger_sink: log_sink Logger_log getRecentLogs stamped MAX_HISTORY
  by unfold_locales (simp_all add: MAX_HISTORY_def getRecentLogs_def Logger_log_history [unfolded MAX_HISTORY_def])

definition log_all :: "(string \<times> string) list \<Rightarrow> Logger \<Rightarrow> Logger" where
  "log_all calls lg = fold (\<lambda>(ts, msg). Logger_log ts msg) calls lg"

lemma log_all_calls: "log_all calls lg = logger_sink.log_calls calls lg"
  by (simp add: log_all_def logger_sink.log_calls_def)

lemma Logger_log_fields [simp]:
  "lg_queue (Logger_log ts msg lg) = lg_queue lg @ [msg]"
  "lg_running (Logger_log ts msg lg) = lg_running lg"
  "lg_joinable (Logger_log ts msg lg) = lg_joinable lg"
  by (simp_all add: Logger_log_def Let_def)

text \<open>
  The log shown to the operator is exactly the newest entries: after any sequence of calls of
  log on a fresh logger, getRecentLogs returns the last 15 of the stamped messages, in call order,
  and all of them when there were at most 15.
\<close>

lemma recent_logs_window:
  "getRecentLogs (log_all calls init_Logger) =
   drop (length calls - 15) (map (\<lambda>(ts, msg). ''['' @ ts @ ''] '' @ msg) calls)"
proof -
  have "(\<lambda>(ts, msg). stamped ts msg) = (\<lambda>(ts, msg). ''['' @ ts @ ''] '' @ msg)"
    by (simp add: stamped_def)
  then show ?thesis
    using logger_sink.entries_log_calls [of init_Logger calls]
    by (simp add: log_all_calls last_n_def getRecentLogs_def init_Logger_def MAX_HISTORY_def)
qed

section \<open>Threads\<close>

text \<open>
  Program counters of the worker: \<open>Test\<close> is the condition of the outer loop, \<open>Acquire\<close> the
  construction of the lock, \<open>Predicate\<close> the evaluation of the wait predicate under the lock,
  \<open>Blocking\<close> the moment in \<^verbatim>\<open>cv.wait\<close> after the predicate was false and before the thread
  sleeps (the lock is still held), \<open>Blocked\<close> asleep with the lock released, \<open>Reacquire\<close> woken,
  \<open>Drain\<close> the inner loop.  Those of the caller of \<^verbatim>\<open>stop\<close> follow its three statements.
\<close>

datatype worker_pc =
  NotStarted | Test | Acquire | Predicate | Blocking | Blocked | Reacquire | Drain | Finished

datatype stop_pc = NotCalled | Notifying | Joining | Stopped

record LoggerThreads =
  lt_logger :: Logger
  lt_worker :: worker_pc
  lt_notifiers :: nat
  lt_stop :: stop_pc
  lt_logged :: "(string \<times> string) list"

definition init_LoggerThreads :: LoggerThreads where
  "init_LoggerThreads =
     \<lparr>lt_logger = init_Logger, lt_worker = NotStarted, lt_notifiers = 0, lt_stop = NotCalled, lt_logged = []\<rparr>"

definition holds_mutex :: "worker_pc \<Rightarrow> bool" where
  "holds_mutex pc \<longleftrightarrow> pc \<in> {Predicate, Blocking, Drain}"

text \<open>
  One step of \<^verbatim>\<open>Logger::run\<close>; \<open>None\<close> when the thread cannot move by itself.
\<close>

fun Logger_run_step :: "Logger \<Rightarrow> worker_pc \<Rightarrow> (Logger \<times> worker_pc) option" where
  "Logger_run_step lg NotStarted = None"
| "Logger_run_step lg Test = Some (lg, if lg_running lg then Acquire else Finished)"
| "Logger_run_step lg Acquire = Some (lg, Predicate)"
| "Logger_run_step lg Predicate =
     Some (lg, if lg_queue lg \<noteq> [] \<or> \<not> lg_running lg then Drain else Blocking)"
| "Logger_run_step lg Blocking = Some (lg, Blocked)"
| "Logger_run_step lg Blocked = None"
| "Logger_run_step lg Reacquire = Some (lg, Predicate)"
| "Logger_run_step lg Drain = Some (lg\<lparr>lg_queue := pop_all (lg_queue lg)\<rparr>, Test)"
| "Logger_run_step lg Finished = None"

definition notified :: "worker_pc \<Rightarrow> worker_pc" where
  "notified pc = (if pc = Blocked then Reacquire else pc)"

text \<open>
  The statements of \<^verbatim>\<open>Logger::stop\<close>: clear the flag, notify, join a joinable worker, which
  succeeds once the worker has finished.
\<close>

fun Logger_stop_step :: "stop_pc \<Rightarrow> Logger \<Rightarrow> worker_pc \<Rightarrow> (stop_pc \<times> Logger \<times> worker_pc) option" where
  "Logger_stop_step NotCalled lg w = Some (Notifying, lg\<lparr>lg_running := False\<rparr>, w)"
| "Logger_stop_step Notifying lg w = Some (Joining, lg, notified w)"
| "Logger_stop_step Joining lg w =
     (if \<not> lg_joinable lg then Some (Stopped, lg, w)
      else if w = Finished then Some (Stopped, lg\<lparr>lg_joinable := False\<rparr>, w)
      else None)"
| "Logger_stop_step Stopped lg w = None"

inductive logger_step :: "LoggerThreads \<Rightarrow> LoggerThreads \<Rightarrow> bool" where
  start: "lt_worker s = NotStarted \<Longrightarrow> lt_stop s = NotCalled \<Longrightarrow>
    Logger_start (lt_logger s) = Some lg \<Longrightarrow>
    logger_step s (s\<lparr>lt_logger := lg, lt_worker := Test\<rparr>)"
| log_section: "\<not> holds_mutex (lt_worker s) \<Longrightarrow>
    logger_step s (s\<lparr>lt_logger := Logger_log ts msg (lt_logger s),
      lt_notifiers := Suc (lt_notifiers s), lt_logged := lt_logged s @ [(ts, msg)]\<rparr>)"
| log_notify: "lt_notifiers s = Suc n \<Longrightarrow>
    logger_step s (s\<lparr>lt_worker := notified (lt_worker s), lt_notifiers := n\<rparr>)"
| worker: "Logger_run_step (lt_logger s) (lt_worker s) = Some (lg, w) \<Longrightarrow>
    logger_step s (s\<lparr>lt_logger := lg, lt_worker := w\<rparr>)"
| spurious: "lt_worker s = Blocked \<Longrightarrow> logger_step s (s\<lparr>lt_worker := Reacquire\<rparr>)"
| stop: "Logger_stop_step (lt_stop s) (lt_logger s) (lt_worker s) = Some (p, lg, w) \<Longrightarrow>
    logger_step s (s\<lparr>lt_stop := p, lt_logger := lg, lt_worker := w\<rparr>)"

inductive_cases logger_stepE: "logger_step s s'"

inductive logger_reachable :: "LoggerThreads \<Rightarrow> bool" where
  init: "logger_reachable init_LoggerThreads"
| step: "logger_reachable s \<Longrightarrow> logger_step s s' \<Longrightarrow> logger_reachable s'"

section \<open>Invariants of the logger threads\<close>

definition data_inv :: "LoggerThreads \<Rightarrow> bool" where
  "data_inv s \<longleftrightarrow>
     suffix (lg_queue (lt_logger s)) (map snd (lt_logged s)) \<and>
     lg_history (lt_logger s) = last_n MAX_HISTORY (map (\<lambda>(ts, msg). stamped ts msg) (lt_logged s))"

definition wakeup_inv :: "LoggerThreads \<Rightarrow> bool" where
  "wakeup_inv s \<longleftrightarrow>
     (lt_worker s = Blocking \<longrightarrow> lg_queue (lt_logger s) = []) \<and>
     (lt_worker s = Blocked \<longrightarrow> lg_queue (lt_logger s) \<noteq> [] \<longrightarrow> 0 < lt_notifiers s)"

definition stop_inv :: "LoggerThreads \<Rightarrow> bool" where
  "stop_inv s \<longleftrightarrow>
     (lt_stop s \<noteq> NotCalled \<longrightarrow> \<not> lg_running (lt_logger s)) \<and>
     (lt_worker s = Finished \<longrightarrow> \<not> lg_running (lt_logger s)) \<and>
     (lg_joinable (lt_logger s) \<longleftrightarrow> lt_worker s \<noteq> NotStarted \<and> lt_stop s \<noteq> Stopped) \<and>
     (lt_stop s = Stopped \<longrightarrow> lt_worker s \<in> {NotStarted, Finished})"

lemma run_step_data:
  assumes "Logger_run_step lg pc = Some (lg', pc')"
  shows "lg_history lg' = lg_history lg" "suffix (lg_queue lg') (lg_queue lg)"
    "lg_running lg' = lg_running lg" "lg_joinable lg' = lg_joinable lg"
  using assms by (cases pc; auto)+

lemma stop_step_data:
  assumes "Logger_stop_step p lg w = Some (p', lg', w')"
  shows "lg_history lg' = lg_history lg" "lg_queue lg' = lg_queue lg"
    "w' = w \<or> w' = notified w"
  using assms by (cases p; auto split: if_splits)+

lemma start_data:
  assumes "Logger_start lg = Some lg'"
  shows "lg_history lg' = lg_history lg" "lg_queue lg' = lg_queue lg" "lg_running lg'" "lg_joinable lg'"
  using assms by (auto simp: Logger_start_def Let_def split: if_splits)

lemma data_inv_log:
  assumes "data_inv s"
  shows "data_inv (s\<lparr>lt_logger := Logger_log ts msg (lt_logger s), lt_notifiers := n,
    lt_logged := lt_logged s @ [(ts, msg)]\<rparr>)"
  using assms Logger_log_history [of "lt_logger s" ts msg]
  by (simp add: data_inv_def last_n_snoc MAX_HISTORY_def)

lemma data_inv_step: "logger_step s s' \<Longrightarrow> data_inv s \<Longrightarrow> data_inv s'"
proof (induction rule: logger_step.induct)
  case (log_section s ts msg)
  then show ?case by (simp add: data_inv_log)
next
  case (worker s lg w)
  then show ?case
    by (auto simp: data_inv_def dest: run_step_data intro: suffix_order.trans)
qed (simp_all add: data_inv_def start_data stop_step_data)

lemma wakeup_inv_step: "logger_step s s' \<Longrightarrow> wakeup_inv s \<Longrightarrow> wakeup_inv s'"
proof (induction rule: logger_step.induct)
  case (log_section s ts msg)
  then show ?case by (auto simp: wakeup_inv_def holds_mutex_def)
next
  case (worker s lg w)
  then show ?case
    by (cases "lt_worker s") (auto simp: wakeup_inv_def split: if_splits)
next
  case (stop s p lg w)
  then show ?case
    by (cases "lt_stop s") (auto simp: wakeup_inv_def notified_def split: if_splits)
qed (auto simp: wakeup_inv_def notified_def)

lemma stop_inv_step: "logger_step s s' \<Longrightarrow> stop_inv s \<Longrightarrow> stop_inv s'"
proof (induction rule: logger_step.induct)
  case (start s lg)
  then show ?case by (auto simp: stop_inv_def start_data)
next
  case (worker s lg w)
  then show ?case
    by (cases "lt_worker s") (auto simp: stop_inv_def split: if_splits)
next
  case (stop s p lg w)
  then show ?case
    by (cases "lt_stop s") (auto simp: stop_inv_def notified_def split: if_splits)
qed (auto simp: stop_inv_def notified_def)

lemma logger_reachable_inv:
  "logger_reachable s \<Longrightarrow> data_inv s \<and> wakeup_inv s \<and> stop_inv s"
proof (induction rule: logger_reachable.induct)
  case init
  show ?case
    by (simp add: init_LoggerThreads_def init_Logger_def data_inv_def wakeup_inv_def stop_inv_def
        last_n_def)
next
  case (step s s')
  then show ?case by (simp add: data_inv_step wakeup_inv_step stop_inv_step)
qed

section \<open>What the threads guarantee\<close>

text \<open>
  C14: in every interleaving of log, the worker and stop, the pending queue is the end of the sequence
  of logged messages, the history is the window of the newest 15 stamped entries, and no message is
  stranded: a worker asleep on a non-empty queue has a notification on its way.  Once stop has
  returned the worker has finished (or was never started).
\<close>

theorem logger_threads_invariant:
  assumes "logger_reachable s"
  shows "suffix (lg_queue (lt_logger s)) (map snd (lt_logged s)) \<and>
    getRecentLogs (lt_logger s) = last_n 15 (map (\<lambda>(ts, msg). stamped ts msg) (lt_logged s)) \<and>
    (lt_worker s = Blocked \<and> lg_queue (lt_logger s) \<noteq> [] \<longrightarrow> 0 < lt_notifiers s) \<and>
    (lt_stop s = Stopped \<longrightarrow> lt_worker s \<in> {NotStarted, Finished})"
  using logger_reachable_inv [OF assms]
  by (auto simp: data_inv_def wakeup_inv_def stop_inv_def getRecentLogs_def MAX_HISTORY_def)

definition example_threads :: LoggerThreads where
  "example_threads = init_LoggerThreads
     \<lparr>lt_logger := Logger_log ''12:00:00.000'' ''Gateway started'' init_Logger,
      lt_notifiers := 1, lt_logged := [(''12:00:00.000'', ''Gateway started'')]\<rparr>"

theorem logger_threads_invariant_witness:
  "getRecentLogs (lt_logger example_threads) = [''[12:00:00.000] Gateway started'']"
proof -
  have "logger_step init_LoggerThreads example_threads"
    using log_section [of init_LoggerThreads "''12:00:00.000''" "''Gateway started''"]
    by (simp add: example_threads_def init_LoggerThreads_def holds_mutex_def)
  with logger_reachable.init have "logger_reachable example_threads"
    by (rule logger_reachable.step)
  from logger_threads_invariant [OF this] show ?thesis
    by (simp add: example_threads_def last_n_def stamped_def)
qed

text \<open>
  A run of the worker alone.
\<close>

fun worker_run :: "nat \<Rightarrow> Logger \<times> worker_pc \<Rightarrow> Logger \<times> worker_pc" where
  "worker_run 0 c = c"
| "worker_run (Suc n) (lg, w) =
     (case Logger_run_step lg w of None \<Rightarrow> (lg, w) | Some c \<Rightarrow> worker_run n c)"

lemma worker_run_none: "Logger_run_step lg w = None \<Longrightarrow> worker_run n (lg, w) = (lg, w)"
  by (cases n) simp_all

text \<open>
  Once the flag is cleared, a started worker that is neither asleep nor about to fall asleep
  finishes within four of its own steps, whatever the queue holds, and then the join of stop succeeds.
\<close>

lemma logger_worker_exits:
  assumes "\<not> lg_running lg" "w \<notin> {NotStarted, Blocking, Blocked}"
  shows "snd (worker_run 4 (lg, w)) = Finished \<and>
    (\<exists>lg'. Logger_stop_step Joining (fst (worker_run 4 (lg, w))) (snd (worker_run 4 (lg, w))) =
       Some (Stopped, lg', Finished))"
proof -
  obtain lg' where "worker_run 4 (lg, w) = (lg', Finished)"
    using assms by (cases w) (auto simp: numeral_eq_Suc)
  then show ?thesis by simp
qed

text \<open>
  A state of the threads of a started logger without notifications under way.
\<close>

definition threads_at :: "Logger \<Rightarrow> bool \<Rightarrow> worker_pc \<Rightarrow> stop_pc \<Rightarrow> LoggerThreads" where
  "threads_at lg running w p =
     \<lparr>lt_logger = lg\<lparr>lg_running := running\<rparr>, lt_worker = w, lt_notifiers = 0, lt_stop = p, lt_logged = []\<rparr>"

definition started_Logger :: Logger where
  "started_Logger = init_Logger\<lparr>lg_running := True, lg_joinable := True\<rparr>"

lemma reachable_started: "logger_reachable (threads_at started_Logger True Test NotCalled)"
proof -
  have "logger_step init_LoggerThreads (threads_at started_Logger True Test NotCalled)"
    using start [of init_LoggerThreads started_Logger]
    by (simp add: init_LoggerThreads_def Logger_start_def init_Logger_def started_Logger_def threads_at_def)
  with logger_reachable.init show ?thesis by (rule logger_reachable.step)
qed

lemma threads_at_worker:
  assumes "logger_reachable (threads_at lg r w p)"
    and "Logger_run_step (lg\<lparr>lg_running := r\<rparr>) w = Some (lg\<lparr>lg_running := r\<rparr>, w')"
  shows "logger_reachable (threads_at lg r w' p)"
  using logger_reachable.step [OF assms(1) worker] assms(2) by (simp add: threads_at_def)

lemma threads_at_stop:
  assumes "logger_reachable (threads_at lg r w p)"
    and "Logger_stop_step p (lg\<lparr>lg_running := r\<rparr>) w = Some (p', lg\<lparr>lg_running := r'\<rparr>, w')"
  shows "logger_reachable (threads_at lg r' w' p')"
  using logger_reachable.step [OF assms(1) stop] assms(2) by (simp add: threads_at_def)

lemma reachable_blocking: "logger_reachable (threads_at started_Logger True Blocking NotCalled)"
proof -
  note reachable_started
  from threads_at_worker [OF this, of Acquire] have "logger_reachable (threads_at started_Logger True Acquire NotCalled)"
    by simp
  from threads_at_worker [OF this, of Predicate] have "logger_reachable (threads_at started_Logger True Predicate NotCalled)"
    by simp
  from threads_at_worker [OF this, of Blocking] show ?thesis
    by (simp add: started_Logger_def init_Logger_def)
qed

text \<open>
  C30: stop can hang: it clears the flag and notifies without holding the mutex, so both can fall
  between the worker's evaluation of the wait predicate and its falling asleep.  The reachable state
  has stop waiting in join and the worker asleep, nothing is pending, and the only steps left are a
  spurious wake-up or another call of log.
\<close>

theorem logger_stop_lost_wakeup:
  "\<exists>s. logger_reachable s \<and> lt_stop s = Joining \<and> lt_worker s = Blocked \<and> lt_notifiers s = 0 \<and>
     {s'. logger_step s s' \<and> lt_logged s' = lt_logged s} = {s\<lparr>lt_worker := Reacquire\<rparr>}"
proof -
  let ?s = "threads_at started_Logger False Blocked Joining"
  note reachable_blocking
  from threads_at_stop [OF this, of Notifying False Blocking]
  have "logger_reachable (threads_at started_Logger False Blocking Notifying)" by simp
  from threads_at_stop [OF this, of Joining False Blocking]
  have "logger_reachable (threads_at started_Logger False Blocking Joining)"
    by (simp add: notified_def)
  from threads_at_worker [OF this, of Blocked] have "logger_reachable ?s" by simp
  moreover have "s' = ?s\<lparr>lt_worker := Reacquire\<rparr> \<or> lt_logged s' \<noteq> lt_logged ?s"
    if "logger_step ?s s'" for s'
    using that by (cases rule: logger_step.cases)
      (auto simp: threads_at_def started_Logger_def init_Logger_def)
  moreover have "logger_step ?s (?s\<lparr>lt_worker := Reacquire\<rparr>)"
    by (rule spurious) (simp add: threads_at_def)
  ultimately have "{s'. logger_step ?s s' \<and> lt_logged s' = lt_logged ?s} = {?s\<lparr>lt_worker := Reacquire\<rparr>}"
    by auto
  with \<open>logger_reachable ?s\<close> show ?thesis by (intro exI [of _ ?s]) (simp add: threads_at_def)
qed

text \<open>
  C31: stop does not wait for pending messages: a worker that tests the flag after it was cleared
  leaves with the queue non-empty, and stop returns.
\<close>

theorem logger_stop_leaves_messages:
  "\<exists>s. logger_reachable s \<and> lt_stop s = Stopped \<and> lt_worker s = Finished \<and>
     lg_queue (lt_logger s) \<noteq> [] \<and> map snd (lt_logged s) = lg_queue (lt_logger s)"
proof -
  let ?lg = "Logger_log ''t'' ''m'' started_Logger"
  let ?s = "\<lambda>lg w p. \<lparr>lt_logger = lg, lt_worker = w, lt_notifiers = 1, lt_stop = p, lt_logged = [(''t'', ''m'')]\<rparr>"
  have "logger_reachable (?s ?lg Test NotCalled)"
    using logger_reachable.step [OF reachable_started log_section [of _ "''t''" "''m''"]]
    by (simp add: threads_at_def holds_mutex_def started_Logger_def init_Logger_def)
  from logger_reachable.step [OF this stop]
  have "logger_reachable (?s (?lg\<lparr>lg_running := False\<rparr>) Test Notifying)" by simp
  from logger_reachable.step [OF this stop]
  have "logger_reachable (?s (?lg\<lparr>lg_running := False\<rparr>) Test Joining)" by (simp add: notified_def)
  from logger_reachable.step [OF this worker]
  have "logger_reachable (?s (?lg\<lparr>lg_running := False\<rparr>) Finished Joining)" by simp
  from logger_reachable.step [OF this stop]
  have "logger_reachable (?s (?lg\<lparr>lg_running := False, lg_joinable := False\<rparr>) Finished Stopped)"
    by (simp add: started_Logger_def)
  then show ?thesis
    by (intro exI conjI) (assumption, simp_all add: started_Logger_def init_Logger_def)
qed

end
