(* ===== verification/ConsoleRenderer.thy ===== *)
theory ConsoleRenderer
  imports TcpServer Logger
begin

text \<open>
  The dashboard of \<^verbatim>\<open>src/ui/ConsoleRenderer.cpp\<close>.  What \<^verbatim>\<open>render\<close> writes to the
  console, after the screen has been cleared, is a function of the logger, of the view its statistics
  have of the gateway and of the server.
\<close>

section \<open>Text of the dashboard\<close>

definition SYSTEM_WIDTH :: nat where
  "SYSTEM_WIDTH = 75"

definition TCP_WIDTH :: nat where
  "TCP_WIDTH = 24"

text \<open>
  The size of the text is cast to a 32-bit \<^verbatim>\<open>int\<close> before it is compared.  A text of two
  gigabytes or more can pass for a short one; the padding then has a negative length and the
  program throws, where this definition adds none.  The texts of the program are far from that: a
  command has at most \<^verbatim>\<open>MAX_PACKET_SIZE\<close> characters.  The theorems assume shorter texts.
\<close>

definition fitText :: "string \<Rightarrow> nat \<Rightarrow> string" where
  "fitText txt width =
     (if sint (word_of_nat (length txt) :: 32 word) \<le> int width
      then txt @ replicate (width - length txt) CHR '' ''
      else take (width - 3) txt @ ''...'')"

definition renderHeader :: string where
  "renderHeader =
     ''+--------------------------------------------------------------------------------------------------------+'' @ nl @
     ''|                                         SMART SENSOR NETWORK                                           |'' @ nl @
     ''|                                  Distributed Embedded Telemetry System                                 |'' @ nl @
     ''+--------------------------------------------------------------------------------------------------------+'' @ nl"

definition tcpPanel :: "SystemStats \<Rightarrow> TcpServer \<Rightarrow> string list" where
  "tcpPanel st ts =
     [''Client: '' @ (if isClientConnected ts then ''CONNECTED'' else ''DISCONNECTED''),
      ''Port: 8080'',
      ''Last command: '' @ getLastCommand ts,
      [],
      ''=== STATISTICS ==='',
      [],
      ''Total sensors : '' @ show_word (ss_totalSensors st),
      ''Telemetry     : '' @ show_word (ss_telemetryPackets st),
      ''Heartbeat     : '' @ show_word (ss_heartbeatPackets st),
      ''Online        : '' @ show_word (hc_online (ss_health st)),
      ''Offline       : '' @ show_word (hc_offline (ss_health st))]"

definition panel_frame :: string where
  "panel_frame =
     ''+-----------------------------------------------------------------------------+--------------------------+''"

definition panel_title :: "string list" where
  "panel_title =
     [panel_frame,
      ''| SYSTEM LOG                                                                  | TCP MONITOR              |'',
      ''|-----------------------------------------------------------------------------|--------------------------|'']"

definition panel_row :: "string list \<Rightarrow> string list \<Rightarrow> nat \<Rightarrow> string" where
  "panel_row logs panel i =
     (let logLine = (if i < length logs then logs ! i else []);
          tcpLine = (if i < length panel then panel ! i else [])
      in ''| '' @ fitText logLine SYSTEM_WIDTH @ '' | '' @ fitText tcpLine TCP_WIDTH @ '' |'')"

definition renderLogs :: "Logger \<Rightarrow> view \<Rightarrow> TcpServer \<Rightarrow> string" where
  "renderLogs lg v ts =
     (let logs = getRecentLogs lg;
          st = getStats v;
          panel = tcpPanel st ts;
          maxLines = max (length logs) (length panel)
      in concat (map (\<lambda>l. l @ nl) panel_title) @
         concat (map (\<lambda>i. panel_row logs panel i @ nl) [0..<maxLines]) @
         panel_frame @ nl)"

definition renderArchitecture :: string where
  "renderArchitecture =
     ''+--------------------------------------------------------------------------------------------------------+'' @ nl @
     ''| Architecture: Sensor Nodes --> UDP --> Gateway --> TCP --> Monitor                                     |'' @ nl @
     ''+--------------------------------------------------------------------------------------------------------+'' @ nl @ nl @
     ''[SYSTEM] Type '' @ [CHR 0x27] @ ''help'' @ [CHR 0x27] @ '' to view available commands'' @ nl @
     ''[SYSTEM] Press ENTER to shutdown...''"

definition renderFooter :: string where
  "renderFooter = nl"

definition render :: "Logger \<Rightarrow> view \<Rightarrow> TcpServer \<Rightarrow> string" where
  "render lg v ts =
     renderHeader @ nl @ renderLogs lg v ts @ nl @ renderArchitecture @ nl @ renderFooter"

section \<open>Layout\<close>

lemma sint_of_size: "n < 2 ^ 31 \<Longrightarrow> sint (word_of_nat n :: 32 word) = int n"
  by (simp add: signed_of_nat signed_take_bit_int_eq_self)

lemma fitText_eq:
  "length txt < 2 ^ 31 \<Longrightarrow>
   fitText txt width =
     (if length txt \<le> width then txt @ replicate (width - length txt) CHR '' ''
      else take (width - 3) txt @ ''...'')"
  by (simp add: fitText_def sint_of_size)

lemma length_fitText: "length txt < 2 ^ 31 \<Longrightarrow> 3 \<le> width \<Longrightarrow> length (fitText txt width) = width"
  by (cases "length txt \<le> width") (simp_all add: fitText_eq)

lemma panel_title_width: "\<forall>l\<in>set panel_title. length l = 106" "length panel_frame = 106"
  by (simp_all add: panel_title_def panel_frame_def)

lemma panel_row_width:
  assumes "\<forall>l\<in>set logs. length l < 2 ^ 31" "\<forall>l\<in>set panel. length l < 2 ^ 31"
  shows "length (panel_row logs panel i) = 106"
  using assms by (simp add: panel_row_def Let_def length_fitText SYSTEM_WIDTH_def TCP_WIDTH_def)

lemma length_show_u64: "length (show_word (w :: u64)) \<le> 20"
proof -
  have "unat w < 2 ^ 64" using unsigned_less [of w, where ?'a = nat] by simp
  then show ?thesis
    using length_dec_string_le [of "unat w" 20] by (simp add: show_word_def)
qed

lemma tcpPanel_short:
  assumes "length (getLastCommand ts) < 2 ^ 30"
  shows "\<forall>l\<in>set (tcpPanel st ts). length l < 2 ^ 31"
  using assms length_show_u64 [of "ss_totalSensors st"] length_show_u64 [of "ss_telemetryPackets st"]
    length_show_u64 [of "ss_heartbeatPackets st"] length_show_u64 [of "hc_online (ss_health st)"]
    length_show_u64 [of "hc_offline (ss_health st)"]
  by (simp add: tcpPanel_def)

section \<open>Lines\<close>

text \<open>
  The lines a terminal shows for a text.
\<close>

fun lines_of :: "string \<Rightarrow> string list" where
  "lines_of [] = []"
| "lines_of (c # cs) =
     (if [c] = nl then [] # lines_of cs
      else case lines_of cs of [] \<Rightarrow> [[c]] | l # ls \<Rightarrow> (c # l) # ls)"

definition newlines :: "string \<Rightarrow> nat" where
  "newlines s = length (filter (\<lambda>c. [c] = nl) s)"

lemma newlines_simps [simp]:
  "newlines [] = 0" "newlines (c # cs) = (if [c] = nl then Suc (newlines cs) else newlines cs)"
  "newlines (s @ s') = newlines s + newlines s'"
  by (simp_all add: newlines_def)

lemma lines_of_not_Nil: "lines_of (s @ nl) \<noteq> []"
  by (induction s) (auto simp: nl_def split: list.splits)

lemma lines_of_append: "lines_of (s @ nl @ s') = lines_of (s @ nl) @ lines_of s'"
proof (induction s)
  case (Cons c s)
  then show ?case using lines_of_not_Nil [of s] by (cases "lines_of (s @ nl)") simp_all
qed (simp add: nl_def)

lemma lines_of_concat: "lines_of (concat (map (\<lambda>r. r @ nl) rows)) = concat (map (\<lambda>r. lines_of (r @ nl)) rows)"
  by (induction rows) (simp_all add: lines_of_append)

lemma length_lines_of: "length (lines_of (s @ nl)) = Suc (newlines s)"
proof (induction s)
  case (Cons c s)
  then show ?case using lines_of_not_Nil [of s] by (cases "lines_of (s @ nl)") auto
qed (simp add: nl_def)

lemma size_lines_of: "sum_list (map length (lines_of (s @ nl))) + newlines s = length s"
proof (induction s)
  case (Cons c s)
  then show ?case using lines_of_not_Nil [of s] by (cases "lines_of (s @ nl)") auto
qed (simp add: nl_def)

text \<open>
  A row of width \<open>w\<close> is one line of that width, or several of which not all have it.
\<close>

lemma lines_of_width:
  assumes "length r = w" "0 < w"
  shows "(\<forall>l\<in>set (lines_of (r @ nl)). length l = w) \<longleftrightarrow> newlines r = 0"
proof
  assume all: "\<forall>l\<in>set (lines_of (r @ nl)). length l = w"
  then have "map length (lines_of (r @ nl)) = replicate (length (lines_of (r @ nl))) w"
    by (simp add: map_replicate_const [symmetric])
  then have "sum_list (map length (lines_of (r @ nl))) = Suc (newlines r) * w"
    by (simp add: sum_list_replicate length_lines_of)
  then have "Suc (newlines r) * w + newlines r = w"
    using size_lines_of [of r] assms(1) by simp
  then show "newlines r = 0" by simp
next
  assume none: "newlines r = 0"
  then obtain l where "lines_of (r @ nl) = [l]"
    using length_lines_of [of r] by (auto simp: length_Suc_conv)
  with size_lines_of [of r] none assms(1) show "\<forall>l\<in>set (lines_of (r @ nl)). length l = w" by simp
qed

section \<open>Properties of the dashboard\<close>

text \<open>
  A row shows one entry of each column; entries past the end of a column show nothing.
\<close>

lemma sum_padded:
  fixes f :: "string \<Rightarrow> nat"
  assumes "f [] = 0" "length xs \<le> m"
  shows "(\<Sum>i\<leftarrow>[0..<m]. f (if i < length xs then xs ! i else [])) = (\<Sum>x\<leftarrow>xs. f x)"
proof -
  have "[0..<m] = [0..<length xs] @ [length xs..<m]"
    using upt_add_eq_append [of 0 "length xs" "m - length xs"] assms(2) by simp
  moreover have "(\<Sum>i\<leftarrow>[0..<length xs]. f (if i < length xs then xs ! i else [])) = (\<Sum>i\<leftarrow>[0..<length xs]. f (xs ! i))"
    by (intro arg_cong [of _ _ sum_list] map_cong) auto
  moreover have "\<dots> = (\<Sum>x\<leftarrow>xs. f x)"
    using arg_cong [OF map_nth [of xs], of "\<lambda>ys. sum_list (map f ys)"] by (simp add: comp_def)
  moreover have "(\<Sum>i\<leftarrow>[length xs..<m]. f (if i < length xs then xs ! i else [])) = 0"
    using assms(1) by simp
  ultimately show ?thesis by simp
qed

lemma newlines_panel_row:
  "newlines (panel_row logs panel i) =
     newlines (fitText (if i < length logs then logs ! i else []) SYSTEM_WIDTH) +
     newlines (fitText (if i < length panel then panel ! i else []) TCP_WIDTH)"
  by (simp add: panel_row_def Let_def) (simp add: nl_def)

lemma newlines_padding [simp]: "newlines (fitText [] w) = 0"
  by (simp add: fitText_eq newlines_def nl_def)

lemma newlines_title: "\<forall>l\<in>set panel_title. newlines l = 0" "newlines panel_frame = 0"
  by (simp_all add: panel_title_def panel_frame_def nl_def)

lemma lines_of_rows:
  assumes "\<forall>r\<in>set rows. length r = w" "0 < w"
  shows "length (lines_of (concat (map (\<lambda>r. r @ nl) rows))) = length rows + sum_list (map newlines rows)"
    "(\<forall>l\<in>set (lines_of (concat (map (\<lambda>r. r @ nl) rows))). length l = w) \<longleftrightarrow> (\<forall>r\<in>set rows. newlines r = 0)"
proof -
  show "length (lines_of (concat (map (\<lambda>r. r @ nl) rows))) = length rows + sum_list (map newlines rows)"
    unfolding lines_of_concat by (induction rows) (simp_all add: length_lines_of)
  have "(\<forall>l\<in>set (lines_of (r @ nl)). length l = w) \<longleftrightarrow> newlines r = 0" if "r \<in> set rows" for r
    using lines_of_width assms that by blast
  then show "(\<forall>l\<in>set (lines_of (concat (map (\<lambda>r. r @ nl) rows))). length l = w) \<longleftrightarrow> (\<forall>r\<in>set rows. newlines r = 0)"
    unfolding lines_of_concat by auto
qed

text \<open>
  The panel as lines on a terminal, for columns whose entries have a possible size.
\<close>

lemma renderLogs_lines:
  fixes v :: view
  assumes "\<forall>l\<in>set (getRecentLogs lg). length l < 2 ^ 31" "length (getLastCommand srv) < 2 ^ 30"
  defines "texts \<equiv> map (\<lambda>l. fitText l SYSTEM_WIDTH) (getRecentLogs lg) @
      map (\<lambda>l. fitText l TCP_WIDTH) (tcpPanel (getStats v) srv)"
  shows "length (lines_of (renderLogs lg v srv)) = 4 + max (length (getRecentLogs lg)) 11 + sum_list (map newlines texts)"
    "(\<forall>l\<in>set (lines_of (renderLogs lg v srv)). length l = 106) \<longleftrightarrow> (\<forall>t\<in>set texts. newlines t = 0)"
proof -
  let ?logs = "getRecentLogs lg" and ?panel = "tcpPanel (getStats v) srv"
  let ?n = "max (length ?logs) (length ?panel)"
  let ?rows = "panel_title @ map (panel_row ?logs ?panel) [0..<?n] @ [panel_frame]"
  have render: "renderLogs lg v srv = concat (map (\<lambda>r. r @ nl) ?rows)"
    by (simp add: renderLogs_def Let_def comp_def)
  have width: "\<forall>r\<in>set ?rows. length r = 106"
    using panel_title_width panel_row_width [OF assms(1) tcpPanel_short [OF assms(2)]] by auto
  have "sum_list (map newlines (map (panel_row ?logs ?panel) [0..<?n])) = sum_list (map newlines texts)"
    using sum_padded [of "\<lambda>l. newlines (fitText l SYSTEM_WIDTH)" ?logs ?n]
      sum_padded [of "\<lambda>l. newlines (fitText l TCP_WIDTH)" ?panel ?n]
    by (simp add: texts_def newlines_panel_row sum_list_addf comp_def)
  moreover have "sum_list (map newlines panel_title) = 0" using newlines_title(1) by simp
  ultimately have sum: "sum_list (map newlines ?rows) = sum_list (map newlines texts)"
    using newlines_title(2) by simp
  note lines = lines_of_rows [OF width, folded render]
  show "length (lines_of (renderLogs lg v srv)) = 4 + max (length ?logs) 11 + sum_list (map newlines texts)"
    using lines(1) sum by (simp add: panel_title_def tcpPanel_def)
  have "(\<forall>r\<in>set ?rows. newlines r = 0) \<longleftrightarrow> sum_list (map newlines ?rows) = 0"
    by (simp only: sum_list_eq_0_iff set_map ball_simps)
  also have "\<dots> \<longleftrightarrow> (\<forall>t\<in>set texts. newlines t = 0)"
    unfolding sum by (simp only: sum_list_eq_0_iff set_map ball_simps)
  finally show "(\<forall>l\<in>set (lines_of (renderLogs lg v srv)). length l = 106) \<longleftrightarrow> (\<forall>t\<in>set texts. newlines t = 0)"
    using lines(2) by simp
qed

text \<open>
  Only a text with a newline shows one, and the panel has none of its own.
\<close>

lemma newlines_take: "newlines txt = 0 \<Longrightarrow> newlines (take n txt) = 0"
  by (auto simp: newlines_def filter_empty_conv dest: in_set_takeD)

lemma newlines_spaces: "newlines (replicate n CHR '' '') = 0" "newlines ''...'' = 0"
  by (simp_all add: newlines_def nl_def)

lemma newlines_fitText:
  "newlines txt = 0 \<Longrightarrow> newlines (fitText txt w) = 0"
  "length txt \<le> w \<Longrightarrow> length txt < 2 ^ 31 \<Longrightarrow> newlines (fitText txt w) = newlines txt"
  by (simp_all add: fitText_def newlines_take newlines_spaces sint_of_size del: newlines_simps(2))

lemma newlines_show_word [simp]: "newlines (show_word w) = 0"
  unfolding newlines_def show_word_def
  by (auto simp: filter_empty_conv nl_def is_digit_def dest!: dec_string_digits)

lemma newlines_tcpPanel:
  "sum_list (map newlines (map (\<lambda>l. fitText l TCP_WIDTH) (tcpPanel st ts))) =
     newlines (fitText (''Last command: '' @ getLastCommand ts) TCP_WIDTH)"
  by (simp add: tcpPanel_def newlines_fitText(1)) (simp add: newlines_fitText(1) nl_def)

text \<open>
  C34: when the table of the dashboard is the rectangle it is meant to be.  For texts shorter than
  a gigabyte, after any sequence of log calls, the panel has on the terminal four fixed lines and one
  per log entry or per line of the TCP panel, whichever are more, at most nineteen, and one more for
  every newline inside the part of a text a column shows; and all its lines are 106 characters wide
  exactly if there is none.  The program does not exclude them: only the newlines at the end of a
  request are removed, so a client that sends two commands at once puts one into the last command and
  into the log.
\<close>

theorem dashboard_rectangle:
  assumes "\<forall>(ts, msg)\<in>set calls. length ts + length msg < 2 ^ 30" "length (getLastCommand srv) < 2 ^ 30"
  shows "let logs = last_n 15 (map (\<lambda>(ts, msg). stamped ts msg) calls);
      texts = map (\<lambda>l. fitText l SYSTEM_WIDTH) logs @ map (\<lambda>l. fitText l TCP_WIDTH) (tcpPanel (getStats v) srv);
      panel = lines_of (renderLogs (log_all calls init_Logger) v srv);
      n = 4 + max (min 15 (length calls)) 11
    in n \<le> 19 \<and> length panel = n + sum_list (map newlines texts) \<and>
       ((\<forall>l\<in>set panel. length l = 106) \<longleftrightarrow> (\<forall>t\<in>set texts. newlines t = 0))"
proof -
  have logs: "getRecentLogs (log_all calls init_Logger) = last_n 15 (map (\<lambda>(ts, msg). stamped ts msg) calls)"
    using logger_sink.entries_log_calls [of init_Logger calls]
    by (simp add: log_all_calls getRecentLogs_def init_Logger_def MAX_HISTORY_def)
  have "\<forall>l\<in>set (getRecentLogs (log_all calls init_Logger)). length l < 2 ^ 31"
  proof
    fix l
    assume "l \<in> set (getRecentLogs (log_all calls init_Logger))"
    then have "l \<in> set (map (\<lambda>(ts, msg). stamped ts msg) calls)"
      unfolding logs last_n_def by (rule in_set_dropD)
    with assms(1) show "length l < 2 ^ 31" by (auto simp: stamped_def)
  qed
  from renderLogs_lines [OF this assms(2), of v] show ?thesis
    unfolding Let_def logs by (simp add: last_n_def min_def)
qed

text \<open>
  Two commands sent at once make a line too many, and not all are 106 wide.
\<close>

theorem dashboard_rectangle_witness:
  "length (lines_of (renderLogs (log_all [(''12:00:00.000'', ''[SYSTEM] Logger started'')] init_Logger) example_view
       (tcp_server_with 5))) = 15 \<and>
   (let panel = lines_of (renderLogs (log_all [] init_Logger) example_view
       ((tcp_server_with 5)\<lparr>ts_lastCommand := ''help'' @ nl @ ''help''\<rparr>))
    in length panel = 16 \<and> \<not> (\<forall>l\<in>set panel. length l = 106))"
proof -
  let ?srv = "(tcp_server_with 5)\<lparr>ts_lastCommand := ''help'' @ nl @ ''help''\<rparr>"
  have two: "newlines (fitText (''Last command: '' @ getLastCommand ?srv) TCP_WIDTH) = 1"
    by (subst newlines_fitText(2)) (simp_all add: getLastCommand_def TCP_WIDTH_def nl_def)
  have "newlines (fitText (''Last command: '' @ getLastCommand (tcp_server_with 5)) TCP_WIDTH) = 0"
    "newlines (fitText (stamped ''12:00:00.000'' ''[SYSTEM] Logger started'') SYSTEM_WIDTH) = 0"
    by (rule newlines_fitText(1), simp add: getLastCommand_def tcp_server_with_def stamped_def nl_def)+
  then have one: "length (lines_of (renderLogs (log_all [(''12:00:00.000'', ''[SYSTEM] Logger started'')] init_Logger)
      example_view (tcp_server_with 5))) = 15"
    using dashboard_rectangle [of "[(''12:00:00.000'', ''[SYSTEM] Logger started'')]" "tcp_server_with 5" example_view]
      newlines_tcpPanel [of "getStats example_view" "tcp_server_with 5"]
    by (simp add: Let_def last_n_def getLastCommand_def tcp_server_with_def)
  have sum: "sum_list (map newlines (map (\<lambda>l. fitText l TCP_WIDTH) (tcpPanel (getStats example_view) ?srv))) = 1"
    using newlines_tcpPanel two by simp
  then have "\<exists>t\<in>set (map (\<lambda>l. fitText l TCP_WIDTH) (tcpPanel (getStats example_view) ?srv)). newlines t \<noteq> 0"
    using sum_list_eq_0_iff [of "map newlines (map (\<lambda>l. fitText l TCP_WIDTH) (tcpPanel (getStats example_view) ?srv))"]
    by (simp del: sum_list_eq_0_iff)
  with sum dashboard_rectangle [of "[]" ?srv example_view] one show ?thesis
    by (auto simp: Let_def last_n_def getLastCommand_def nl_def)
qed

text \<open>
  A column never hides a text that fits and marks one that does not: within the width the text is
  shown in full and padded, beyond it the first characters are followed by an ellipsis, in either case
  at exactly the column width.
\<close>

lemma fitText_column:
  assumes "length txt < 2 ^ 31" "3 \<le> width"
  shows "length (fitText txt width) = width \<and>
    (length txt \<le> width \<longrightarrow> prefix txt (fitText txt width)) \<and>
    (width < length txt \<longrightarrow> prefix (take (width - 3) txt) (fitText txt width) \<and>
       suffix ''...'' (fitText txt width))"
  using assms by (auto simp: length_fitText fitText_eq suffix_def)

end
