(* ===== verification/MainThreads.thy ===== *)
theory MainThreads
  imports SensorNetwork ConsoleRenderer
begin

text \<open>
  The bodies of the threads that \<^verbatim>\<open>src/main.cpp\<close> starts, each a loop over its own flag: the
  dashboard, the watchdog, the telemetry simulation and the heartbeat simulation.  What a pass reads
  of the rest of the program, the values drawn and the clock are the inputs of an iteration; every
  line passed to the logger is kept.
\<close>

section \<open>The threads\<close>

text \<open>
  The dashboard thread: what it writes to the console.
\<close>

definition dashboard_pass :: "Logger \<times> view \<times> TcpServer \<Rightarrow> string list \<Rightarrow> unit result \<times> string list" where
  "dashboard_pass i screens = (case i of (lg, v, ts) \<Rightarrow> (Inr (), screens @ [render lg v ts]))"

definition dashboard_thread ::
  "(bool \<times> Logger \<times> view \<times> TcpServer) list \<Rightarrow> bool \<Rightarrow> loop_status \<times> (bool \<times> string list)" where
  "dashboard_thread is dashboardRunning = flag_loop dashboard_pass is (dashboardRunning, [])"

text \<open>
  The watchdog thread, on a gateway nobody else changes: the step relations of the system interleave
  it with the receiver.  An input is the clock reading of the scan and the order in which it visits
  the registry.
\<close>

definition watchdog_pass :: "u64 \<times> u32 list \<Rightarrow> Gateway \<times> string list \<Rightarrow> unit result \<times> (Gateway \<times> string list)" where
  "watchdog_pass i s =
     (case i of (currentTime, order) \<Rightarrow>
        let (g, logs) = s; (g', new) = detectOfflineSensors currentTime order g in (Inr (), (g', logs @ new)))"

definition watchdog_thread ::
  "(bool \<times> u64 \<times> u32 list) list \<Rightarrow> bool \<Rightarrow> Gateway \<times> string list \<Rightarrow> loop_status \<times> (bool \<times> Gateway \<times> string list)" where
  "watchdog_thread is watchdogRunning s =
     (case s of (g, logs) \<Rightarrow>
        flag_loop watchdog_pass is (watchdogRunning, (g, logs @ [''[SYSTEM] Watchdog started''])))"

text \<open>
  The telemetry thread: in every pass the nodes tick in order.  An input gives each node the value its
  sensor draws and the clock reading.
\<close>

definition tick_jobs ::
  "'n send list \<Rightarrow> (double \<times> u64) list \<Rightarrow> SensorNode list \<Rightarrow> ('n send \<times> double \<times> u64 \<times> SensorNode) list" where
  "tick_jobs sends ins nodes = map (\<lambda>(send, (draw, t), nd). (send, draw, t, nd)) (zip sends (zip ins nodes))"

definition telemetry_pass ::
  "'n send list \<Rightarrow> (double \<times> u64) list \<Rightarrow> SensorNode list \<times> 'n \<Rightarrow> unit result \<times> (SensorNode list \<times> 'n)" where
  "telemetry_pass sends ins s =
     (case s of (nodes, net) \<Rightarrow>
        let (r, nodes', net') = telemetry_round (tick_jobs sends ins nodes) net in (r, (nodes', net')))"

definition telemetry_thread ::
  "'n send list \<Rightarrow> (bool \<times> (double \<times> u64) list) list \<Rightarrow> bool \<Rightarrow> SensorNode list \<times> 'n \<Rightarrow>
   loop_status \<times> (bool \<times> SensorNode list \<times> 'n)" where
  "telemetry_thread sends is telemetrySimulationRunning s =
     flag_loop (telemetry_pass sends) is (telemetrySimulationRunning, s)"

text \<open>
  The heartbeat thread: in every pass the nodes send heartbeats in order, 3 and 7 only while their
  flags are set.  The identities of the sensors do not change, so the nodes are fixed.  An input is
  the clock reading of each node and the two flags.
\<close>

definition beat_jobs ::
  "'n send list \<Rightarrow> u64 list \<Rightarrow> bool list \<Rightarrow> SensorNode list \<Rightarrow> ('n send \<times> u64 \<times> bool \<times> SensorNode) list" where
  "beat_jobs sends ts enabled nodes = zip sends (zip ts (zip enabled nodes))"

definition heartbeat_pass ::
  "'n send list \<Rightarrow> SensorNode list \<Rightarrow> u64 list \<times> bool \<times> bool \<Rightarrow> 'n \<times> string list \<Rightarrow>
   unit result \<times> ('n \<times> string list)" where
  "heartbeat_pass sends nodes i s =
     (case i of (ts, sensor3Enabled, sensor7Enabled) \<Rightarrow>
      case s of (net, logs) \<Rightarrow>
        let (r, net') = heartbeat_round
              (beat_jobs sends ts (heartbeat_participants sensor3Enabled sensor7Enabled) nodes) net
        in (r, (net', logs)))"

definition heartbeat_thread ::
  "'n send list \<Rightarrow> SensorNode list \<Rightarrow> (bool \<times> u64 list \<times> bool \<times> bool) list \<Rightarrow> bool \<Rightarrow> 'n \<times> string list \<Rightarrow>
   loop_status \<times> (bool \<times> 'n \<times> string list)" where
  "heartbeat_thread sends nodes is heartbeatSimulationRunning s =
     (case s of (net, logs) \<Rightarrow>
        flag_loop (heartbeat_pass sends nodes) is
          (heartbeatSimulationRunning,
           (net, logs @ [''[SYSTEM] Simulating communication loss for sensors 3 and 7''])))"

section \<open>What the simulation threads send\<close>

definition all_senders :: "'n send list \<Rightarrow> ('n \<Rightarrow> bytes list) \<Rightarrow> bool" where
  "all_senders sends sent \<longleftrightarrow> length sends = 7 \<and> (\<forall>send\<in>set sends. iudp_sender send sent)"

lemma map_tick_jobs:
  "length sends = length nodes \<Longrightarrow> length ins = length nodes \<Longrightarrow>
   map (\<lambda>(_, _, _, nd). f nd) (tick_jobs sends ins nodes) = map f nodes"
  by (rule nth_equalityI) (simp_all add: tick_jobs_def case_prod_beta)

lemma tick_jobs_senders:
  "all_senders sends sent \<Longrightarrow> \<forall>(send, x)\<in>set (tick_jobs sends ins nodes). iudp_sender send sent"
  by (auto simp: tick_jobs_def all_senders_def dest!: set_zip_leftD)

lemma beat_jobs_senders:
  "all_senders sends sent \<Longrightarrow> \<forall>(send, x)\<in>set (beat_jobs sends ts en nodes). iudp_sender send sent"
  by (auto simp: beat_jobs_def all_senders_def dest!: set_zip_leftD)

lemma telemetry_round_entries:
  "telemetry_round jobs net = (r, nds, net') \<Longrightarrow>
   map node_entry nds = map (\<lambda>(_, _, _, nd). node_entry nd) jobs"
proof (induction jobs arbitrary: net r nds net')
  case (Cons job jobs)
  obtain send draw t nd where job: "job = (send, draw, t, nd)" by (cases job) auto
  obtain r1 nd1 net1 where tk: "tick send draw t nd net = (r1, nd1, net1)"
    by (cases "tick send draw t nd net") auto
  show ?case
  proof (cases r1)
    case (Inl e)
    with Cons.prems job tk tick_entry [OF tk] show ?thesis by (auto simp: comp_def case_prod_beta)
  next
    case (Inr m)
    obtain r2 nds2 net2 where "telemetry_round jobs net1 = (r2, nds2, net2)"
      by (cases "telemetry_round jobs net1") auto
    with Cons.prems Cons.IH [OF this] Inr job tk tick_entry [OF tk] show ?thesis by auto
  qed
qed simp

lemma telemetry_pass_sent:
  assumes "all_senders sends sent" "map node_entry nodes = roster" "length ins = 7"
    and "telemetry_pass sends ins (nodes, net) = (Inr u, (nodes', net'))"
  shows "\<exists>ms. sent net' = sent net @ map serialize_telemetry ms \<and> list_all TelemetryMessage_ok ms \<and>
    map (\<lambda>m. (ph_sensorId (tm_header m), tm_type m)) ms = roster" "map node_entry nodes' = roster"
proof -
  let ?jobs = "tick_jobs sends ins nodes"
  have len: "length nodes = 7" using arg_cong [OF assms(2), of length] by (simp add: roster_def)
  have entries: "map (\<lambda>(_, _, _, nd). f nd) ?jobs = map f nodes" for f :: "SensorNode \<Rightarrow> 'b"
    using assms(1,3) len by (intro map_tick_jobs) (simp_all add: all_senders_def)
  have rd: "telemetry_round ?jobs net = (Inr u, nodes', net')"
    using assms(4) by (auto simp: telemetry_pass_def split: prod.splits)
  show "map node_entry nodes' = roster"
    using telemetry_round_entries [OF rd] entries [of node_entry] assms(2) by simp
  from telemetry_round_sent [OF tick_jobs_senders [OF assms(1)] rd]
  obtain ms where ms: "sent net' = sent net @ map serialize_telemetry ms" "list_all TelemetryMessage_ok ms"
    "map (\<lambda>m. (ph_type (tm_header m), ph_sensorId (tm_header m), tm_type m)) ms =
      map (\<lambda>(_, _, _, nd). (TELEMETRY, any_getId (nd_sensor nd), getType (nd_sensor nd))) ?jobs" by blast
  have "map (\<lambda>m. (ph_type (tm_header m), ph_sensorId (tm_header m), tm_type m)) ms =
      map (\<lambda>nd. (TELEMETRY, node_entry nd)) nodes"
    unfolding ms(3) node_entry_def by (rule entries)
  from arg_cong [OF this, of "map snd"] have "map (\<lambda>m. (ph_sensorId (tm_header m), tm_type m)) ms = roster"
    using assms(2) by (simp add: comp_def)
  with ms(1,2) show "\<exists>ms. sent net' = sent net @ map serialize_telemetry ms \<and> list_all TelemetryMessage_ok ms \<and>
    map (\<lambda>m. (ph_sensorId (tm_header m), tm_type m)) ms = roster" by blast
qed

lemma telemetry_loop_sent:
  assumes "all_senders sends sent" "map node_entry nodes = roster" "\<forall>(c, ins)\<in>set is. length ins = 7"
    and "flag_loop (telemetry_pass sends) is (b, nodes, net) = (Running, (b', nodes', net'))"
  shows "\<exists>ms. sent net' = sent net @ map serialize_telemetry ms \<and> list_all TelemetryMessage_ok ms \<and>
    map (\<lambda>m. (ph_sensorId (tm_header m), tm_type m)) ms = concat (replicate (length is) roster)"
  using assms(2-4)
proof (induction "is" arbitrary: b nodes net)
  case Nil
  then show ?case by simp
next
  case (Cons i "is")
  obtain c ins where i: "i = (c, ins)" by (cases i)
  obtain r nodes1 net1 where p: "telemetry_pass sends ins (nodes, net) = (r, nodes1, net1)"
    by (cases "telemetry_pass sends ins (nodes, net)") auto
  obtain u where r: "r = Inr u"
    using Cons.prems(3) i p by (auto simp: Let_def split: if_splits sum.splits)
  have len: "length ins = 7" using Cons.prems(2) i by simp
  note pass = telemetry_pass_sent [OF assms(1) Cons.prems(1) len p [unfolded r]]
  have rest: "flag_loop (telemetry_pass sends) is (b \<and> \<not> c, nodes1, net1) = (Running, (b', nodes', net'))"
    using Cons.prems(3) i p r by (auto simp: Let_def split: if_splits)
  from Cons.IH [OF pass(2) _ rest] Cons.prems(2) obtain ms where
    "sent net' = sent net1 @ map serialize_telemetry ms" "list_all TelemetryMessage_ok ms"
    "map (\<lambda>m. (ph_sensorId (tm_header m), tm_type m)) ms = concat (replicate (length is) roster)" by auto
  moreover from pass(1) obtain ms1 where "sent net1 = sent net @ map serialize_telemetry ms1"
    "list_all TelemetryMessage_ok ms1" "map (\<lambda>m. (ph_sensorId (tm_header m), tm_type m)) ms1 = roster" by blast
  ultimately show ?case by (intro exI [of _ "ms1 @ ms"]) simp
qed

text \<open>
  The sensors that send a heartbeat in a pass of the heartbeat thread.
\<close>

definition beat_ids :: "bool \<Rightarrow> bool \<Rightarrow> u32 list" where
  "beat_ids sensor3Enabled sensor7Enabled =
     [1, 2] @ (if sensor3Enabled then [3] else []) @ [4, 5, 6] @ (if sensor7Enabled then [7] else [])"

lemma filter_beat_jobs:
  "length sends = length ts \<Longrightarrow> length ts = length en \<Longrightarrow> length en = length nodes \<Longrightarrow>
   map (\<lambda>(_, _, _, nd). f nd) (filter (\<lambda>(_, _, e, _). e) (beat_jobs sends ts en nodes)) =
     map fst (filter snd (zip (map f nodes) en))"
  unfolding beat_jobs_def by (induction sends ts en nodes rule: list_induct4) simp_all

lemma heartbeat_pass_sent:
  assumes "all_senders sends sent" "map node_entry nodes = roster" "length ts = 7"
    and "heartbeat_pass sends nodes (ts, e3, e7) (net, logs) = (Inr u, (net', logs'))"
  shows "\<exists>hs. sent net' = sent net @ map serialize_heartbeat hs \<and> list_all HeartbeatMessage_ok hs \<and>
    map (\<lambda>h. ph_sensorId (hb_header h)) hs = beat_ids e3 e7" "logs' = logs"
proof -
  let ?jobs = "beat_jobs sends ts (heartbeat_participants e3 e7) nodes"
  have len: "length nodes = 7" using arg_cong [OF assms(2), of length] by (simp add: roster_def)
  have ids: "map (\<lambda>nd. any_getId (nd_sensor nd)) nodes = map fst roster"
    using arg_cong [OF assms(2), of "map fst"] by (simp add: node_entry_def comp_def)
  have rd: "heartbeat_round ?jobs net = (Inr u, net')" and "logs' = logs"
    using assms(4) by (auto simp: heartbeat_pass_def split: prod.splits)
  then show "logs' = logs" by simp
  from heartbeat_round_sent [OF beat_jobs_senders [OF assms(1)] rd] obtain hs where
    hs: "sent net' = sent net @ map serialize_heartbeat hs" "list_all HeartbeatMessage_ok hs"
    "map (\<lambda>h. (ph_type (hb_header h), ph_sensorId (hb_header h))) hs =
      map (\<lambda>(_, _, _, nd). (HEARTBEAT, any_getId (nd_sensor nd))) (filter (\<lambda>(_, _, en, _). en) ?jobs)" by blast
  have "map (\<lambda>h. ph_sensorId (hb_header h)) hs =
      map (\<lambda>(_, _, _, nd). any_getId (nd_sensor nd)) (filter (\<lambda>(_, _, en, _). en) ?jobs)"
    using arg_cong [OF hs(3), of "map snd"] by (simp add: comp_def case_prod_beta)
  also have "\<dots> = map fst (filter snd (zip (map fst roster) (heartbeat_participants e3 e7)))"
    using assms(1,3) len by (subst filter_beat_jobs) (simp_all add: all_senders_def heartbeat_participants_def ids)
  also have "\<dots> = beat_ids e3 e7"
    by (simp add: roster_def heartbeat_participants_def beat_ids_def)
  finally show "\<exists>hs. sent net' = sent net @ map serialize_heartbeat hs \<and> list_all HeartbeatMessage_ok hs \<and>
    map (\<lambda>h. ph_sensorId (hb_header h)) hs = beat_ids e3 e7" using hs(1,2) by blast
qed

lemma heartbeat_loop_sent:
  assumes "all_senders sends sent" "map node_entry nodes = roster" "\<forall>(c, ts, e)\<in>set is. length ts = 7"
    and "flag_loop (heartbeat_pass sends nodes) is (b, net, logs) = (Running, (b', net', logs'))"
  shows "\<exists>hs. sent net' = sent net @ map serialize_heartbeat hs \<and> list_all HeartbeatMessage_ok hs \<and>
    map (\<lambda>h. ph_sensorId (hb_header h)) hs = concat (map (\<lambda>(_, _, e3, e7). beat_ids e3 e7) is)"
  using assms(3,4)
proof (induction "is" arbitrary: b net logs)
  case Nil
  then show ?case by simp
next
  case (Cons i "is")
  obtain c ts e3 e7 where i: "i = (c, ts, e3, e7)" by (cases i)
  obtain r net1 logs1 where p: "heartbeat_pass sends nodes (ts, e3, e7) (net, logs) = (r, net1, logs1)"
    by (cases "heartbeat_pass sends nodes (ts, e3, e7) (net, logs)") auto
  obtain u where r: "r = Inr u"
    using Cons.prems(2) i p by (auto simp: Let_def split: if_splits sum.splits)
  have len: "length ts = 7" using Cons.prems(1) i by simp
  note pass = heartbeat_pass_sent [OF assms(1,2) len p [unfolded r]]
  have rest: "flag_loop (heartbeat_pass sends nodes) is (b \<and> \<not> c, net1, logs1) = (Running, (b', net', logs'))"
    using Cons.prems(2) i p r by (auto simp: Let_def split: if_splits)
  from Cons.IH [OF _ rest] Cons.prems(1) obtain hs where
    "sent net' = sent net1 @ map serialize_heartbeat hs" "list_all HeartbeatMessage_ok hs"
    "map (\<lambda>h. ph_sensorId (hb_header h)) hs = concat (map (\<lambda>(_, _, e3, e7). beat_ids e3 e7) is)" by auto
  moreover from pass(1) obtain hs1 where "sent net1 = sent net @ map serialize_heartbeat hs1"
    "list_all HeartbeatMessage_ok hs1" "map (\<lambda>h. ph_sensorId (hb_header h)) hs1 = beat_ids e3 e7" by blast
  ultimately show ?case by (intro exI [of _ "hs1 @ hs"]) (simp add: i)
qed

text \<open>
  A sender whose \<^verbatim>\<open>send\<close> returns.
\<close>

definition reliable :: "'n send \<Rightarrow> bool" where
  "reliable send \<longleftrightarrow> (\<forall>p net. fst (send p net) = Inr ())"

lemma reliableE:
  assumes "reliable send"
  obtains net' where "send p net = (Inr (), net')"
  using assms by (metis prod.collapse reliable_def)

lemma telemetry_round_returns:
  "\<forall>(send, x)\<in>set jobs. reliable send \<Longrightarrow> fst (telemetry_round jobs net) = Inr ()"
proof (induction jobs arbitrary: net)
  case (Cons job jobs)
  obtain send draw t nd where job: "job = (send, draw, t, nd)" by (cases job) auto
  obtain net1 where "send (serialize_telemetry (reading_of draw t (nd_sensor nd))) net = (Inr (), net1)"
    using Cons.prems job reliableE [of send] by (metis case_prod_conv list.set_intros(1))
  moreover have "fst (telemetry_round jobs n) = Inr ()" for n using Cons by simp
  ultimately show ?case by (simp add: job tick_eq Let_def case_prod_beta)
qed simp

lemma heartbeat_round_returns:
  "\<forall>(send, x)\<in>set jobs. reliable send \<Longrightarrow> fst (heartbeat_round jobs net) = Inr ()"
proof (induction jobs arbitrary: net)
  case (Cons job jobs)
  obtain send t en nd where job: "job = (send, t, en, nd)" by (cases job) auto
  obtain net1 where "sendHeartbeat send t nd net = (Inr (), net1)"
    using Cons.prems job reliableE [of send] unfolding sendHeartbeat_eq
    by (metis case_prod_conv list.set_intros(1))
  moreover have "fst (heartbeat_round jobs n) = Inr ()" for n using Cons by simp
  ultimately show ?case by (simp add: job)
qed simp

lemma telemetry_thread_running:
  assumes "\<forall>send\<in>set sends. reliable send" "list_all (\<lambda>(c, ins). \<not> c) is"
  shows "\<exists>s'. telemetry_thread sends is True s = (Running, (True, s'))"
  unfolding telemetry_thread_def
proof (rule flag_loop_running [OF assms(2)])
  fix ins :: "(double \<times> u64) list" and s :: "SensorNode list \<times> 'a"
  have "\<forall>(send, x)\<in>set (tick_jobs sends ins (fst s)). reliable send"
    using assms(1) by (auto simp: tick_jobs_def dest!: set_zip_leftD)
  from telemetry_round_returns [OF this, of "snd s"] show "fst (telemetry_pass sends ins s) = Inr ()"
    by (simp add: telemetry_pass_def case_prod_beta)
qed

lemma heartbeat_thread_running:
  assumes "\<forall>send\<in>set sends. reliable send" "list_all (\<lambda>(c, i). \<not> c) is"
  shows "\<exists>s'. heartbeat_thread sends nodes is True (net, logs) = (Running, (True, s'))"
  unfolding heartbeat_thread_def prod.case
proof (rule flag_loop_running [OF assms(2)])
  fix i :: "u64 list \<times> bool \<times> bool" and s :: "'a \<times> string list"
  have "\<forall>(send, x)\<in>set (beat_jobs sends ts en nodes). reliable send" for ts en
    using assms(1) by (auto simp: beat_jobs_def dest!: set_zip_leftD)
  from heartbeat_round_returns [OF this, of "fst i" "heartbeat_participants (fst (snd i)) (snd (snd i))" "fst s"]
  show "fst (heartbeat_pass sends nodes i s) = Inr ()"
    by (simp add: heartbeat_pass_def case_prod_beta)
qed

text \<open>
  C9: the simulation threads send what they are meant to: with senders that work and flags that are
  not cleared, \<open>n\<close> passes of the telemetry thread put on the wire, in order, \<open>n\<close> times one
  message of each of the seven sensors, and the passes of the heartbeat thread one heartbeat of each
  sensor but those of 3 and 7 whose flags are off in that pass; all of them decode to what was sent,
  and the threads are still running.
\<close>

theorem simulation_threads_send:
  assumes "all_senders sends sent" "\<forall>send\<in>set sends. reliable send"
    and "\<forall>(cleared, ins)\<in>set is. \<not> cleared \<and> length ins = 7"
    and "\<forall>(cleared, ts, e)\<in>set js. \<not> cleared \<and> length ts = 7"
  shows "\<exists>nodes net1 net2 logs' ms hs.
    telemetry_thread sends is True (system_nodes, net) = (Running, (True, nodes, net1)) \<and>
    heartbeat_thread sends system_nodes js True (net1, logs) = (Running, (True, net2, logs')) \<and>
    sent net1 = sent net @ map serialize_telemetry ms \<and>
    sent net2 = sent net1 @ map serialize_heartbeat hs \<and>
    map (\<lambda>m. (ph_sensorId (tm_header m), tm_type m)) ms = concat (replicate (length is) roster) \<and>
    map (\<lambda>h. ph_sensorId (hb_header h)) hs = concat (map (\<lambda>(_, _, e3, e7). beat_ids e3 e7) js) \<and>
    list_all (\<lambda>m. deserializeTelemetry (serialize_telemetry m) = Inr m) ms \<and>
    list_all (\<lambda>h. deserializeHeartbeat (serialize_heartbeat h) = Inr h) hs"
proof -
  have "list_all (\<lambda>(c, ins). \<not> c) is" "list_all (\<lambda>(c, i). \<not> c) js"
    using assms(3,4) by (auto simp: list_all_iff)
  then obtain nodes net1 net2 logs' where
    t: "telemetry_thread sends is True (system_nodes, net) = (Running, (True, nodes, net1))" and
    h: "heartbeat_thread sends system_nodes js True (net1, logs) = (Running, (True, net2, logs'))"
    using telemetry_thread_running [OF assms(2), of "is"] heartbeat_thread_running [OF assms(2), of js]
    by (metis surj_pair)
  have len: "\<forall>(c, ins)\<in>set is. length ins = 7" "\<forall>(c, ts, e)\<in>set js. length ts = 7"
    using assms(3,4) by auto
  from telemetry_loop_sent [OF assms(1) map_node_entry_system len(1) t [unfolded telemetry_thread_def]]
  obtain ms where ms: "sent net1 = sent net @ map serialize_telemetry ms" "list_all TelemetryMessage_ok ms"
    "map (\<lambda>m. (ph_sensorId (tm_header m), tm_type m)) ms = concat (replicate (length is) roster)" by blast
  from heartbeat_loop_sent [OF assms(1) map_node_entry_system len(2) h [unfolded heartbeat_thread_def prod.case]]
  obtain hs where hs: "sent net2 = sent net1 @ map serialize_heartbeat hs" "list_all HeartbeatMessage_ok hs"
    "map (\<lambda>h. ph_sensorId (hb_header h)) hs = concat (map (\<lambda>(_, _, e3, e7). beat_ids e3 e7) js)" by blast
  have "list_all (\<lambda>m. deserializeTelemetry (serialize_telemetry m) = Inr m) ms"
    "list_all (\<lambda>h. deserializeHeartbeat (serialize_heartbeat h) = Inr h) hs"
    using ms(2) hs(2) deserializeTelemetry_serialize [where post = "[]"] deserializeHeartbeat_serialize [where post = "[]"]
    by (auto simp: list_all_iff)
  with t h ms(1,3) hs(1,3) show ?thesis by blast
qed

theorem simulation_threads_send_witness:
  "\<exists>nodes net1 ms. telemetry_thread (replicate 7 FakeUdpSender_send) [(False, replicate 7 (zero_double, 5))] True
      (system_nodes, []) = (Running, (True, nodes, net1)) \<and>
    net1 = map serialize_telemetry ms \<and> map (\<lambda>m. (ph_sensorId (tm_header m), tm_type m)) ms = roster"
  using simulation_threads_send [of "replicate 7 FakeUdpSender_send" "\<lambda>packets. packets"
      "[(False, replicate 7 (zero_double, 5))]" "[(False, replicate 7 6, False, True)]" "[]" "[]"]
    fake.iudp_sender_axioms
  by (auto simp: all_senders_def reliable_def FakeUdpSender_send_def)

section \<open>The threads end\<close>

text \<open>
  C36: every service loop of the program ends once it is asked to: a stop or a cleared flag that
  precedes one of the tests of the loop makes it leave, whatever the clock readings, the datagrams,
  the clients and the other threads do.  The receiver, the node and the simulation threads can only
  leave earlier by an exception of their body, the dashboard and the watchdog have none; the server
  needs the sessions of its clients to end.
\<close>

theorem service_threads_terminate:
  "(list_ex ri_stop_before rs \<longrightarrow> fst (UdpReceiver_run rs rx) \<noteq> Running) \<and>
   (list_ex in_stopped ns \<longrightarrow> fst (SensorNode_run send t0 t1 ns nd net) \<noteq> Running) \<and>
   (list_ex ti_stop_before ts \<and> list_all (\<lambda>i. session_ends (ti_session i)) ts \<longrightarrow>
      fst (TcpServer_run ts tc) \<noteq> Running) \<and>
   (list_ex fst ds \<longrightarrow> fst (dashboard_thread ds b) = Left) \<and>
   (list_ex fst ws \<longrightarrow> fst (watchdog_thread ws b wd) = Left) \<and>
   (list_ex fst tms \<longrightarrow> fst (telemetry_thread sends tms b nn) \<noteq> Running) \<and>
   (list_ex fst hbs \<longrightarrow> fst (heartbeat_thread sends nodes hbs b hb) \<noteq> Running)"
proof (intro conjI impI)
  show "fst (UdpReceiver_run rs rx) \<noteq> Running" if "list_ex ri_stop_before rs"
    using receiver_loop.loop_terminates [OF that] by (simp add: UdpReceiver_run_def Let_def)
  show "fst (SensorNode_run send t0 t1 ns nd net) \<noteq> Running" if "list_ex in_stopped ns"
    using node_loop.loop_terminates [OF that] by (simp add: SensorNode_run_def)
  show "fst (TcpServer_run ts tc) \<noteq> Running"
    if "list_ex ti_stop_before ts \<and> list_all (\<lambda>i. session_ends (ti_session i)) ts"
    using that accept_loop_terminates by (simp add: TcpServer_run_def Let_def)
  show "fst (dashboard_thread ds b) = Left" if "list_ex fst ds"
    unfolding dashboard_thread_def
    by (rule flag_loop_left [OF that]) (simp add: dashboard_pass_def split: prod.splits)
  show "fst (watchdog_thread ws b wd) = Left" if "list_ex fst ws"
    using flag_loop_left [OF that, of watchdog_pass]
    by (auto simp: watchdog_thread_def watchdog_pass_def split: prod.splits)
  show "fst (telemetry_thread sends tms b nn) \<noteq> Running" if "list_ex fst tms"
    using flag_thread.loop_terminates [OF that] by (simp add: telemetry_thread_def)
  show "fst (heartbeat_thread sends nodes hbs b hb) \<noteq> Running" if "list_ex fst hbs"
    by (cases hb) (simp add: heartbeat_thread_def flag_thread.loop_terminates [OF that])
qed

theorem service_threads_terminate_witness:
  "fst (UdpReceiver_run
      [\<lparr>ri_stop_before = False, ri_stop_during = False, ri_recv = WouldBlock, ri_now = 0\<rparr>,
       \<lparr>ri_stop_before = True, ri_stop_during = False, ri_recv = WouldBlock, ri_now = 1\<rparr>] example_rx) \<noteq> Running \<and>
   fst (watchdog_thread [(False, 5, []), (True, 1005, [])] True (init_Gateway, [])) = Left"
  using service_threads_terminate [of
      "[\<lparr>ri_stop_before = False, ri_stop_during = False, ri_recv = WouldBlock, ri_now = 0\<rparr>,
       \<lparr>ri_stop_before = True, ri_stop_during = False, ri_recv = WouldBlock, ri_now = 1\<rparr>]" example_rx
      "[]" FakeUdpSender_send 0 0 example_node "[]" "[]" undefined "[]" True
      "[(False, 5, []), (True, 1005, [])]" "(init_Gateway, [])" "[]" "[]" "([], [])" "[]" "[]" "([], [])"]
  by simp

end
