(* ===== verification/MainProgram.thy ===== *)
theory MainProgram
  imports SensorNetwork
begin

text \<open>
  The threads of \<^verbatim>\<open>src/main.cpp\<close> together: the main thread executes its script, which starts,
  stops and joins six service threads, each a prologue and a loop over an atomic flag.  A schedule
  is a list of events, one per step of a thread or of what the threads wait for: the user, a client
  and the worker of the logger.  What a body computes is the matter of the other theories, here it
  returns, throws or, in the server, serves a client until that has left.
\<close>

section \<open>Control flow of the threads\<close>

text \<open>
  Where a service thread is: before its first log line, before it announces that it is ready, about to
  call \<^verbatim>\<open>run\<close>, about to log that it has started, about to test its flag, in the body of its
  loop, in \<^verbatim>\<open>handleClient\<close>, or finished.
\<close>

datatype location = Unstarted | Starting | Announcing | Entering | Reporting | Testing | Working | Serving | Ended

text \<open>
  The worker of the logger: not started, in its loop, told to stop, or finished.
\<close>

datatype worker = NoWorker | Looping | Stopping | Finished

record program =
  mp_todo :: "main_action list"
  mp_at :: "service \<Rightarrow> location"
  mp_flag :: "service \<Rightarrow> bool"
  mp_ready :: "service \<Rightarrow> bool"
  mp_sensor7 :: bool
  mp_enter :: bool
  mp_worker :: worker
  mp_log :: "string list"
  mp_aborted :: bool

text \<open>
  The receiver and the server keep their flag themselves, cleared at first and set by \<^verbatim>\<open>run\<close>;
  the flags of the other threads are variables of \<^verbatim>\<open>main\<close>, set at first.
\<close>

definition is_server :: "service \<Rightarrow> bool" where
  "is_server t \<longleftrightarrow> t = Udp \<or> t = Tcp"

definition init_program :: program where
  "init_program =
     \<lparr>mp_todo = main_script, mp_at = (\<lambda>_. Unstarted), mp_flag = (\<lambda>t. \<not> is_server t),
      mp_ready = (\<lambda>_. False), mp_sensor7 = False, mp_enter = False, mp_worker = NoWorker, mp_log = [], mp_aborted = False\<rparr>"

fun start_line :: "service \<Rightarrow> string list" where
  "start_line Udp = [''[SYSTEM] Starting UDP service'']"
| "start_line Tcp = [''[SYSTEM] Starting TCP service'']"
| "start_line Dashboard = []"
| "start_line WatchdogThread = [''[SYSTEM] Watchdog started'']"
| "start_line TelemetryThread = []"
| "start_line HeartbeatThread = [''[SYSTEM] Simulating communication loss for sensors 3 and 7'']"

fun run_line :: "service \<Rightarrow> bool \<Rightarrow> string list" where
  "run_line Udp ok = [if ok then ''[UDP] Receiver started'' else ''Invalid socket. Receiver not started.'']"
| "run_line Tcp ok = [if ok then ''[TCP] Server started'' else ''[TCP] Server not initialized'']"
| "run_line _ ok = []"

text \<open>
  One step of a service thread; \<open>ok\<close> tells whether its socket is valid.  A thread in
  \<^verbatim>\<open>handleClient\<close> waits for its client.
\<close>

definition thread_step :: "(service \<Rightarrow> bool) \<Rightarrow> service \<Rightarrow> program \<Rightarrow> program" where
  "thread_step ok t s =
     (let goto = (\<lambda>l s. s\<lparr>mp_at := (mp_at s)(t := l)\<rparr>); log = (\<lambda>ls s. s\<lparr>mp_log := mp_log s @ ls\<rparr>)
      in case mp_at s t of
           Unstarted \<Rightarrow> s
         | Starting \<Rightarrow> goto (if is_server t then Announcing else Testing) (log (start_line t) s)
         | Announcing \<Rightarrow> goto Entering (s\<lparr>mp_ready := (mp_ready s)(t := True)\<rparr>)
         | Entering \<Rightarrow>
             if ok t then goto Reporting (s\<lparr>mp_flag := (mp_flag s)(t := True)\<rparr>)
             else goto Ended (log (run_line t False) s)
         | Reporting \<Rightarrow> goto Testing (log (run_line t True) s)
         | Testing \<Rightarrow> goto (if mp_flag s t then Working else Ended) s
         | Working \<Rightarrow> goto Testing s
         | Serving \<Rightarrow> s
         | Ended \<Rightarrow> s)"

text \<open>
  One step of the main thread: it waits in the loop over the ready flags, in \<^verbatim>\<open>cin.get\<close>, in
  \<^verbatim>\<open>join\<close> and, when it stops the logger, for the worker.
\<close>

fun main_enabled :: "main_action \<Rightarrow> program \<Rightarrow> bool" where
  "main_enabled AwaitReady s \<longleftrightarrow> mp_ready s Udp \<and> mp_ready s Tcp"
| "main_enabled AwaitEnter s \<longleftrightarrow> mp_enter s"
| "main_enabled (JoinThread t) s \<longleftrightarrow> mp_at s t = Ended"
| "main_enabled JoinLogger s \<longleftrightarrow> mp_worker s = Finished"
| "main_enabled _ s \<longleftrightarrow> True"

fun main_effect :: "main_action \<Rightarrow> program \<Rightarrow> program" where
  "main_effect (LogLine l) s = s\<lparr>mp_log := mp_log s @ [l]\<rparr>"
| "main_effect (StartThread t) s = s\<lparr>mp_at := (mp_at s)(t := Starting)\<rparr>"
| "main_effect (ClearFlag t) s = s\<lparr>mp_flag := (mp_flag s)(t := False)\<rparr>"
| "main_effect StartLogger s = s\<lparr>mp_worker := Looping\<rparr>"
| "main_effect StopLogger s = s\<lparr>mp_worker := Stopping\<rparr>"
| "main_effect EnableSensor7 s = s\<lparr>mp_sensor7 := True\<rparr>"
| "main_effect _ s = s"

definition main_step :: "program \<Rightarrow> program" where
  "main_step s =
     (case mp_todo s of
        [] \<Rightarrow> s
      | a # rest \<Rightarrow> if main_enabled a s then main_effect a (s\<lparr>mp_todo := rest\<rparr>) else s)"

text \<open>
  An exception that leaves the function of a thread ends the program.  The bodies that can throw are
  those of the receiver and of the two simulations, and the initial heartbeats of the main thread.
\<close>

definition can_throw :: "service \<Rightarrow> program \<Rightarrow> bool" where
  "can_throw t s \<longleftrightarrow> t \<in> {Udp, TelemetryThread, HeartbeatThread} \<and> mp_at s t = Working"

definition main_can_throw :: "program \<Rightarrow> bool" where
  "main_can_throw s \<longleftrightarrow> mp_todo s \<noteq> [] \<and> hd (mp_todo s) = InitialHeartbeats"

text \<open>
  Besides the threads act: the user who presses Enter, a client that connects when the server asks for
  one and leaves it again, and the worker of the logger that notices the stop, if it ever does.
\<close>

datatype event =
    MainStep
  | MainThrows
  | ThreadStep service
  | ThreadThrows service
  | Enter
  | ClientConnects
  | ClientLeaves
  | WorkerEnds

definition move_if :: "service \<Rightarrow> location \<Rightarrow> location \<Rightarrow> program \<Rightarrow> program" where
  "move_if t l l' s = (if mp_at s t = l then s\<lparr>mp_at := (mp_at s)(t := l')\<rparr> else s)"

definition program_step :: "(service \<Rightarrow> bool) \<Rightarrow> event \<Rightarrow> program \<Rightarrow> program" where
  "program_step ok e s =
     (if mp_aborted s then s
      else case e of
             MainStep \<Rightarrow> main_step s
           | MainThrows \<Rightarrow> if main_can_throw s then s\<lparr>mp_aborted := True\<rparr> else s
           | ThreadStep t \<Rightarrow> thread_step ok t s
           | ThreadThrows t \<Rightarrow> if can_throw t s then s\<lparr>mp_aborted := True\<rparr> else s
           | Enter \<Rightarrow> s\<lparr>mp_enter := True\<rparr>
           | ClientConnects \<Rightarrow> move_if Tcp Working Serving s
           | ClientLeaves \<Rightarrow> move_if Tcp Serving Testing s
           | WorkerEnds \<Rightarrow> if mp_worker s = Stopping then s\<lparr>mp_worker := Finished\<rparr> else s)"

definition run_program :: "(service \<Rightarrow> bool) \<Rightarrow> event list \<Rightarrow> program \<Rightarrow> program" where
  "run_program ok es s = fold (program_step ok) es s"

section \<open>The invariant\<close>

text \<open>
  What the state of the threads has to do with the actions \<open>past\<close> done by the main thread.
\<close>

definition thread_inv :: "(service \<Rightarrow> bool) \<Rightarrow> main_action list \<Rightarrow> program \<Rightarrow> service \<Rightarrow> bool" where
  "thread_inv ok past s t \<longleftrightarrow>
     (mp_at s t = Unstarted \<longleftrightarrow> StartThread t \<notin> set past) \<and>
     (JoinThread t \<in> set past \<longrightarrow> mp_at s t = Ended) \<and>
     (if is_server t
      then (mp_flag s t \<longrightarrow> ok t \<and> mp_at s t \<in> {Reporting, Testing, Working, Serving}) \<and>
           (mp_ready s t \<longleftrightarrow> mp_at s t \<notin> {Unstarted, Starting, Announcing}) \<and>
           (AwaitReady \<in> set past \<longrightarrow> mp_ready s t)
      else (ClearFlag t \<in> set past \<longrightarrow> \<not> mp_flag s t) \<and>
           mp_at s t \<notin> {Announcing, Entering, Reporting} \<and>
           (mp_at s t \<noteq> Unstarted \<longrightarrow> AwaitReady \<in> set past)) \<and>
     (mp_at s t = Serving \<longrightarrow> t = Tcp)"

definition worker_inv :: "main_action list \<Rightarrow> program \<Rightarrow> bool" where
  "worker_inv past s \<longleftrightarrow> (StopLogger \<in> set past \<longrightarrow> mp_worker s \<in> {Stopping, Finished})"

definition program_inv :: "(service \<Rightarrow> bool) \<Rightarrow> program \<Rightarrow> bool" where
  "program_inv ok s \<longleftrightarrow>
     (\<exists>past. main_script = past @ mp_todo s \<and> (\<forall>t. thread_inv ok past s t) \<and> worker_inv past s)"

text \<open>
  Actions that precede the next one have been done.
\<close>

lemma done_before:
  assumes "script = past @ a # rest" "b \<in> set (before a script)"
  shows "b \<in> set past"
proof (cases "a \<in> set past")
  case True
  with assms show ?thesis by (auto simp: before_def dest: set_takeWhileD)
next
  case False
  then have "\<And>x. x \<in> set past \<Longrightarrow> x \<noteq> a" by blast
  then have "before a script = past" using assms(1) by (simp add: before_def)
  with assms(2) show ?thesis by simp
qed

lemma done_implies:
  assumes "script = past @ todo" "a \<in> set past" "b \<in> set (before a script)"
  shows "b \<in> set past"
proof -
  obtain xs ys where "past = xs @ a # ys" using assms(2) by (auto simp: in_set_conv_decomp)
  with done_before [of script xs a "ys @ todo" b] assms show ?thesis by simp
qed

lemma done_once:
  assumes "script = past @ todo" "count_list script a = 1"
  shows "a \<in> set past \<longleftrightarrow> a \<notin> set todo"
proof -
  have "count_list past a + count_list todo a = 1" using assms by simp
  then show ?thesis using count_list_0_iff [of past a] count_list_0_iff [of todo a] by linarith
qed

lemma not_joined_before_start:
  assumes "main_script = past @ StartThread t # rest"
  shows "StartThread t \<notin> set past" "JoinThread t \<notin> set past" "is_server t \<or> AwaitReady \<in> set past"
proof -
  show new: "StartThread t \<notin> set past"
    using done_once [OF assms main_script_order(1)] by simp
  with done_implies [OF assms] main_script_order(3,4) show "JoinThread t \<notin> set past" by blast
  show "is_server t \<or> AwaitReady \<in> set past"
    using done_before [OF assms, of AwaitReady] main_script_order(6) [of t] by (auto simp: is_server_def)
qed

lemma thread_inv_quiet:
  assumes "mp_at s' = mp_at s" "mp_flag s' = mp_flag s" "mp_ready s' = mp_ready s"
    and "\<forall>a\<in>{StartThread t, JoinThread t, ClearFlag t, AwaitReady}. a \<in> set past' \<longleftrightarrow> a \<in> set past"
  shows "thread_inv ok past' s' t \<longleftrightarrow> thread_inv ok past s t"
  using assms by (simp add: thread_inv_def)

lemma main_step_thread_inv:
  assumes inv: "\<forall>t. thread_inv ok past s t" and script: "main_script = past @ a # rest"
    and en: "main_enabled a s"
  shows "thread_inv ok (past @ [a]) (main_effect a (s\<lparr>mp_todo := rest\<rparr>)) t"
proof (cases a)
  case (StartThread u)
  then show ?thesis
    using inv [rule_format, of t] inv [rule_format, of u] not_joined_before_start [of past u rest] script
    by (auto simp: thread_inv_def)
next
  case AwaitReady
  then show ?thesis
    using inv [rule_format, of t] en by (auto simp: thread_inv_def is_server_def)
next
  case (ClearFlag u)
  then show ?thesis using inv [rule_format, of t] by (auto simp: thread_inv_def)
next
  case (JoinThread u)
  then show ?thesis using inv [rule_format, of t] en by (auto simp: thread_inv_def)
qed ((rule iffD2 [OF thread_inv_quiet [where s = s and past = past]]; use inv in simp)+)

lemma main_step_worker_inv:
  assumes "worker_inv past s" "main_script = past @ a # rest"
  shows "worker_inv (past @ [a]) (main_effect a (s\<lparr>mp_todo := rest\<rparr>))"
proof (cases a)
  case StartLogger
  then have "StartLogger \<notin> set past"
    using done_once [OF assms(2) main_script_order(11)] by simp
  then have "StopLogger \<notin> set past"
    using done_implies [OF assms(2) _ main_script_order(10)] by blast
  with StartLogger show ?thesis by (simp add: worker_inv_def)
qed (use assms(1) in \<open>simp_all add: worker_inv_def\<close>)

lemma main_step_inv: "program_inv ok s \<Longrightarrow> program_inv ok (main_step s)"
proof -
  assume "program_inv ok s"
  then obtain past where d: "main_script = past @ mp_todo s" "\<forall>t. thread_inv ok past s t" "worker_inv past s"
    by (auto simp: program_inv_def)
  show ?thesis
  proof (cases "mp_todo s")
    case Nil
    with d show ?thesis by (auto simp: program_inv_def main_step_def)
  next
    case (Cons a rest)
    then have "mp_todo (main_effect a (s\<lparr>mp_todo := rest\<rparr>)) = rest" by (cases a) simp_all
    with Cons d main_step_thread_inv [OF d(2), of a rest] main_step_worker_inv [OF d(3), of a rest] show ?thesis
      by (cases "main_enabled a s")
        (fastforce simp: program_inv_def main_step_def intro: exI [of _ "past @ [a]"])+
  qed
qed

lemma thread_step_thread_inv:
  "thread_inv ok past s u \<Longrightarrow> thread_inv ok past (thread_step ok t s) u"
  by (cases "t = u"; cases "mp_at s t") (auto simp: thread_inv_def thread_step_def Let_def split: if_splits)

lemma thread_step_todo [simp]:
  "mp_todo (thread_step ok t s) = mp_todo s" "mp_aborted (thread_step ok t s) = mp_aborted s"
  by (simp_all add: thread_step_def Let_def split: location.split)

lemma thread_step_worker [simp]: "mp_worker (thread_step ok t s) = mp_worker s" "mp_enter (thread_step ok t s) = mp_enter s"
  by (simp_all add: thread_step_def Let_def split: location.split)

lemma move_if_fields [simp]:
  "mp_todo (move_if t l l' s) = mp_todo s" "mp_aborted (move_if t l l' s) = mp_aborted s"
  "mp_worker (move_if t l l' s) = mp_worker s" "mp_enter (move_if t l l' s) = mp_enter s"
  "mp_flag (move_if t l l' s) = mp_flag s" "mp_ready (move_if t l l' s) = mp_ready s" "mp_log (move_if t l l' s) = mp_log s"
  by (simp_all add: move_if_def)

lemma program_inv_init: "program_inv ok init_program"
  by (simp add: program_inv_def thread_inv_def worker_inv_def init_program_def)

lemma thread_inv_fields [simp]:
  "thread_inv ok past (s\<lparr>mp_aborted := b\<rparr>) t = thread_inv ok past s t"
  "thread_inv ok past (s\<lparr>mp_enter := b\<rparr>) t = thread_inv ok past s t"
  "thread_inv ok past (s\<lparr>mp_worker := w\<rparr>) t = thread_inv ok past s t"
  by (simp_all add: thread_inv_def)

lemma program_inv_abort: "program_inv ok s \<Longrightarrow> program_inv ok (s\<lparr>mp_aborted := True\<rparr>)"
  by (simp add: program_inv_def worker_inv_def)

text \<open>
  What the environment does keeps the invariant.
\<close>

definition environment :: "event set" where
  "environment = {Enter, ClientConnects, ClientLeaves, WorkerEnds}"

lemma move_if_thread_inv:
  "thread_inv ok past s u \<Longrightarrow> thread_inv ok past (move_if Tcp Working Serving s) u"
  "thread_inv ok past s u \<Longrightarrow> thread_inv ok past (move_if Tcp Serving Testing s) u"
  by (auto simp: thread_inv_def move_if_def is_server_def)

lemma environment_inv:
  assumes "program_inv ok s" "e \<in> environment"
  shows "program_inv ok (program_step ok e s)"
  using assms move_if_thread_inv
  by (auto simp: program_inv_def program_step_def environment_def worker_inv_def)

lemma program_step_inv:
  assumes "program_inv ok s"
  shows "program_inv ok (program_step ok e s)"
proof (cases e)
  case (ThreadStep t)
  with assms show ?thesis
    by (auto simp: program_inv_def program_step_def worker_inv_def intro: thread_step_thread_inv)
qed (use assms main_step_inv program_inv_abort environment_inv [OF assms, of e] in
    \<open>auto simp: program_step_def environment_def\<close>)

lemma run_program_simps [simp]:
  "run_program ok [] s = s" "run_program ok (e # es) s = run_program ok es (program_step ok e s)"
  "run_program ok (es @ es') s = run_program ok es' (run_program ok es s)"
  by (simp_all add: run_program_def)

lemma run_program_inv: "program_inv ok s \<Longrightarrow> program_inv ok (run_program ok es s)"
  by (induction es arbitrary: s) (simp_all add: program_step_inv)

section \<open>Stops that are lost\<close>

text \<open>
  \<^verbatim>\<open>run\<close> of the receiver and of the server sets the flag, so a stop that was executed before is
  undone; afterwards nobody clears the flag again.
\<close>

definition lost :: "(service \<Rightarrow> bool) \<Rightarrow> service \<Rightarrow> program \<Rightarrow> bool" where
  "lost ok t s \<longleftrightarrow>
     is_server t \<and> ok t \<and> ClearFlag t \<notin> set (mp_todo s) \<and>
     (mp_at s t \<in> {Starting, Announcing, Entering} \<or> mp_flag s t)"

definition lost_stop :: "(service \<Rightarrow> bool) \<Rightarrow> program \<Rightarrow> bool" where
  "lost_stop ok s \<longleftrightarrow> lost ok Udp s \<or> lost ok Tcp s"

lemma lost_main_step: "lost ok t s \<Longrightarrow> lost ok t (main_step s)"
proof (cases "mp_todo s")
  case (Cons a rest)
  then show "lost ok t s \<Longrightarrow> lost ok t (main_step s)" by (cases a) (auto simp: lost_def main_step_def)
qed (simp add: main_step_def)

lemma lost_thread_step: "lost ok t s \<Longrightarrow> lost ok t (thread_step ok u s)"
  by (cases "u = t"; cases "mp_at s u") (auto simp: lost_def thread_step_def Let_def)

lemma lost_program_step: "lost ok t s \<Longrightarrow> lost ok t (program_step ok e s)"
proof (cases e)
  case (ThreadStep u)
  then show "lost ok t s \<Longrightarrow> ?thesis" using lost_thread_step [of ok t s u] by (simp add: program_step_def)
next
  case MainStep
  then show "lost ok t s \<Longrightarrow> ?thesis" using lost_main_step [of ok t s] by (simp add: program_step_def)
qed (auto simp: program_step_def move_if_def lost_def)

lemma lost_run: "lost ok t s \<Longrightarrow> lost ok t (run_program ok es s)"
  by (induction es arbitrary: s) (simp_all add: lost_program_step)

lemma lost_stop_run: "lost_stop ok s \<Longrightarrow> lost_stop ok (run_program ok es s)"
  by (auto simp: lost_stop_def lost_run)

lemma finished_ended: "program_inv ok s \<Longrightarrow> mp_todo s = [] \<Longrightarrow> mp_at s t = Ended"
  using main_script_facts(2) [of t] by (auto simp: program_inv_def thread_inv_def)

lemma lost_not_finished:
  assumes "program_inv ok s" "lost_stop ok s"
  shows "mp_todo s \<noteq> []"
proof
  assume "mp_todo s = []"
  then have th: "thread_inv ok main_script s t" "mp_at s t = Ended" for t
    using assms(1) finished_ended by (auto simp: program_inv_def)
  have "\<not> lost ok t s" for t using th [of t] by (auto simp: thread_inv_def lost_def)
  with assms(2) show False by (simp add: lost_stop_def)
qed

section \<open>Progress\<close>

text \<open>
  How many steps a thread is from its end, or from the test of a flag that is still set.
\<close>

fun rank :: "bool \<Rightarrow> location \<Rightarrow> nat" where
  "rank flag Unstarted = 0"
| "rank flag Starting = 8"
| "rank flag Announcing = 7"
| "rank flag Entering = 6"
| "rank flag Reporting = 5"
| "rank flag Testing = (if flag then 4 else 1)"
| "rank flag Working = (if flag then 4 else 3)"
| "rank flag Serving = (if flag then 4 else 2)"
| "rank flag Ended = 0"

definition thread_rank :: "program \<Rightarrow> service \<Rightarrow> nat" where
  "thread_rank s t = rank (mp_flag s t) (mp_at s t)"

definition potential :: "program \<Rightarrow> nat" where
  "potential s = 9 * length (mp_todo s) + (\<Sum>t\<leftarrow>services. thread_rank s t) +
     (if mp_enter s then 0 else 1) + (if mp_worker s = Finished then 0 else 1)"

text \<open>
  An event that brings the program nearer to its end.
\<close>

fun helpful :: "program \<Rightarrow> event \<Rightarrow> bool" where
  "helpful s MainStep \<longleftrightarrow> mp_todo s \<noteq> [] \<and> main_enabled (hd (mp_todo s)) s"
| "helpful s (ThreadStep t) \<longleftrightarrow>
     mp_at s t \<notin> {Unstarted, Serving, Ended} \<and> \<not> (mp_flag s t \<and> mp_at s t \<in> {Testing, Working})"
| "helpful s Enter \<longleftrightarrow> \<not> mp_enter s"
| "helpful s ClientLeaves \<longleftrightarrow> mp_at s Tcp = Serving \<and> \<not> mp_flag s Tcp"
| "helpful s WorkerEnds \<longleftrightarrow> mp_worker s = Stopping"
| "helpful s _ \<longleftrightarrow> False"

lemma rank_bound: "rank f l \<le> 8" "rank False l \<le> rank f l"
  by (cases l; simp)+

lemma potential_thread:
  assumes "\<And>u. u \<noteq> t \<Longrightarrow> thread_rank s' u = thread_rank s u" "mp_todo s' = mp_todo s"
    and "mp_enter s' = mp_enter s" "mp_worker s' = mp_worker s"
  shows "potential s' + thread_rank s t = potential s + thread_rank s' t"
  using assms by (cases t) (simp_all add: potential_def services_def)

lemma thread_step_other_rank: "u \<noteq> t \<Longrightarrow> thread_rank (thread_step ok t s) u = thread_rank s u"
  by (cases "mp_at s t") (simp_all add: thread_rank_def thread_step_def Let_def)

lemma thread_step_rank: "thread_rank (thread_step ok t s) t \<le> thread_rank s t"
  by (cases "mp_at s t") (simp_all add: thread_rank_def thread_step_def Let_def)

lemma thread_step_helpful_rank:
  "helpful s (ThreadStep t) \<Longrightarrow> thread_rank (thread_step ok t s) t < thread_rank s t"
  by (cases "mp_at s t") (simp_all add: thread_rank_def thread_step_def Let_def)

lemma thread_step_potential:
  "potential (thread_step ok t s) \<le> potential s"
  "helpful s (ThreadStep t) \<Longrightarrow> potential (thread_step ok t s) < potential s"
  using potential_thread [of t "thread_step ok t s" s] thread_step_other_rank [of _ t ok s]
    thread_step_rank [of ok t s] thread_step_helpful_rank [of s t ok]
  by simp_all

lemma main_effect_potential: "potential (main_effect a s) \<le> potential s + 8"
proof (cases a)
  case (StartThread t)
  then show ?thesis
    using potential_thread [of t "main_effect a s" s] rank_bound(1) [of "mp_flag s t" Starting]
    by (simp add: thread_rank_def)
next
  case (ClearFlag t)
  then show ?thesis
    using potential_thread [of t "main_effect a s" s] rank_bound(2) [of "mp_at s t" "mp_flag s t"]
    by (simp add: thread_rank_def)
qed (simp_all add: potential_def thread_rank_def)

lemma main_step_potential:
  "main_step s = s \<or> potential (main_step s) < potential s"
  "helpful s MainStep \<Longrightarrow> potential (main_step s) < potential s"
proof -
  have pop: "potential (s\<lparr>mp_todo := rest\<rparr>) + 9 = potential s" if "mp_todo s = a # rest" for a rest
    using that by (simp add: potential_def thread_rank_def)
  have less: "potential (main_effect a (s\<lparr>mp_todo := rest\<rparr>)) < potential s" if "mp_todo s = a # rest" for a rest
    using pop [OF that] main_effect_potential [of a "s\<lparr>mp_todo := rest\<rparr>"] by linarith
  then show "main_step s = s \<or> potential (main_step s) < potential s"
    "helpful s MainStep \<Longrightarrow> potential (main_step s) < potential s"
    by (auto simp: main_step_def split: list.splits)
qed

lemma move_if_potential:
  assumes "mp_at s t = l" "rank (mp_flag s t) l' \<le> rank (mp_flag s t) l"
  shows "potential (move_if t l l' s) + rank (mp_flag s t) l = potential s + rank (mp_flag s t) l'"
  using potential_thread [of t "move_if t l l' s" s] assms
  by (simp add: thread_rank_def move_if_def)

text \<open>
  The environment never takes the program further from its end, and brings it nearer where it can.
\<close>

lemma environment_potential:
  assumes "\<not> mp_aborted s" "e \<in> environment"
  shows "potential (program_step ok e s) \<le> potential s"
    "helpful s e \<Longrightarrow> potential (program_step ok e s) < potential s"
proof -
  have enter: "potential (s\<lparr>mp_enter := True\<rparr>) + (if mp_enter s then 0 else 1) = potential s"
    by (simp add: potential_def thread_rank_def)
  have worker: "potential (s\<lparr>mp_worker := Finished\<rparr>) + (if mp_worker s = Finished then 0 else 1) = potential s"
    by (simp add: potential_def thread_rank_def)
  have same: "move_if t l l' s = s" if "mp_at s t \<noteq> l" for t l l' using that by (simp add: move_if_def)
  consider "e = Enter" | "e = WorkerEnds" | "e = ClientConnects" | "e = ClientLeaves"
    using assms(2) by (auto simp: environment_def)
  then have "potential (program_step ok e s) \<le> potential s \<and>
      (helpful s e \<longrightarrow> potential (program_step ok e s) < potential s)"
  proof cases
    case 3
    then show ?thesis
      using assms(1) move_if_potential [of s Tcp Working Serving] same [of Tcp Working]
      by (cases "mp_at s Tcp = Working"; cases "mp_flag s Tcp") (simp_all add: program_step_def)
  next
    case 4
    then show ?thesis
      using assms(1) move_if_potential [of s Tcp Serving Testing] same [of Tcp Serving]
      by (cases "mp_at s Tcp = Serving"; cases "mp_flag s Tcp") (simp_all add: program_step_def)
  qed (use assms(1) enter worker in \<open>auto simp: program_step_def split: if_splits\<close>)
  then show "potential (program_step ok e s) \<le> potential s"
    "helpful s e \<Longrightarrow> potential (program_step ok e s) < potential s" by blast+
qed

lemma program_step_potential: "potential (program_step ok e s) \<le> potential s"
proof (cases "mp_aborted s")
  case False
  show ?thesis
  proof (cases e)
    case MainStep
    with main_step_potential(1) [of s] show ?thesis by (auto simp: program_step_def)
  next
    case (ThreadStep t)
    with thread_step_potential(1) show ?thesis by (simp add: program_step_def)
  qed (use environment_potential(1) [OF False, of e] in
      \<open>simp_all add: environment_def program_step_def potential_def thread_rank_def\<close>)
qed (simp add: program_step_def)

lemma run_potential: "potential (run_program ok es s) \<le> potential s"
proof (induction es arbitrary: s)
  case (Cons e es)
  from Cons.IH [of "program_step ok e s"] program_step_potential [of ok e s] show ?case by simp
qed simp

lemma aborted_run: "mp_aborted s \<Longrightarrow> mp_aborted (run_program ok es s)"
  by (induction es arbitrary: s) (simp_all add: program_step_def)

text \<open>
  What the main thread may wait for besides the other threads: a line from the user, a client that is
  being served while the server is to be joined, and the worker of the logger.
\<close>

definition main_waits :: "program \<Rightarrow> bool" where
  "main_waits s \<longleftrightarrow>
     (case mp_todo s of
        AwaitEnter # _ \<Rightarrow> \<not> mp_enter s
      | JoinThread t # _ \<Rightarrow> t = Tcp \<and> mp_at s Tcp = Serving
      | JoinLogger # _ \<Rightarrow> mp_worker s \<noteq> Finished
      | _ \<Rightarrow> False)"

text \<open>
  Unless a stop was lost or the main thread waits for the environment, some thread can help, and it
  keeps the ability until it is scheduled or another step helps.
\<close>

lemma helpful_exists:
  assumes inv: "program_inv ok s" and todo: "mp_todo s \<noteq> []" and stops: "\<not> lost_stop ok s"
    and free: "\<not> main_waits s"
  shows "helpful s MainStep \<or>
    (\<exists>t. helpful s (ThreadStep t) \<and> (mp_at s t \<in> {Starting, Announcing} \<or> hd (mp_todo s) = JoinThread t))"
proof -
  obtain a rest where ar: "mp_todo s = a # rest" using todo by (cases "mp_todo s") auto
  obtain past where script: "main_script = past @ a # rest" and th: "\<And>t. thread_inv ok past s t"
    using inv ar by (auto simp: program_inv_def)
  show ?thesis
  proof (cases a)
    case AwaitReady
    have "StartThread t \<in> set past" if "is_server t" for t
      using done_before [OF script, of "StartThread t"] AwaitReady main_script_order(7) [of t] that
      by (simp add: is_server_def)
    then have "mp_at s t \<in> {Starting, Announcing}" "helpful s (ThreadStep t)"
      if "is_server t" "\<not> mp_ready s t" for t
      using th [of t] that by (auto simp: thread_inv_def)
    moreover have "\<exists>t. is_server t \<and> \<not> mp_ready s t" if "\<not> helpful s MainStep"
      using that ar AwaitReady by (auto simp: is_server_def)
    ultimately show ?thesis by blast
  next
    case (JoinThread t)
    have past: "ClearFlag t \<in> set past"
      using done_before [OF script] JoinThread main_script_order(4) by simp
    then have "StartThread t \<in> set past" "ClearFlag t \<notin> set (a # rest)"
      using done_implies [OF script past main_script_order(3)] done_once [OF script main_script_order(2)] by auto
    moreover have "mp_at s t \<noteq> Serving"
      using th [of t] free ar JoinThread by (auto simp: thread_inv_def main_waits_def)
    ultimately have "helpful s (ThreadStep t)" if "mp_at s t \<noteq> Ended"
      using th [of t] past that stops ar
      by (auto simp: thread_inv_def lost_stop_def lost_def is_server_def split: if_splits)
    with ar JoinThread show ?thesis by auto
  qed (use ar free in \<open>auto simp: main_waits_def\<close>)
qed

text \<open>
  When it does wait, what it waits for can happen, and would help.
\<close>

lemma environment_helps:
  assumes inv: "program_inv ok s" and stops: "\<not> lost_stop ok s" and "main_waits s"
  shows "\<exists>e\<in>{Enter, ClientLeaves, WorkerEnds}. helpful s e"
proof -
  obtain a rest where ar: "mp_todo s = a # rest" using assms(3) by (cases "mp_todo s") (auto simp: main_waits_def)
  obtain past where script: "main_script = past @ a # rest" and th: "\<And>t. thread_inv ok past s t"
    and worker: "worker_inv past s"
    using inv ar by (auto simp: program_inv_def)
  consider "a = AwaitEnter" "\<not> mp_enter s" | "a = JoinThread Tcp" "mp_at s Tcp = Serving"
    | "a = JoinLogger" "mp_worker s \<noteq> Finished"
    using assms(3) ar by (auto simp: main_waits_def split: main_action.splits)
  then show ?thesis
  proof cases
    case 2
    have past: "ClearFlag Tcp \<in> set past"
      using done_before [OF script] 2(1) main_script_order(4) by simp
    then have "ClearFlag Tcp \<notin> set (a # rest)" using done_once [OF script main_script_order(2)] by auto
    then have "\<not> mp_flag s Tcp"
      using th [of Tcp] stops ar by (auto simp: thread_inv_def lost_stop_def lost_def is_server_def)
    with 2 show ?thesis by simp
  next
    case 3
    have "StopLogger \<in> set past" using done_before [OF script] 3(1) main_script_order(12) by simp
    with worker 3 show ?thesis by (simp add: worker_inv_def)
  qed simp
qed

lemma move_if_other:
  "mp_at (move_if t l l' s) u = (if u = t \<and> mp_at s t = l then l' else mp_at s u)"
  by (simp add: move_if_def)

lemma helpful_kept:
  assumes "helpful s a" "e \<noteq> a" "\<not> mp_aborted (program_step ok e s)"
  shows "potential (program_step ok e s) < potential s \<or> helpful (program_step ok e s) a"
proof (cases e)
  case MainStep
  with assms(1) main_step_potential(1) [of s] show ?thesis by (auto simp: program_step_def)
next
  case (ThreadStep t)
  have at: "mp_at (thread_step ok t s) u = mp_at s u" "mp_flag (thread_step ok t s) u = mp_flag s u" if "u \<noteq> t" for u
    using that by (simp_all add: thread_step_def Let_def split: location.split)
  have kept: "mp_ready s u \<Longrightarrow> mp_ready (thread_step ok t s) u"
    "mp_at s u = Ended \<Longrightarrow> mp_at (thread_step ok t s) u = Ended"
    "mp_at s u = Serving \<Longrightarrow> mp_at (thread_step ok t s) u = Serving \<and> mp_flag (thread_step ok t s) u = mp_flag s u" for u
    by (auto simp: thread_step_def Let_def split: location.split)
  have "helpful (thread_step ok t s) a"
  proof (cases a)
    case MainStep
    with assms(1) kept show ?thesis by (cases "hd (mp_todo s)") auto
  next
    case (ThreadStep u)
    with assms \<open>e = ThreadStep t\<close> at [of u] show ?thesis by auto
  qed (use assms(1) kept in auto)
  with assms(1) ThreadStep show ?thesis by (simp add: program_step_def)
next
  case ClientConnects
  have "potential (move_if Tcp Working Serving s) < potential s" if "\<not> mp_flag s Tcp" "mp_at s Tcp = Working"
    using move_if_potential [of s Tcp Working Serving] that by simp
  moreover have "helpful (move_if Tcp Working Serving s) a" if "mp_flag s Tcp \<or> mp_at s Tcp \<noteq> Working"
  proof (cases a)
    case MainStep
    with assms(1) show ?thesis by (cases "hd (mp_todo s)") (auto simp: move_if_other)
  qed (use assms(1) that in \<open>auto simp: move_if_other\<close>)
  ultimately show ?thesis using ClientConnects assms(3) by (simp add: program_step_def split: if_splits) blast
next
  case ClientLeaves
  have "potential (move_if Tcp Serving Testing s) < potential s" if "\<not> mp_flag s Tcp" "mp_at s Tcp = Serving"
    using move_if_potential [of s Tcp Serving Testing] that by simp
  moreover have "helpful (move_if Tcp Serving Testing s) a" if "mp_flag s Tcp \<or> mp_at s Tcp \<noteq> Serving"
  proof (cases a)
    case MainStep
    with assms(1) show ?thesis by (cases "hd (mp_todo s)") (auto simp: move_if_other)
  qed (use assms(1) that in \<open>auto simp: move_if_other\<close>)
  ultimately show ?thesis using ClientLeaves assms(3) by (simp add: program_step_def split: if_splits) blast
next
  case Enter
  have "helpful (s\<lparr>mp_enter := True\<rparr>) a"
  proof (cases a)
    case MainStep
    with assms(1) show ?thesis by (cases "hd (mp_todo s)") auto
  qed (use assms(1,2) Enter in auto)
  with Enter assms show ?thesis by (simp add: program_step_def)
next
  case WorkerEnds
  have "helpful (s\<lparr>mp_worker := Finished\<rparr>) a"
  proof (cases a)
    case MainStep
    with assms(1) show ?thesis by (cases "hd (mp_todo s)") auto
  qed (use assms(1,2) WorkerEnds in auto)
  with WorkerEnds assms show ?thesis by (simp add: program_step_def)
qed (use assms in \<open>auto simp: program_step_def\<close>)

lemma helpful_step:
  assumes "helpful s a" "\<not> mp_aborted s"
  shows "potential (program_step ok a s) < potential s"
proof (cases a)
  case MainStep
  with assms main_step_potential(2) [of s] show ?thesis by (simp add: program_step_def)
next
  case (ThreadStep t)
  with assms thread_step_potential(2) [of s t] show ?thesis by (simp add: program_step_def)
qed (use assms environment_potential(2) [OF assms(2), of a] in \<open>simp_all add: environment_def\<close>)

lemma round_helps:
  "helpful s a \<Longrightarrow> a \<in> set es \<Longrightarrow> \<not> mp_aborted (run_program ok es s) \<Longrightarrow>
   potential (run_program ok es s) < potential s"
proof (induction es arbitrary: s)
  case (Cons e es)
  let ?s = "program_step ok e s"
  have run: "\<not> mp_aborted ?s" "\<not> mp_aborted s"
    using Cons.prems(3) aborted_run [of ?s ok es] aborted_run [of s ok "e # es"] by auto
  have less: "potential (run_program ok (e # es) s) < potential s" if "potential ?s < potential s"
    using that run_potential [of ok es ?s] by simp
  show ?case
  proof (cases "e = a")
    case True
    with Cons.prems(1) run(2) helpful_step [of s a ok] show ?thesis by (intro less) simp
  next
    case False
    have "potential (run_program ok (e # es) s) < potential s" if "helpful ?s a"
      using Cons.IH [OF that] Cons.prems(2,3) False program_step_potential [of ok e s] by simp
    with helpful_kept [OF Cons.prems(1) False run(1)] less show ?thesis by blast
  qed
qed simp

text \<open>
  A round of a fair schedule gives every thread at least one step.
\<close>

definition fair_round :: "event list \<Rightarrow> bool" where
  "fair_round es \<longleftrightarrow> MainStep \<in> set es \<and> list_all (\<lambda>t. ThreadStep t \<in> set es) services"

lemma fair_round_set: "fair_round es \<Longrightarrow> insert MainStep (range ThreadStep) \<subseteq> set es"
  by (auto simp: fair_round_def list_all_iff)

text \<open>
  In a round the environment answers when the user presses Enter, the client that is being served
  leaves and the worker of the logger notices its stop.
\<close>

definition answered_round :: "event list \<Rightarrow> bool" where
  "answered_round es \<longleftrightarrow> {Enter, ClientLeaves, WorkerEnds} \<subseteq> set es"

definition settled :: "(service \<Rightarrow> bool) \<Rightarrow> program \<Rightarrow> bool" where
  "settled ok s \<longleftrightarrow> mp_todo s = [] \<or> mp_aborted s \<or> lost_stop ok s"

lemma settled_run: "settled ok s \<Longrightarrow> settled ok (run_program ok es s)"
proof -
  have "mp_todo s = [] \<Longrightarrow> mp_todo (run_program ok es s) = []" for s
    by (induction es arbitrary: s) (auto simp: program_step_def main_step_def split: event.split)
  then show "settled ok s \<Longrightarrow> ?thesis" by (auto simp: settled_def aborted_run lost_stop_run)
qed

text \<open>
  Rounds that contain all events of \<open>H\<close> and only events of \<open>E\<close> reach \<open>Q\<close>, when some event of
  \<open>H\<close> helps as long as it is not reached.
\<close>

lemma rounds_reach:
  assumes helps: "\<And>s. P s \<Longrightarrow> \<not> Q s \<Longrightarrow> \<exists>e\<in>H. helpful s e"
    and kept: "\<And>s e. P s \<Longrightarrow> e \<in> E \<Longrightarrow> P (program_step ok e s)"
    and aborted: "\<And>s. mp_aborted s \<Longrightarrow> Q s"
  shows "P s \<Longrightarrow> \<forall>r\<in>set rs. H \<subseteq> set r \<and> set r \<subseteq> E \<Longrightarrow> potential s < length rs \<Longrightarrow>
    \<exists>k\<le>length rs. Q (run_program ok (concat (take k rs)) s)"
proof (induction rs arbitrary: s)
  case (Cons r rs)
  let ?s = "run_program ok r s"
  have run: "P (run_program ok es s)" if "P s" "set es \<subseteq> E" for es s
    using that by (induction es arbitrary: s) (simp_all add: kept)
  show ?case
  proof (cases "Q s \<or> Q ?s")
    case True
    then show ?thesis
      by (elim disjE) (intro exI [of _ 0], simp, intro exI [of _ "Suc 0"], simp)
  next
    case False
    from helps [OF Cons.prems(1)] False obtain e where "helpful s e" "e \<in> set r"
      using Cons.prems(2) by auto
    then have "potential ?s < potential s" using False aborted round_helps by blast
    moreover have "P ?s" using run Cons.prems(1,2) by simp
    ultimately obtain k where "k \<le> length rs" "Q (run_program ok (concat (take k rs)) ?s)"
      using Cons.IH [of ?s] Cons.prems(2,3) by auto
    then show ?thesis by (intro exI [of _ "Suc k"]) simp
  qed
qed simp

lemma rounds_settle:
  assumes helps: "\<And>s. P s \<Longrightarrow> \<not> settled ok s \<Longrightarrow> \<exists>e\<in>H. helpful s e"
    and kept: "\<And>s e. P s \<Longrightarrow> e \<in> E \<Longrightarrow> P (program_step ok e s)"
    and rounds: "P s" "\<forall>r\<in>set rs. H \<subseteq> set r \<and> set r \<subseteq> E" "potential s < length rs"
  shows "settled ok (run_program ok (concat rs) s) \<and> P (run_program ok (concat rs) s)"
proof -
  obtain k where k: "settled ok (run_program ok (concat (take k rs)) s)"
    using rounds_reach [of P "settled ok", OF helps kept _ rounds] by (auto simp: settled_def)
  have "settled ok (run_program ok (concat (take k rs) @ concat (drop k rs)) s)"
    using settled_run [OF k] by simp
  then have "settled ok (run_program ok (concat rs) s)" by (simp flip: concat_append)
  moreover have run: "P (run_program ok es s)" if "P s" "set es \<subseteq> E" for es s
    using that by (induction es arbitrary: s) (simp_all add: kept)
  have "P (run_program ok (concat rs) s)" using rounds(2) by (intro run rounds(1)) auto
  ultimately show ?thesis by blast
qed

section \<open>Properties of the program\<close>

lemma thread_inv_ready:
  "thread_inv ok past s t \<Longrightarrow> is_server t \<Longrightarrow> AwaitReady \<in> set past \<Longrightarrow> mp_ready s t"
  unfolding thread_inv_def by (simp only: if_True) blast

text \<open>
  After the logger is stopped only console output is left to do.
\<close>

lemma todo_after_stop:
  assumes "main_script = past @ todo" "StopLogger \<in> set past"
  shows "\<forall>a\<in>set todo. a = JoinLogger \<or> (\<exists>l. a = Print l)"
proof -
  obtain x xs where x: "dropWhile (\<lambda>a. a \<noteq> StopLogger) past = x # xs"
    using assms(2) by (cases "dropWhile (\<lambda>a. a \<noteq> StopLogger) past") auto
  have "\<exists>l l'. dropWhile (\<lambda>a. a \<noteq> StopLogger) main_script = [StopLogger, JoinLogger, Print l, Print l']"
    unfolding main_script_eq by (simp add: script_with_def)
  moreover have "dropWhile (\<lambda>a. a \<noteq> StopLogger) main_script = x # xs @ todo"
    unfolding assms(1) using assms(2) x by simp
  ultimately obtain l l' where "xs @ todo = [JoinLogger, Print l, Print l']" by auto
  from arg_cong [OF this, of set] show ?thesis by auto
qed

lemma main_effect_todo [simp]: "mp_todo (main_effect a s) = mp_todo s"
  by (cases a) simp_all

lemma program_step_todo: "set (mp_todo (program_step ok e s)) \<subseteq> set (mp_todo s)"
  by (cases e) (auto simp: program_step_def main_step_def split: list.splits)

lemma quiet_step:
  assumes "\<And>t. mp_at s t = Ended" "\<forall>a\<in>set (mp_todo s). a = JoinLogger \<or> (\<exists>l. a = Print l)"
  shows "mp_at (program_step ok e s) t = Ended"
    "\<forall>a\<in>set (mp_todo (program_step ok e s)). a = JoinLogger \<or> (\<exists>l. a = Print l)"
    "mp_log (program_step ok e s) = mp_log s"
proof -
  have "mp_at (main_step s) t = Ended \<and> mp_log (main_step s) = mp_log s"
    using assms by (cases "mp_todo s") (auto simp: main_step_def)
  then show "mp_at (program_step ok e s) t = Ended" "mp_log (program_step ok e s) = mp_log s"
    using assms(1) by (cases e; simp add: program_step_def thread_step_def move_if_other)+
  show "\<forall>a\<in>set (mp_todo (program_step ok e s)). a = JoinLogger \<or> (\<exists>l. a = Print l)"
    using assms(2) program_step_todo [of ok e s] by blast
qed

lemma quiet_run:
  "(\<And>t. mp_at s t = Ended) \<Longrightarrow> \<forall>a\<in>set (mp_todo s). a = JoinLogger \<or> (\<exists>l. a = Print l) \<Longrightarrow>
   mp_log (run_program ok es s) = mp_log s"
proof (induction es arbitrary: s)
  case (Cons e es)
  note step = quiet_step [OF Cons.prems, of ok e]
  from Cons.IH [OF step(1,2)] step(3) show ?case by simp
qed simp

lemma quiet_after_stop:
  assumes "main_script = past @ mp_todo s" "\<And>t. thread_inv ok past s t" "StopLogger \<notin> set (mp_todo s)"
  shows "mp_log (run_program ok es s) = mp_log s"
proof -
  have stop: "StopLogger \<in> set past"
    using main_script_facts(3) assms(3) unfolding assms(1) by simp
  then have "mp_at s t = Ended" for t
    using done_implies [OF assms(1) stop main_script_order(5)] assms(2) [of t] by (simp add: thread_inv_def)
  with todo_after_stop [OF assms(1) stop] show ?thesis by (simp add: quiet_run)
qed

lemma init_potential: "potential init_program = 9 * length main_script + 2"
  by (simp add: potential_def init_program_def services_def thread_rank_def)

text \<open>
  C7: how far the program gets, under every schedule made of rounds in which each thread takes at
  least one step, in any order and any number of times.  Within 417 rounds the main thread has
  finished its script or has come to one of the three places where it waits for the environment: in
  \<^verbatim>\<open>cin.get\<close> for a line, in the join of the server thread for a client that is still served, and
  in the join of the logger for a worker that has not noticed its stop; otherwise an exception ended
  the program or a stop of the receiver or the server came before its \<^verbatim>\<open>run\<close> and was lost.  And
  when the environment answers in every round, 417 rounds are enough for the whole script, with the
  same two exceptions.
\<close>

theorem main_terminates:
  assumes "list_all fair_round rounds" "417 \<le> length rounds"
  shows "(\<exists>k\<le>417. let s = run_program ok (concat (take k rounds)) init_program
      in mp_todo s = [] \<or> mp_aborted s \<or> lost_stop ok s \<or> main_waits s) \<and>
    (list_all answered_round rounds \<longrightarrow>
      (let s = run_program ok (concat rounds) init_program
       in mp_todo s = [] \<or> mp_aborted s \<or> lost_stop ok s))"
proof (intro conjI impI)
  let ?H = "insert MainStep (range ThreadStep)" and ?A = "{Enter, ClientLeaves, WorkerEnds}"
  let ?Q = "\<lambda>s. settled ok s \<or> main_waits s"
  have pot: "potential init_program < 417" unfolding init_potential main_script_facts(1) by simp
  have fair: "\<forall>r\<in>set rounds. ?H \<subseteq> set r" using assms(1) fair_round_set by (auto simp: list_all_iff)
  have threads: "\<exists>e\<in>?H. helpful s e" if "program_inv ok s" "\<not> ?Q s" for s
    using helpful_exists [of ok s] that by (auto simp: settled_def simp del: helpful.simps)
  have "\<exists>k\<le>length (take 417 rounds). ?Q (run_program ok (concat (take k (take 417 rounds))) init_program)"
  proof (rule rounds_reach [where P = "program_inv ok" and E = UNIV, OF threads program_step_inv _ program_inv_init])
    show "\<forall>r\<in>set (take 417 rounds). ?H \<subseteq> set r \<and> set r \<subseteq> UNIV" using fair by (auto dest: in_set_takeD)
  qed (use pot assms(2) in \<open>simp_all add: settled_def\<close>)
  then obtain k where k: "k \<le> 417" "?Q (run_program ok (concat (take k (take 417 rounds))) init_program)"
    using assms(2) by auto
  then have "take k (take 417 rounds) = take k rounds" by simp
  with k show "\<exists>k\<le>417. let s = run_program ok (concat (take k rounds)) init_program
      in mp_todo s = [] \<or> mp_aborted s \<or> lost_stop ok s \<or> main_waits s"
    unfolding Let_def settled_def by (intro exI [of _ k]) (simp del: take_take)
  assume "list_all answered_round rounds"
  then have rounds: "\<forall>r\<in>set rounds. ?H \<union> ?A \<subseteq> set r \<and> set r \<subseteq> UNIV"
    using fair by (auto simp: list_all_iff answered_round_def)
  have "\<exists>e\<in>?H \<union> ?A. helpful s e" if "program_inv ok s" "\<not> settled ok s" for s
    using threads [OF that(1)] environment_helps [OF that(1)] that(2) unfolding settled_def by blast
  from rounds_settle [of "program_inv ok" ok, OF this program_step_inv program_inv_init rounds] pot assms(2)
  show "let s = run_program ok (concat rounds) init_program in mp_todo s = [] \<or> mp_aborted s \<or> lost_stop ok s"
    by (simp add: settled_def Let_def)
qed

theorem main_terminates_witness:
  "\<exists>rounds. length rounds = 417 \<and> settled (\<lambda>_. True) (run_program (\<lambda>_. True) (concat rounds) init_program) \<and>
     (\<exists>k\<le>417. let s = run_program (\<lambda>_. True) (concat (take k rounds)) init_program
      in mp_todo s = [] \<or> mp_aborted s \<or> lost_stop (\<lambda>_. True) s \<or> main_waits s)"
proof -
  let ?round = "[MainStep, Enter, ClientLeaves, WorkerEnds] @ map ThreadStep services"
  have "list_all fair_round (replicate 417 ?round)" "list_all answered_round (replicate 417 ?round)"
    by (simp_all add: fair_round_def answered_round_def list_all_iff)
  with main_terminates [of "replicate 417 ?round" "\<lambda>_. True"] show ?thesis
    by (intro exI [of _ "replicate 417 ?round"]) (simp add: settled_def Let_def)
qed

text \<open>
  C35: shutdown is orderly: under every schedule, when the main thread has finished every service has
  ended; a service is joined only after it has ended; the dashboard, the watchdog and the simulations
  start only after receiver and server announced that they are ready; and once the logger is stopped
  no thread logs any more.
\<close>

theorem main_shutdown:
  assumes "s = run_program ok es init_program"
  shows "(mp_todo s = [] \<longrightarrow> mp_at s t = Ended) \<and>
    (mp_at s t \<notin> {Unstarted, Ended} \<longrightarrow> JoinThread t \<in> set (mp_todo s)) \<and>
    (\<not> is_server t \<and> mp_at s t \<noteq> Unstarted \<longrightarrow> mp_ready s Udp \<and> mp_ready s Tcp) \<and>
    (StopLogger \<notin> set (mp_todo s) \<longrightarrow> mp_log (run_program ok es' s) = mp_log s)"
proof -
  have "program_inv ok s" unfolding assms by (intro run_program_inv program_inv_init)
  then obtain past where past: "main_script = past @ mp_todo s" and th: "\<And>t. thread_inv ok past s t"
    by (auto simp: program_inv_def)
  have joined: "JoinThread t \<in> set past \<or> JoinThread t \<in> set (mp_todo s)" for t
    using main_script_facts(2) [of t] unfolding past by simp
  have ended: "mp_at s t = Ended" if "JoinThread t \<notin> set (mp_todo s)" for t
    using joined [of t] th [of t] that by (simp add: thread_inv_def)
  have "mp_ready s Udp \<and> mp_ready s Tcp" if "AwaitReady \<in> set past"
    using thread_inv_ready [OF th] that by (simp add: is_server_def)
  then have ready: "mp_ready s Udp \<and> mp_ready s Tcp" if "\<not> is_server t" "mp_at s t \<noteq> Unstarted"
    using that th [of t] by (simp add: thread_inv_def)
  have log: "mp_log (run_program ok es' s) = mp_log s" if "StopLogger \<notin> set (mp_todo s)"
    using quiet_after_stop [OF past th that] .
  show ?thesis using joined ended [of t] ready log th [of t] by (auto simp: thread_inv_def)
qed

theorem main_shutdown_witness:
  "mp_at (run_program (\<lambda>_. True) (replicate 4 MainStep) init_program) Udp = Starting \<and>
   JoinThread Udp \<in> set (mp_todo (run_program (\<lambda>_. True) (replicate 4 MainStep) init_program))"
proof -
  have "mp_at (run_program (\<lambda>_. True) (replicate 4 MainStep) init_program) Udp = Starting"
    unfolding init_program_def main_script_eq
    by (simp add: numeral_eq_Suc script_with_def program_step_def main_step_def)
  with main_shutdown [OF refl, of "\<lambda>_. True" "replicate 4 MainStep" Udp] show ?thesis by simp
qed

text \<open>
  A schedule in which the receiver thread announces that it is ready and is then not scheduled, while
  all others go on and the environment answers.
\<close>

definition other_events :: "event list" where
  "other_events = [MainStep, Enter, ClientLeaves, WorkerEnds] @ map ThreadStep (filter (\<lambda>t. t \<noteq> Udp) services)"

definition stop_overtakes_run :: "event list" where
  "stop_overtakes_run =
     replicate 4 MainStep @ replicate 2 (ThreadStep Udp) @ concat (replicate 417 other_events)"

definition parked :: "(service \<Rightarrow> bool) \<Rightarrow> program \<Rightarrow> bool" where
  "parked ok s \<longleftrightarrow> program_inv ok s \<and> mp_at s Udp = Entering \<and> \<not> mp_aborted s"

lemma set_other_events:
  "set other_events = {MainStep, Enter, ClientLeaves, WorkerEnds} \<union> ThreadStep ` {t. t \<noteq> Udp}"
  by (auto simp: other_events_def)

lemma parked_step:
  assumes "parked ok s" "e \<in> set other_events"
  shows "parked ok (program_step ok e s)"
proof -
  have inv: "program_inv ok s" and at: "mp_at s Udp = Entering" "\<not> mp_aborted s"
    using assms(1) by (auto simp: parked_def)
  consider "e = MainStep" | t where "e = ThreadStep t" "t \<noteq> Udp" | "e \<in> {Enter, ClientLeaves, WorkerEnds}"
    using assms(2) by (auto simp: set_other_events)
  then have "mp_at (program_step ok e s) Udp = Entering \<and> \<not> mp_aborted (program_step ok e s)"
  proof cases
    case 1
    have "a \<noteq> StartThread Udp" if todo: "mp_todo s = a # rest" for a rest
    proof
      assume "a = StartThread Udp"
      then obtain past where "main_script = past @ StartThread Udp # rest" "thread_inv ok past s Udp"
        using inv todo by (auto simp: program_inv_def)
      with not_joined_before_start(1) at show False by (auto simp: thread_inv_def)
    qed
    with 1 at show ?thesis
      by (cases "mp_todo s"; cases "hd (mp_todo s)") (auto simp: program_step_def main_step_def)
  next
    case (2 t)
    with at show ?thesis by (simp add: program_step_def thread_step_def Let_def split: location.split)
  next
    case 3
    with at show ?thesis by (auto simp: program_step_def move_if_other)
  qed
  with inv show ?thesis by (simp add: parked_def program_step_inv)
qed

lemma parked_helpful:
  assumes "parked ok s" "\<not> settled ok s" "ok Udp"
  shows "\<exists>e\<in>set other_events. helpful s e"
proof -
  have inv: "program_inv ok s" and at: "mp_at s Udp = Entering" and todo: "mp_todo s \<noteq> []" "\<not> lost_stop ok s"
    using assms by (auto simp: parked_def settled_def)
  have "hd (mp_todo s) \<noteq> JoinThread Udp"
  proof
    assume "hd (mp_todo s) = JoinThread Udp"
    then obtain past rest where script: "main_script = past @ mp_todo s" "mp_todo s = JoinThread Udp # rest"
      using inv todo(1) by (cases "mp_todo s") (auto simp: program_inv_def)
    then have "ClearFlag Udp \<in> set past"
      using done_before [OF script(1) [unfolded script(2)] main_script_order(4)] by simp
    then have "ClearFlag Udp \<notin> set (mp_todo s)"
      using done_once [OF script(1) main_script_order(2)] by simp
    with at assms(3) todo(2) show False by (simp add: lost_stop_def lost_def is_server_def)
  qed
  with at have "t \<noteq> Udp" if "mp_at s t \<in> {Starting, Announcing} \<or> hd (mp_todo s) = JoinThread t" for t
    using that by auto
  with helpful_exists [OF inv todo] environment_helps [OF inv todo(2)]
  have "helpful s MainStep \<or> (\<exists>t. t \<noteq> Udp \<and> helpful s (ThreadStep t)) \<or> (\<exists>e\<in>{Enter, ClientLeaves, WorkerEnds}. helpful s e)"
    by blast
  then show ?thesis by (auto simp: set_other_events simp del: helpful.simps)
qed

lemma stop_overtakes_run_lost:
  "lost_stop (\<lambda>_. True) (run_program (\<lambda>_. True) stop_overtakes_run init_program)"
  "parked (\<lambda>_. True) (run_program (\<lambda>_. True) stop_overtakes_run init_program)"
proof -
  let ?ok = "\<lambda>_ :: service. True" and ?es = "replicate 4 MainStep @ replicate 2 (ThreadStep Udp)"
  let ?s = "run_program ?ok ?es init_program" and ?rs = "replicate 417 other_events"
  let ?s' = "run_program ?ok (concat ?rs) ?s"
  have "mp_at ?s Udp = Entering" "\<not> mp_aborted ?s"
    unfolding init_program_def main_script_eq
    by (simp_all add: numeral_eq_Suc script_with_def program_step_def main_step_def thread_step_def is_server_def)
  then have "parked ?ok ?s" by (simp add: parked_def run_program_inv program_inv_init)
  moreover have "potential ?s < length ?rs"
    using run_potential [of ?ok ?es init_program] unfolding init_potential main_script_facts(1) by simp
  ultimately have "settled ?ok ?s'" "parked ?ok ?s'"
    using rounds_settle [where P = "parked ?ok" and H = "set other_events" and E = "set other_events", of ?ok ?s ?rs]
      parked_helpful parked_step by auto
  moreover have "mp_todo s \<noteq> []" if "parked ?ok s" for s
    using that finished_ended [of ?ok s Udp] by (auto simp: parked_def)
  ultimately have "lost_stop ?ok ?s'" by (auto simp: settled_def parked_def)
  with \<open>parked ?ok ?s'\<close> show "lost_stop ?ok (run_program ?ok stop_overtakes_run init_program)"
    "parked ?ok (run_program ?ok stop_overtakes_run init_program)"
    by (simp_all add: stop_overtakes_run_def)
qed

lemma lost_stop_past:
  assumes "lost_stop ok s" "program_inv ok s"
  shows "mp_ready s Udp" "mp_ready s Tcp" "ClearFlag Udp \<notin> set (mp_todo s)"
proof -
  obtain past where past: "main_script = past @ mp_todo s" and th: "\<And>t. thread_inv ok past s t"
    using assms(2) by (auto simp: program_inv_def)
  note once = done_once [OF past main_script_order(2)]
  obtain t where "ClearFlag t \<in> set past" "t = Udp \<or> t = Tcp"
    using assms(1) once by (auto simp: lost_stop_def lost_def)
  then have udp: "ClearFlag Udp \<in> set past"
    using done_implies [OF past _ main_script_order(9)] by auto
  then show "ClearFlag Udp \<notin> set (mp_todo s)" using once by simp
  have "AwaitReady \<in> set past" using done_implies [OF past udp main_script_order(8)] .
  then show "mp_ready s Udp" "mp_ready s Tcp"
    using thread_inv_ready [OF th] by (simp_all add: is_server_def)
qed

text \<open>
  C38: the ready flag does not protect the shutdown: the receiver thread sets it before it calls
  \<^verbatim>\<open>run\<close>, and \<^verbatim>\<open>run\<close> sets the running flag.  There is a schedule in which the main thread
  has waited for both ready flags and has stopped the receiver before that, and from then on no
  schedule lets the main thread finish.
\<close>

theorem ready_before_run_hangs:
  "\<exists>early. let s = run_program (\<lambda>_. True) early init_program
     in mp_ready s Udp \<and> mp_ready s Tcp \<and> ClearFlag Udp \<notin> set (mp_todo s) \<and> \<not> mp_aborted s \<and>
        (\<forall>later. mp_todo (run_program (\<lambda>_. True) later s) \<noteq> [])"
proof -
  let ?s = "run_program (\<lambda>_. True) stop_overtakes_run init_program"
  have inv: "program_inv (\<lambda>_. True) ?s" by (intro run_program_inv program_inv_init)
  have "mp_todo (run_program (\<lambda>_. True) later ?s) \<noteq> []" for later
    using lost_not_finished [OF run_program_inv [OF inv] lost_stop_run [OF stop_overtakes_run_lost(1)]] .
  with lost_stop_past [OF stop_overtakes_run_lost(1) inv] stop_overtakes_run_lost(2) show ?thesis
    by (intro exI [of _ stop_overtakes_run]) (simp add: parked_def Let_def)
qed

end
