(* ===== verification/GatewayHistory.thy ===== *)
theory GatewayHistory
  imports Gateway
begin

text \<open>
  What the gateway promises, as a function of the history of what happened to it: for every sensor
  the last telemetry and heartbeat received, the health that the scans since that heartbeat give,
  and how many messages of each kind were received.  The detailed operations of
  \<^verbatim>\<open>Gateway.cpp\<close> refine this specification on every run of the mutex-protected
  operations, in whatever order the threads interleave them.
\<close>

section \<open>Runs\<close>

text \<open>The mutating critical sections, each with the clock value read in it (for a scan: before it).\<close>

datatype event =
    Telemetry u64 TelemetryMessage
  | Heartbeat u64 HeartbeatMessage
  | Scan u64 "u32 list"

fun apply_event :: "event \<Rightarrow> Gateway \<Rightarrow> Gateway" where
  "apply_event (Telemetry t m) g = updateSensorInfo t m g"
| "apply_event (Heartbeat t m) g = handleHeartbeat t m g"
| "apply_event (Scan t ids) g = fst (detectOfflineSensors t ids g)"

definition run_events :: "event list \<Rightarrow> Gateway \<Rightarrow> Gateway" where
  "run_events es g = fold apply_event es g"

text \<open>A scan visits the registry as it is when the scan runs.\<close>

fun event_ok :: "event \<Rightarrow> Gateway \<Rightarrow> bool" where
  "event_ok (Scan t ids) g = iterates ids (sensors g)"
| "event_ok _ g = True"

fun run_ok :: "event list \<Rightarrow> Gateway \<Rightarrow> bool" where
  "run_ok [] g = True"
| "run_ok (e # es) g = (event_ok e g \<and> run_ok es (apply_event e g))"

section \<open>The specification\<close>

fun telemetry_of :: "u32 \<Rightarrow> event \<Rightarrow> (u64 \<times> TelemetryMessage) option" where
  "telemetry_of sid (Telemetry t m) =
     (if ph_sensorId (tm_header m) = sid then Some (t, m) else None)"
| "telemetry_of sid _ = None"

fun heartbeat_of :: "u32 \<Rightarrow> event \<Rightarrow> u64 option" where
  "heartbeat_of sid (Heartbeat t m) = (if ph_sensorId (hb_header m) = sid then Some t else None)"
| "heartbeat_of sid _ = None"

text \<open>Newest first: the most recent event that \<open>f\<close> selects.\<close>

fun latest :: "(event \<Rightarrow> 'a option) \<Rightarrow> event list \<Rightarrow> 'a option" where
  "latest f [] = None"
| "latest f (e # es) = (case f e of Some x \<Rightarrow> Some x | None \<Rightarrow> latest f es)"

text \<open>The clock readings of the scans after the most recent heartbeat of the sensor.\<close>

fun scans_since :: "u32 \<Rightarrow> event list \<Rightarrow> u64 list" where
  "scans_since sid [] = []"
| "scans_since sid (Scan t ids # es) = t # scans_since sid es"
| "scans_since sid (Heartbeat t m # es) =
     (if ph_sensorId (hb_header m) = sid then [] else scans_since sid es)"
| "scans_since sid (Telemetry t m # es) = scans_since sid es"

definition spec_health :: "u32 \<Rightarrow> event list \<Rightarrow> SensorHealth" where
  "spec_health sid es =
     (case latest (heartbeat_of sid) es of
        None \<Rightarrow> UNKNOWN
      | Some hb \<Rightarrow>
          if hb \<noteq> 0 \<and> list_ex (\<lambda>t. t - hb > SENSOR_HEARTBEAT_TIMEOUT_MS) (scans_since sid es)
          then OFFLINE else ONLINE)"

definition spec_entry :: "u32 \<Rightarrow> event list \<Rightarrow> SensorInfo option" where
  "spec_entry sid es =
     (if latest (telemetry_of sid) es = None \<and> latest (heartbeat_of sid) es = None then None
      else Some
        \<lparr>lastTelemetry = (case latest (telemetry_of sid) es of
           None \<Rightarrow> zero_TelemetryMessage | Some (t, m) \<Rightarrow> m),
         lastTelemetryReceivedTime = (case latest (telemetry_of sid) es of
           None \<Rightarrow> 0 | Some (t, m) \<Rightarrow> t),
         lastHeartbeatReceivedTime = (case latest (heartbeat_of sid) es of
           None \<Rightarrow> 0 | Some hb \<Rightarrow> hb),
         health = spec_health sid es\<rparr>)"

fun is_telemetry :: "event \<Rightarrow> bool" where
  "is_telemetry (Telemetry t m) = True"
| "is_telemetry _ = False"

fun is_heartbeat :: "event \<Rightarrow> bool" where
  "is_heartbeat (Heartbeat t m) = True"
| "is_heartbeat _ = False"

definition spec_gateway :: "event list \<Rightarrow> Gateway" where
  "spec_gateway es =
     \<lparr>sensors = (\<lambda>sid. spec_entry sid es),
      telemetryPacketsReceived = of_nat (length (filter is_telemetry es)),
      heartbeatPacketsReceived = of_nat (length (filter is_heartbeat es))\<rparr>"

section \<open>One event\<close>

lemma spec_entry_Telemetry:
  "spec_entry sid (Telemetry t m # es) =
     (if ph_sensorId (tm_header m) = sid
      then Some ((case spec_entry sid es of None \<Rightarrow> default_SensorInfo | Some i \<Rightarrow> i)
             \<lparr>lastTelemetry := m, lastTelemetryReceivedTime := t\<rparr>)
      else spec_entry sid es)"
  by (auto simp: spec_entry_def spec_health_def default_SensorInfo_def split: option.splits)

lemma spec_entry_Heartbeat:
  "spec_entry sid (Heartbeat t m # es) =
     (if ph_sensorId (hb_header m) = sid
      then Some ((case spec_entry sid es of None \<Rightarrow> default_SensorInfo | Some i \<Rightarrow> i)
             \<lparr>lastHeartbeatReceivedTime := t, health := ONLINE\<rparr>)
      else spec_entry sid es)"
  by (auto simp: spec_entry_def spec_health_def default_SensorInfo_def split: option.splits)

lemma spec_entry_Scan:
  "spec_entry sid (Scan t ids # es) = map_option (scan_entry t) (spec_entry sid es)"
  by (auto simp: spec_entry_def spec_health_def scan_entry_def timed_out_def split: option.splits)

lemma apply_event_refines:
  assumes "event_ok e (spec_gateway es)"
  shows "apply_event e (spec_gateway es) = spec_gateway (e # es)"
proof (cases e)
  case (Telemetry t m)
  have "sensors (updateSensorInfo t m (spec_gateway es)) = (\<lambda>sid. spec_entry sid (Telemetry t m # es))"
    by (auto simp: sensors_updateSensorInfo spec_entry_Telemetry spec_gateway_def slot_def)
  with Telemetry show ?thesis
    by (intro Gateway.equality) (simp_all add: spec_gateway_def)
next
  case (Heartbeat t m)
  have "sensors (handleHeartbeat t m (spec_gateway es)) = (\<lambda>sid. spec_entry sid (Heartbeat t m # es))"
    by (auto simp: sensors_handleHeartbeat spec_entry_Heartbeat spec_gateway_def slot_def)
  with Heartbeat show ?thesis
    by (intro Gateway.equality) (simp_all add: spec_gateway_def)
next
  case (Scan t ids)
  with assms have "iterates ids (sensors (spec_gateway es))" by simp
  from detectOfflineSensors_eq [OF this] Scan show ?thesis
    by (auto simp: spec_gateway_def spec_entry_Scan)
qed

lemma run_events_refines:
  "run_ok es (spec_gateway past) \<Longrightarrow>
   run_events es (spec_gateway past) = spec_gateway (rev es @ past)"
proof (induction es arbitrary: past)
  case (Cons e es)
  then have "apply_event e (spec_gateway past) = spec_gateway (e # past)"
    by (simp add: apply_event_refines)
  with Cons show ?case
    using Cons.IH [of "e # past"] by (simp add: run_events_def)
qed (simp add: run_events_def)

lemma spec_gateway_Nil: "spec_gateway [] = init_Gateway"
  by (simp add: spec_gateway_def init_Gateway_def spec_entry_def)

section \<open>Properties\<close>

text \<open>
  C3: the gateway refines its specification: after any run of telemetry updates, heartbeats and
  watchdog scans from the initial state, the registry and the counters are those the history
  prescribes: the latest telemetry and heartbeat of every sensor that sent one, health unknown
  without a heartbeat, offline if a scan since the last heartbeat found it overdue and online
  otherwise, and the message counts modulo \<open>2^64\<close>.
\<close>

theorem gateway_refines_history:
  assumes "run_ok es init_Gateway"
  shows "run_events es init_Gateway = spec_gateway (rev es)"
  using assms run_events_refines [of es "[]"] by (simp add: spec_gateway_Nil)

definition example_run :: "event list" where
  "example_run =
     [Telemetry 100 example_telemetry,
      Heartbeat 200 \<lparr>hb_header = \<lparr>ph_type = HEARTBEAT, ph_sensorId = 5, ph_timestamp_ms = 190\<rparr>\<rparr>,
      Scan 10300 [5]]"

theorem gateway_refines_history_witness:
  "run_ok example_run init_Gateway \<and>
   sensors (run_events example_run init_Gateway) 5 =
     Some \<lparr>lastTelemetry = example_telemetry, lastTelemetryReceivedTime = 100,
           lastHeartbeatReceivedTime = 200, health = OFFLINE\<rparr>"
proof -
  have ok: "run_ok example_run init_Gateway"
    by (simp add: example_run_def iterates_def init_Gateway_def sensors_updateSensorInfo
        sensors_handleHeartbeat example_telemetry_def)
  show ?thesis
    using ok unfolding gateway_refines_history [OF ok]
    by (simp add: example_run_def spec_gateway_def spec_entry_def spec_health_def
        example_telemetry_def SENSOR_HEARTBEAT_TIMEOUT_MS_def)
qed

lemma apply_event_grows:
  assumes "event_ok e g" "sensors g sid = Some info"
  shows "\<exists>info'. sensors (apply_event e g) sid = Some info' \<and>
    (health info \<noteq> UNKNOWN \<longrightarrow> health info' \<noteq> UNKNOWN)"
  using assms
  by (cases e) (auto simp: sensors_updateSensorInfo sensors_handleHeartbeat
      detectOfflineSensors_eq health_scan_entry)

text \<open>
  The registry only grows and the health of a sensor never goes back to unknown: along any run
  a sensor that is registered stays registered, and once its health is known it stays known.
\<close>

lemma registry_grows:
  assumes "run_ok es g" "sensors g sid = Some info"
  shows "\<exists>info'. sensors (run_events es g) sid = Some info' \<and>
    (health info \<noteq> UNKNOWN \<longrightarrow> health info' \<noteq> UNKNOWN)"
  using assms
proof (induction es arbitrary: g info)
  case (Cons e es)
  then obtain info1 where "sensors (apply_event e g) sid = Some info1"
    and known: "health info \<noteq> UNKNOWN \<longrightarrow> health info1 \<noteq> UNKNOWN"
    using apply_event_grows [of e g sid info] by auto
  then obtain info2 where "sensors (run_events es (apply_event e g)) sid = Some info2"
    and "health info1 \<noteq> UNKNOWN \<longrightarrow> health info2 \<noteq> UNKNOWN"
    using Cons.IH [of "apply_event e g"] Cons.prems by auto
  with known show ?case by (auto simp: run_events_def)
qed (simp add: run_events_def)

end
