(* ===== verification/HeartbeatLiveness.thy ===== *)
theory HeartbeatLiveness
  imports GatewayHistory SensorNode TimeUtils
begin

text \<open>
  From the timer of the node to the verdict of the watchdog: a node whose loop keeps turning and whose
  heartbeats arrive in time is marked offline only by a scan that such a heartbeat overtook between its
  clock reading and its lock, and one that fell silent is marked offline within the timeout and one
  period of the watchdog.  Instants are ticks of the clock in nanoseconds; the clocks of node and gateway
  are the same one.
\<close>

section \<open>The next heartbeat\<close>

lemma next_fire:
  assumes "t0 - l < iv" "steady_within G (t0 # ts)" "l + iv \<le> last (t0 # ts)"
  shows "\<exists>f\<in>set (fires iv l ts). l + iv \<le> f \<and> f \<le> l + iv + G"
  using assms
proof (induction ts arbitrary: t0)
  case (Cons t ts)
  have t: "t \<le> t0 + G" "steady_within G (t # ts)"
    using Cons.prems(2) by (simp_all add: steady_within_def)
  show ?case
  proof (cases "t - l \<ge> iv")
    case True
    with t(1) Cons.prems(1) show ?thesis by auto
  next
    case False
    with Cons.IH [of t] Cons.prems(3) t(2) show ?thesis by simp
  qed
qed simp

lemma fires_next:
  assumes "steady_within G (t0 # ts)" "f0 \<in> set (fires iv l ts)" "f0 + iv \<le> last (t0 # ts)" "0 < iv"
  shows "\<exists>f\<in>set (fires iv l ts). f0 + iv \<le> f \<and> f \<le> f0 + iv + G"
  using assms
proof (induction ts arbitrary: l t0)
  case (Cons t ts)
  have rest: "steady_within G (t # ts)" using Cons.prems(1) by (simp add: steady_within_def)
  show ?case
  proof (cases "t - l \<ge> iv \<and> f0 = t")
    case True
    with next_fire [of t f0 iv G ts] rest Cons.prems(3,4) show ?thesis by auto
  next
    case False
    then have "f0 \<in> set (fires iv (if t - l \<ge> iv then t else l) ts)"
      using Cons.prems(2) by auto
    from Cons.IH [OF rest this] Cons.prems(3,4) show ?thesis by (auto split: if_splits)
  qed
qed simp

section \<open>Timed histories of the gateway\<close>

text \<open>
  The critical sections of the gateway in the order in which they get the lock, each with the instant
  at which it gets it.  Telemetry and heartbeats read the clock under the lock, so at that instant; a
  scan has read it before, at an instant of its own, and anything may happen in between.
\<close>

fun event_clock :: "event \<Rightarrow> u64" where
  "event_clock (Telemetry t m) = t"
| "event_clock (Heartbeat t m) = t"
| "event_clock (Scan t ids) = t"

fun is_scan :: "event \<Rightarrow> bool" where
  "is_scan (Scan t ids) = True"
| "is_scan _ = False"

definition clocked :: "(int \<times> event) list \<Rightarrow> bool" where
  "clocked run \<longleftrightarrow>
     sorted (map fst run) \<and>
     (\<forall>(x, e)\<in>set run. 0 \<le> x \<and> x < 2 ^ 63 \<and>
        (if is_scan e then \<exists>r. 0 \<le> r \<and> r \<le> x \<and> event_clock e = now r else event_clock e = now x))"

text \<open>
  The last heartbeat of a sensor overtook a scan: it was handled while the scan, its clock already
  read, waited for the lock.
\<close>

definition overtaken :: "u32 \<Rightarrow> event list \<Rightarrow> bool" where
  "overtaken sid es \<longleftrightarrow>
     (\<exists>hb pre e post t ids. es = pre @ e # post \<and> heartbeat_of sid e = Some hb \<and>
        (\<forall>e\<in>set post. heartbeat_of sid e = None) \<and> Scan t ids \<in> set post \<and> t < hb)"

definition beat_ticks :: "u32 \<Rightarrow> (int \<times> event) list \<Rightarrow> int set" where
  "beat_ticks sid run = {x. \<exists>e. (x, e) \<in> set run \<and> heartbeat_of sid e \<noteq> None}"

text \<open>
  Every heartbeat the gateway handles was sent at most \<open>D\<close> before, and every heartbeat sent early
  enough before \<open>T\<close> is handled within \<open>D\<close>.
\<close>

definition delivered_within :: "int \<Rightarrow> int \<Rightarrow> int list \<Rightarrow> int set \<Rightarrow> bool" where
  "delivered_within D T fs hs \<longleftrightarrow>
     (\<forall>h\<in>hs. \<exists>f\<in>set fs. f \<le> h \<and> h \<le> f + D) \<and>
     (\<forall>f\<in>set fs. f + D \<le> T \<longrightarrow> (\<exists>h\<in>hs. f \<le> h \<and> h \<le> f + D))"

lemma latest_beat_split:
  assumes "latest (heartbeat_of sid) (rev (map snd run)) = Some hb"
  shows "\<exists>pre h e post. run = pre @ (h, e) # post \<and> heartbeat_of sid e = Some hb \<and>
    beat_ticks sid post = {} \<and>
    (\<forall>t\<in>set (scans_since sid (rev (map snd run))). \<exists>x ids. (x, Scan t ids) \<in> set post)"
  using assms
proof (induction run rule: rev_induct)
  case (snoc xe run)
  obtain x e where xe: "xe = (x, e)" by (cases xe)
  show ?case
  proof (cases "heartbeat_of sid e")
    case (Some t)
    then obtain m where "e = Heartbeat t m" "ph_sensorId (hb_header m) = sid"
      by (cases e) (auto split: if_splits)
    with snoc.prems xe show ?thesis
      by (intro exI [of _ run] exI [of _ x] exI [of _ e] exI [of _ "[]"]) (simp add: beat_ticks_def)
  next
    case None
    with snoc.prems xe have "latest (heartbeat_of sid) (rev (map snd run)) = Some hb" by simp
    from snoc.IH [OF this] obtain pre h e0 post where IH: "run = pre @ (h, e0) # post"
      "heartbeat_of sid e0 = Some hb" "beat_ticks sid post = {}"
      "\<forall>t\<in>set (scans_since sid (rev (map snd run))). \<exists>x ids. (x, Scan t ids) \<in> set post" by blast
    have "\<exists>y ids. (y, Scan t ids) \<in> set (post @ [xe])"
      if "t \<in> set (scans_since sid (rev (map snd (run @ [xe]))))" for t
      using that IH(4) None xe by (cases e) (fastforce split: if_splits)+
    moreover have "beat_ticks sid (post @ [xe]) = {}"
      using IH(3) None xe by (auto simp: beat_ticks_def)
    ultimately show ?thesis using IH(1,2)
      by (intro exI [of _ pre] exI [of _ h] exI [of _ e0] exI [of _ "post @ [xe]"]) simp
  qed
qed simp

text \<open>
  On the side of the history the same is said by the scans since the last heartbeat.
\<close>

lemma scan_since_last_beat:
  "\<forall>e\<in>set es. heartbeat_of sid e = None \<Longrightarrow> t \<in> set (scans_since sid (es @ Scan t ids # past))"
proof (induction es)
  case (Cons e es)
  then show ?case by (cases e) (auto split: if_splits)
qed simp

lemma latest_skip: "\<forall>e\<in>set es. f e = None \<Longrightarrow> latest f (es @ past) = latest f past"
  by (induction es) auto

lemma latest_split:
  assumes "latest f es = Some hb"
  shows "\<exists>post e pre. es = post @ e # pre \<and> f e = Some hb \<and> (\<forall>e\<in>set post. f e = None)"
  using assms
proof (induction es)
  case (Cons e es)
  show ?case
  proof (cases "f e")
    case None
    with Cons obtain post e' pre where "es = post @ e' # pre" "f e' = Some hb" "\<forall>e\<in>set post. f e = None" by auto
    with None show ?thesis by (intro exI [of _ "e # post"]) auto
  next
    case (Some x)
    with Cons.prems show ?thesis by (intro exI [of _ "[]"]) auto
  qed
qed simp

lemma scans_since_within:
  "\<forall>e\<in>set es. heartbeat_of sid e = None \<Longrightarrow> heartbeat_of sid e = Some hb \<Longrightarrow>
   t \<in> set (scans_since sid (es @ e # past)) \<Longrightarrow> \<exists>ids. Scan t ids \<in> set es"
proof (induction es)
  case Nil
  then show ?case by (cases e) (auto split: if_splits)
next
  case (Cons e' es)
  then show ?case by (cases e') (auto split: if_splits)
qed

lemma overtaken_scans:
  "overtaken sid es \<longleftrightarrow>
     (\<exists>hb. latest (heartbeat_of sid) (rev es) = Some hb \<and> (\<exists>t\<in>set (scans_since sid (rev es)). t < hb))"
proof
  assume "overtaken sid es"
  then obtain hb pre e post t ids where run: "es = pre @ e # post" and e: "heartbeat_of sid e = Some hb"
    and post: "\<forall>e\<in>set post. heartbeat_of sid e = None" and t: "Scan t ids \<in> set post" "t < hb"
    by (auto simp: overtaken_def)
  have "latest (heartbeat_of sid) (rev es) = Some hb"
    using latest_skip [of "rev post" "heartbeat_of sid" "e # rev pre"] e post by (simp add: run)
  moreover obtain p q where pq: "post = p @ Scan t ids # q" using t(1) by (auto simp: in_set_conv_decomp)
  then have "t \<in> set (scans_since sid (rev es))"
    using scan_since_last_beat [of "rev q" sid t ids "rev p @ e # rev pre"] post by (simp add: run)
  ultimately show "\<exists>hb. latest (heartbeat_of sid) (rev es) = Some hb \<and> (\<exists>t\<in>set (scans_since sid (rev es)). t < hb)"
    using t(2) by blast
next
  assume "\<exists>hb. latest (heartbeat_of sid) (rev es) = Some hb \<and> (\<exists>t\<in>set (scans_since sid (rev es)). t < hb)"
  then obtain hb t where hb: "latest (heartbeat_of sid) (rev es) = Some hb"
    and t: "t \<in> set (scans_since sid (rev es))" "t < hb" by blast
  obtain post e pre where run: "rev es = post @ e # pre" and e: "heartbeat_of sid e = Some hb"
    and post: "\<forall>e\<in>set post. heartbeat_of sid e = None" using latest_split [OF hb] by blast
  obtain ids where "Scan t ids \<in> set post" using scans_since_within [OF post e] t(1) run by metis
  moreover have "es = rev pre @ e # rev post" using arg_cong [OF run, of rev] by simp
  ultimately show "overtaken sid es"
    unfolding overtaken_def using e post t(2)
    by (intro exI [of _ hb] exI [of _ "rev pre"] exI [of _ e] exI [of _ "rev post"] exI [of _ t] exI [of _ ids]) simp
qed

lemma latest_None: "latest f es = None \<longleftrightarrow> (\<forall>e\<in>set es. f e = None)"
  by (induction es) (auto split: option.splits)

text \<open>
  An overdue difference of clock readings is an overdue difference of instants, and the other way
  round up to the millisecond the conversion drops.
\<close>

lemma uint_now_diff:
  assumes "0 \<le> h" "h \<le> x" "x < 2 ^ 63"
  shows "uint (now x - now h) = x div 1000000 - h div 1000000"
proof -
  have u: "uint (now h) = h div 1000000" "uint (now x) = x div 1000000"
    using assms by (simp_all add: now_nonneg)
  have "uint (now h) \<le> uint (now x)" unfolding u using assms(2) by (rule zdiv_mono1) simp
  then have "uint (now x - now h) = uint (now x) - uint (now h)"
    by (simp add: uint_minus_simple_alt word_le_def flip: word_le_def)
  with u show ?thesis by simp
qed

lemma now_mono: "0 \<le> h \<Longrightarrow> h \<le> x \<Longrightarrow> x < 2 ^ 63 \<Longrightarrow> now h \<le> now x"
  by (simp add: word_le_def now_nonneg zdiv_mono1)

lemma overdue_ticks:
  assumes "0 \<le> h" "0 \<le> r" "h < 2 ^ 63" "r < 2 ^ 63" "now h \<le> now r" "now r - now h > SENSOR_HEARTBEAT_TIMEOUT_MS"
  shows "ms 10000 < r - h"
proof (cases "h \<le> r")
  case True
  have "uint (now r - now h) > 10000"
    using assms(6) by (simp add: word_less_def SENSOR_HEARTBEAT_TIMEOUT_MS_def)
  then show ?thesis using uint_now_diff [OF assms(1) True assms(4)] by (simp add: ms_def)
next
  case False
  with now_mono [of r h] assms(2,3,5) have "now r = now h" by simp
  with assms(6) show ?thesis by simp
qed

text \<open>
  A reading before the heartbeat makes the unsigned difference wrap around.
\<close>

lemma overtaken_overdue:
  assumes "0 \<le> h" "h < 2 ^ 63" "t < now h"
  shows "t - now h > SENSOR_HEARTBEAT_TIMEOUT_MS" "now h \<noteq> 0"
proof -
  have h: "uint (now h) < 9223372036854775808" using assms(1,2) by (simp add: now_nonneg)
  have t: "uint t < uint (now h)" using assms(3) by (simp add: word_less_def)
  then have "uint (t - now h) = uint t - uint (now h) + 18446744073709551616"
    by (simp add: uint_sub_if')
  moreover have "0 \<le> uint t" by simp
  ultimately have "10000 < uint (t - now h)" using h by linarith
  then show "t - now h > SENSOR_HEARTBEAT_TIMEOUT_MS"
    by (simp add: word_less_def SENSOR_HEARTBEAT_TIMEOUT_MS_def)
  show "now h \<noteq> 0" using t by force
qed

lemma overdue_scan:
  assumes "0 \<le> h" "h + ms 10001 \<le> x" "x < 2 ^ 63"
  shows "now x - now h > SENSOR_HEARTBEAT_TIMEOUT_MS"
proof -
  have "h \<le> x" using assms(2) by (simp add: ms_def)
  moreover have "(h + ms 10001) div 1000000 \<le> x div 1000000" using assms(2) by (rule zdiv_mono1) simp
  ultimately show ?thesis
    using uint_now_diff [OF assms(1) _ assms(3)]
    by (simp add: word_less_def SENSOR_HEARTBEAT_TIMEOUT_MS_def ms_def)
qed

section \<open>The node stays online\<close>

text \<open>
  A scan found the sensor offline: one its last heartbeat overtook, or one that read the clock more
  than ten seconds after it.
\<close>

lemma clocked_scan:
  "clocked run \<Longrightarrow> (x, Scan t ids) \<in> set run \<Longrightarrow> \<exists>r. t = now r \<and> 0 \<le> r \<and> r \<le> x \<and> x < 2 ^ 63"
  by (fastforce simp: clocked_def)

lemma clocked_beat:
  "clocked run \<Longrightarrow> (x, e) \<in> set run \<Longrightarrow> heartbeat_of sid e = Some hb \<Longrightarrow> hb = now x \<and> 0 \<le> x \<and> x < 2 ^ 63"
  by (cases e) (fastforce simp: clocked_def split: if_splits)+

lemma overtaken_offline:
  assumes "clocked run" "overtaken sid (map snd run)"
  shows "spec_health sid (rev (map snd run)) = OFFLINE"
proof -
  obtain hb t where hb: "latest (heartbeat_of sid) (rev (map snd run)) = Some hb"
    and t: "t \<in> set (scans_since sid (rev (map snd run)))" "t < hb"
    using assms(2) by (auto simp: overtaken_scans)
  from latest_beat_split [OF hb] obtain h e where "(h, e) \<in> set run" "heartbeat_of sid e = Some hb"
    by (metis in_set_conv_decomp)
  from clocked_beat [OF assms(1) this] overtaken_overdue [of h t] t show ?thesis
    by (auto simp: spec_health_def hb list_ex_iff)
qed

lemma late_verdict:
  assumes "clocked run" "spec_health sid (rev (map snd run)) = OFFLINE" "\<not> overtaken sid (map snd run)"
  obtains pre h e post x r where "run = pre @ (h, e) # post" "heartbeat_of sid e = Some (now h)"
    "beat_ticks sid post = {}" "0 \<le> h" "\<forall>y\<in>fst ` set pre. y \<le> h" "x \<in> fst ` set post" "r \<le> x" "ms 10000 < r - h"
proof -
  obtain hb t where hb: "latest (heartbeat_of sid) (rev (map snd run)) = Some hb"
    and t: "t \<in> set (scans_since sid (rev (map snd run)))" "t - hb > SENSOR_HEARTBEAT_TIMEOUT_MS"
    using assms(2) by (auto simp: spec_health_def list_ex_iff split: option.splits if_splits)
  then have "hb \<le> t" using assms(3) by (auto simp: overtaken_scans not_less)
  obtain pre h e post where run: "run = pre @ (h, e) # post" and e: "heartbeat_of sid e = Some hb"
    and post: "beat_ticks sid post = {}" and
      scans: "\<forall>t\<in>set (scans_since sid (rev (map snd run))). \<exists>x ids. (x, Scan t ids) \<in> set post"
    using latest_beat_split [OF hb] by blast
  obtain x ids where x: "(x, Scan t ids) \<in> set post" using scans t(1) by blast
  then obtain r where rd: "t = now r" "0 \<le> r" "r \<le> x" "x < 2 ^ 63"
    using clocked_scan [OF assms(1), of x t ids] by (auto simp: run)
  have h: "hb = now h" "0 \<le> h" "h < 2 ^ 63" using clocked_beat [OF assms(1) _ e, of h] by (auto simp: run)
  have "ms 10000 < r - h" using overdue_ticks [of h r] h rd \<open>hb \<le> t\<close> t(2) by simp
  moreover have "\<forall>y\<in>fst ` set pre. y \<le> h" using assms(1) by (auto simp: clocked_def run sorted_append)
  moreover have "x \<in> fst ` set post" using x by force
  ultimately show ?thesis using that [OF run] e post h rd(3) by simp
qed

lemma no_late_verdict:
  assumes clock: "clocked run" "\<forall>(x, e)\<in>set run. x \<le> T"
    and timer: "steady_within G (t1 # ts)" "T \<le> last (t1 # ts)" "0 \<le> G" "D < iv" "iv + G + D \<le> ms 10000"
    and link: "delivered_within D T (fires iv t1 ts) (beat_ticks sid run)"
  shows "spec_health sid (rev (map snd run)) = OFFLINE \<longleftrightarrow> overtaken sid (map snd run)"
proof (rule iffI, rule ccontr)
  assume "spec_health sid (rev (map snd run)) = OFFLINE" "\<not> overtaken sid (map snd run)"
  then obtain pre h e post x r where run: "run = pre @ (h, e) # post" and e: "heartbeat_of sid e = Some (now h)"
    and post: "beat_ticks sid post = {}" and h: "0 \<le> h" "\<forall>y\<in>fst ` set pre. y \<le> h"
    and x: "x \<in> fst ` set post" "r \<le> x" and late: "ms 10000 < r - h"
    by (rule late_verdict [OF clock(1)])
  obtain e' where "(x, e') \<in> set post" using x(1) by auto
  then have "(x, e') \<in> set run" by (simp add: run)
  then have scan: "r \<le> T" using clock(2) x(2) by fastforce
  have "h \<in> beat_ticks sid run" using e by (auto simp: beat_ticks_def run)
  then obtain f0 where f0: "f0 \<in> set (fires iv t1 ts)" "f0 \<le> h" "h \<le> f0 + D"
    using link by (auto simp: delivered_within_def)
  have D: "0 \<le> D" using f0 by linarith
  have "f0 + iv \<le> last (t1 # ts)" "0 < iv"
    using scan timer D late f0(2) by linarith+
  then obtain f1 where f1: "f1 \<in> set (fires iv t1 ts)" "f0 + iv \<le> f1" "f1 \<le> f0 + iv + G"
    using fires_next [OF timer(1) f0(1)] by blast
  moreover have "f1 + D \<le> T" using f1 f0 timer(5) late scan by linarith
  ultimately obtain a where a: "a \<in> beat_ticks sid run" "f1 \<le> a" using link by (auto simp: delivered_within_def)
  have "h < a" using a(2) f1(2) f0(3) timer(4) by linarith
  with a(1) h(2) post show False by (fastforce simp: beat_ticks_def run)
qed (rule overtaken_offline [OF clock(1)])

text \<open>
  C5: a node that works is reported offline exactly in one situation.  While the loop of the node
  turns at least every \<open>G\<close> nanoseconds and each of its heartbeats is handled within \<open>D\<close>, with
  interval, \<open>G\<close> and \<open>D\<close> together not more than ten seconds and \<open>D\<close> shorter than the interval,
  the node sends one heartbeat per firing of its timer, and its sensor is offline if and only if its
  last heartbeat overtook a scan: it was handled while the scan, which had read an earlier
  millisecond before it took the lock, was waiting for it.  Otherwise the sensor is online after its
  first heartbeat.  With the default interval of five seconds, \<open>G + D\<close> may be up to five seconds.
\<close>

theorem node_stays_online:
  assumes "iudp_sender send sent" "SensorNode_run send t0 t1 is nd net = (Running, st')"
    and "fs = fires (ms (nd_heartbeatInterval nd)) t1 (map in_nowTime is)"
    and "steady_within G (t1 # map in_nowTime is)" "T \<le> last (t1 # map in_nowTime is)" "0 \<le> G"
    and "D < ms (nd_heartbeatInterval nd)" "ms (nd_heartbeatInterval nd) + G + D \<le> ms 10000"
    and "clocked run" "\<forall>(x, e)\<in>set run. x \<le> T" "run_ok (map snd run) init_Gateway"
    and "delivered_within D T fs (beat_ticks (any_getId (nd_sensor nd)) run)"
  shows "(\<exists>ps. sent (nl_net st') = sent net @ ps \<and> list_all (node_packet (any_getId (nd_sensor nd))) ps \<and>
      length (filter is_heartbeat_packet ps) = length fs) \<and>
    (let h = map_option health (sensors (run_events (map snd run) init_Gateway) (any_getId (nd_sensor nd)))
     in (h = Some OFFLINE \<longleftrightarrow> overtaken (any_getId (nd_sensor nd)) (map snd run)) \<and>
        (beat_ticks (any_getId (nd_sensor nd)) run \<noteq> {} \<and> h \<noteq> Some OFFLINE \<longrightarrow> h = Some ONLINE))"
proof -
  let ?sid = "any_getId (nd_sensor nd)"
  obtain ps where "sent (nl_net st') = sent net @ ps" "list_all (node_packet ?sid) ps"
    "length (filter is_heartbeat_packet ps) = length fs"
    using iudp_sender.run_loop_emits [OF assms(1) assms(2) [unfolded SensorNode_run_def]]
    by (auto simp: emits_def packet_counts_def assms(3))
  moreover have verdict: "spec_health ?sid (rev (map snd run)) = OFFLINE \<longleftrightarrow> overtaken ?sid (map snd run)"
    using no_late_verdict [OF assms(9,10,4-8) assms(12) [unfolded assms(3)]] .
  moreover have "run_events (map snd run) init_Gateway = spec_gateway (rev (map snd run))"
    using run_events_refines [of "map snd run" "[]"] assms(11) by (simp add: spec_gateway_Nil)
  moreover have "latest (heartbeat_of ?sid) (rev (map snd run)) \<noteq> None" if "beat_ticks ?sid run \<noteq> {}"
    using that unfolding beat_ticks_def latest_None by fastforce
  moreover have "latest (heartbeat_of ?sid) (rev (map snd run)) \<noteq> None" if "overtaken ?sid (map snd run)"
    using that by (auto simp: overtaken_scans)
  ultimately show ?thesis
    by (auto simp: spec_gateway_def spec_entry_def spec_health_def Let_def split: option.splits if_splits)
qed

definition online_inputs :: "node_input list" where
  "online_inputs =
     [\<lparr>in_stopped = False, in_nowTime = ms 5000, in_draw = zero_double, in_tickTime = 5000, in_heartbeatTime = 5000\<rparr>,
      \<lparr>in_stopped = False, in_nowTime = ms 10000, in_draw = zero_double, in_tickTime = 10000, in_heartbeatTime = 10000\<rparr>]"

text \<open>The scan reads the clock a millisecond before it gets the lock.\<close>

definition online_run :: "(int \<times> event) list" where
  "online_run =
     [(ms 5000, Heartbeat 5000 (beat_of 5000 (nd_sensor example_node))),
      (ms 9000, Scan 8999 [1]),
      (ms 10000, Heartbeat 10000 (beat_of 10000 (nd_sensor example_node)))]"

lemma clocked_Nil: "clocked []" by (simp add: clocked_def)

lemma clocked_Cons:
  "clocked ((x, e) # run) \<longleftrightarrow> (\<forall>y\<in>fst ` set run. x \<le> y) \<and> 0 \<le> x \<and> x < 2 ^ 63 \<and>
     (if is_scan e then \<exists>r. 0 \<le> r \<and> r \<le> x \<and> event_clock e = now r else event_clock e = now x) \<and> clocked run"
  by (auto simp: clocked_def)

lemma example_node_id: "any_getId (nd_sensor example_node) = 1"
  by (simp add: example_node_def new_SensorNode_def any_getId_def getId_def new_MotionSensor_def truncate_eq)

lemma now_ms: "0 \<le> n \<Longrightarrow> now (n * 1000000) = word_of_int n"
  by (simp add: now_def duration_cast_nonneg)

lemma online_example:
  "fst (SensorNode_run FakeUdpSender_send 0 0 online_inputs example_node []) = Running"
  "fires (ms 5000) 0 (map in_nowTime online_inputs) = [ms 5000, ms 10000]"
  "\<not> overtaken 1 (map snd online_run)" "run_ok (map snd online_run) init_Gateway" "beat_ticks 1 online_run = {ms 5000, ms 10000}"
  by (simp_all add: SensorNode_run_def online_inputs_def example_node_def new_SensorNode_def
      run_body_def telemetry_timer_def heartbeat_timer_def tick_eq sendHeartbeat_eq FakeUdpSender_send_def ms_def
      default_telemetryInterval_def default_heartbeatInterval_def Let_def)
    (auto simp: overtaken_scans online_run_def ms_def iterates_def init_Gateway_def
      sensors_handleHeartbeat beat_of_def example_node_id beat_ticks_def)

lemma online_clocked: "clocked online_run"
  unfolding online_run_def using now_ms [of 5000] now_ms [of 8999] now_ms [of 10000]
  by (simp add: clocked_Cons ms_def clocked_Nil) (intro exI [of _ "8999000000"], simp)

theorem node_stays_online_witness:
  "map_option health (sensors (run_events (map snd online_run) init_Gateway) 1) = Some ONLINE"
proof -
  let ?out = "SensorNode_run FakeUdpSender_send 0 0 online_inputs example_node []"
  have "?out = (Running, snd ?out)" using online_example(1) by (metis prod.collapse)
  moreover have "nd_heartbeatInterval example_node = 5000"
    by (simp add: example_node_def new_SensorNode_def default_heartbeatInterval_def)
  moreover have "steady_within (ms 5000) (0 # map in_nowTime online_inputs)" "last (0 # map in_nowTime online_inputs) = ms 10000"
    "\<forall>(x, e)\<in>set online_run. x \<le> ms 10000" "delivered_within 0 (ms 10000) [ms 5000, ms 10000] {ms 5000, ms 10000}"
    by (simp_all add: steady_within_def online_inputs_def online_run_def delivered_within_def ms_def)
  ultimately show ?thesis
    using node_stays_online [OF fake.iudp_sender_axioms, of 0 0 online_inputs example_node "[]" "snd ?out"
        "[ms 5000, ms 10000]" "ms 5000" "ms 10000" 0 online_run] online_example online_clocked example_node_id
    by (simp add: ms_def Let_def)
qed

section \<open>Silence is noticed\<close>

text \<open>
  The watchdog scans at least once in every period of \<open>S\<close> up to \<open>T\<close>: it reads the clock and gets
  the lock within it.
\<close>

definition scans_every :: "int \<Rightarrow> int \<Rightarrow> (int \<times> event) list \<Rightarrow> bool" where
  "scans_every S T run \<longleftrightarrow>
     (\<forall>y. 0 \<le> y \<and> y + S \<le> T \<longrightarrow>
        (\<exists>r x t ids. (x, Scan t ids) \<in> set run \<and> t = now r \<and> y \<le> r \<and> r \<le> x \<and> x \<le> y + S))"

text \<open>
  A scan after the last heartbeat of a sensor is one of the scans since that heartbeat.
\<close>

lemma scan_after_last_beat:
  assumes "clocked run" "\<forall>x\<in>beat_ticks sid run. x \<le> h" "(x, Scan t ids) \<in> set run" "h < x"
  shows "t \<in> set (scans_since sid (rev (map snd run)))"
proof -
  obtain before after where split: "run = before @ (x, Scan t ids) # after"
    using assms(3) by (auto simp: in_set_conv_decomp)
  have silent: "heartbeat_of sid e = None" if "(y, e) \<in> set after" for y e
  proof (rule ccontr)
    assume "heartbeat_of sid e \<noteq> None"
    then have "y \<le> h" using that assms(2) by (auto simp: beat_ticks_def split)
    moreover have "x \<le> y" using that assms(1) by (auto simp: clocked_def split sorted_append)
    ultimately show False using assms(4) by simp
  qed
  then have "\<forall>e\<in>set (rev (map snd after)). heartbeat_of sid e = None" by fastforce
  from scan_since_last_beat [OF this] show ?thesis by (simp add: split)
qed

text \<open>
  The split of a run at the last heartbeat of a sensor.
\<close>

lemma last_beat_split:
  assumes "clocked run" "h \<in> beat_ticks sid run" "\<forall>x\<in>beat_ticks sid run. x \<le> h"
  shows "\<exists>pre e post. run = pre @ (h, e) # post \<and> beat_ticks sid post = {} \<and>
    latest (heartbeat_of sid) (rev (map snd run)) = Some (now h) \<and>
    (\<forall>t\<in>set (scans_since sid (rev (map snd run))). \<exists>x ids. (x, Scan t ids) \<in> set post)"
proof -
  have "latest (heartbeat_of sid) (rev (map snd run)) \<noteq> None"
    using assms(2) unfolding beat_ticks_def latest_None by fastforce
  then obtain hb where hb: "latest (heartbeat_of sid) (rev (map snd run)) = Some hb" by blast
  from latest_beat_split [OF hb] obtain pre h' e post where run: "run = pre @ (h', e) # post"
    and e: "heartbeat_of sid e = Some hb" and post: "beat_ticks sid post = {}"
    and scans: "\<forall>t\<in>set (scans_since sid (rev (map snd run))). \<exists>x ids. (x, Scan t ids) \<in> set post" by blast
  have "h' \<in> beat_ticks sid run" using e by (auto simp: beat_ticks_def run)
  then have "h' \<le> h" using assms(3) by blast
  moreover have "h \<le> h'"
    using assms(1,2) post by (force simp: clocked_def run sorted_append beat_ticks_def)
  ultimately have "h' = h" by simp
  with clocked_beat [OF assms(1) _ e, of h'] have "hb = now h" by (simp add: run)
  with \<open>h' = h\<close> run post hb scans show ?thesis by blast
qed

text \<open>
  C6: how fast silence is noticed.  When the last heartbeat of a sensor was handled at \<open>h\<close> and the
  watchdog scans at least every \<open>S\<close>, then up to ten seconds after \<open>h\<close> the sensor is offline
  exactly if that heartbeat overtook a scan, and online otherwise; from ten seconds, one millisecond
  and \<open>S\<close> after \<open>h\<close> on it is offline.  With the watchdog of
  \<^verbatim>\<open>main\<close>, which sleeps one second between scans, the twelve seconds the main thread waits
  leave almost a second for delivery and scheduling.
\<close>

theorem detection_window:
  assumes "clocked run" "run_ok (map snd run) init_Gateway" "\<forall>(x, e)\<in>set run. x \<le> T"
    and "h \<in> beat_ticks sid run" "\<forall>x\<in>beat_ticks sid run. x \<le> h" "ms 1 \<le> h"
    and "scans_every S T run"
  shows "let health_then = map_option health (sensors (run_events (map snd run) init_Gateway) sid)
    in (T \<le> h + ms 10000 \<longrightarrow> health_then = Some (if overtaken sid (map snd run) then OFFLINE else ONLINE)) \<and>
       (h + ms 10001 + S \<le> T \<longrightarrow> health_then = Some OFFLINE)"
proof -
  let ?es = "rev (map snd run)"
  have hb: "latest (heartbeat_of sid) ?es = Some (now h)"
    using last_beat_split [OF assms(1,4,5)] by blast
  obtain e where "(h, e) \<in> set run" "heartbeat_of sid e \<noteq> None" using assms(4) by (auto simp: beat_ticks_def)
  then have range: "0 \<le> h" "h < 2 ^ 63" using clocked_beat [OF assms(1), of h e sid] by auto
  have "run_events (map snd run) init_Gateway = spec_gateway ?es"
    using run_events_refines [of "map snd run" "[]"] assms(2) by (simp add: spec_gateway_Nil)
  then have state: "map_option health (sensors (run_events (map snd run) init_Gateway) sid) = Some (spec_health sid ?es)"
    using hb by (simp add: spec_gateway_def spec_entry_def)
  have early: "spec_health sid ?es = ONLINE" if T: "T \<le> h + ms 10000" and fair: "\<not> overtaken sid (map snd run)"
  proof -
    have "spec_health sid ?es \<noteq> OFFLINE"
    proof
      assume "spec_health sid ?es = OFFLINE"
      then obtain pre h' e post x r where run: "run = pre @ (h', e) # post" "heartbeat_of sid e = Some (now h')"
        "beat_ticks sid post = {}" "0 \<le> h'" "\<forall>y\<in>fst ` set pre. y \<le> h'" and late: "x \<in> fst ` set post" "r \<le> x" "ms 10000 < r - h'"
        using fair by (rule late_verdict [OF assms(1)])
      have "h \<le> h'" using assms(4) run by (auto simp: beat_ticks_def)
      moreover have "x \<le> T" using assms(3) late(1) by (auto simp: run(1))
      ultimately show False using late T by linarith
    qed
    then show ?thesis using hb by (auto simp: spec_health_def)
  qed
  have late: "spec_health sid ?es = OFFLINE" if T: "h + ms 10001 + S \<le> T"
  proof -
    have "0 \<le> h + ms 10001" using range(1) by (simp add: ms_def)
    with T obtain r x t ids where x: "(x, Scan t ids) \<in> set run" "t = now r" "h + ms 10001 \<le> r" "r \<le> x"
      using assms(7) unfolding scans_every_def by blast
    then have "h < x" by (simp add: ms_def)
    with scan_after_last_beat [OF assms(1,5)] x(1) have "t \<in> set (scans_since sid ?es)" by blast
    moreover have "x < 2 ^ 63" using clocked_scan [OF assms(1) x(1)] by blast
    then have "t - now h > SENSOR_HEARTBEAT_TIMEOUT_MS"
      using overdue_scan [OF range(1) x(3)] x(2,4) by simp
    moreover have "now h \<noteq> 0"
    proof -
      have "uint (now h) = h div 1000000" using range by (simp add: now_nonneg)
      moreover have "0 < h div 1000000" using assms(6) by (simp add: ms_def)
      ultimately show ?thesis by force
    qed
    ultimately show ?thesis by (auto simp: spec_health_def hb list_ex_iff)
  qed
  show ?thesis unfolding state Let_def using early late overtaken_offline [OF assms(1)] by simp
qed

theorem detection_window_witness:
  "map_option health (sensors (run_events
      [Heartbeat 1000 (beat_of 1000 (nd_sensor example_node)), Scan 5000 [1], Scan 10000 [1], Scan 15000 [1]]
      init_Gateway) 1) = Some OFFLINE"
proof -
  let ?run = "[(ms 1000, Heartbeat 1000 (beat_of 1000 (nd_sensor example_node))), (ms 5000, Scan 5000 [1]),
    (ms 10000, Scan 10000 [1]), (ms 15000, Scan 15000 [1])]"
  have instant: "\<exists>r\<ge>0. r \<le> ms n \<and> word_of_int n = now r" if "0 \<le> n" for n
    using that now_ms [of n] by (intro exI [of _ "ms n"]) (simp add: ms_def)
  have "beat_ticks 1 ?run = {ms 1000}" by (auto simp: beat_ticks_def beat_of_def example_node_id)
  moreover have "clocked ?run"
    using now_ms [of 1000] instant [of 5000] instant [of 10000] instant [of 15000]
    by (simp add: clocked_Cons clocked_Nil ms_def)
  moreover have "run_ok (map snd ?run) init_Gateway"
    by (simp add: iterates_def init_Gateway_def sensors_handleHeartbeat beat_of_def example_node_id
        detectOfflineSensors_eq dom_def)
  moreover have "scans_every (ms 5000) (ms 16001) ?run"
    unfolding scans_every_def
  proof (intro allI impI)
    fix y
    assume y: "0 \<le> y \<and> y + ms 5000 \<le> ms 16001"
    define x :: int where "x = (if y \<le> ms 5000 then 5000 else if y \<le> ms 10000 then 10000 else 15000)"
    have "(ms x, Scan (word_of_int x) [1]) \<in> set ?run" "y \<le> ms x" "ms x \<le> y + ms 5000"
      using y by (auto simp: ms_def x_def)
    moreover have "word_of_int x = now (ms x)" using now_ms [of x] by (simp add: ms_def x_def)
    ultimately show "\<exists>r x t ids. (x, Scan t ids) \<in> set ?run \<and> t = now r \<and> y \<le> r \<and> r \<le> x \<and> x \<le> y + ms 5000"
      by (intro exI [of _ "ms x"] exI [of _ "word_of_int x"] exI [of _ "[1]"]) simp
  qed
  ultimately show ?thesis
    using detection_window [of ?run "ms 16001" "ms 1000" 1 "ms 5000"] by (simp add: ms_def Let_def)
qed

end
