(* ===== verification/Alerts.thy ===== *)
theory Alerts
  imports ConsoleRenderer "HOL-Library.Sublist"
begin

text \<open>
  How an alert reaches the operator: the watchdog scan of the gateway, the bounded history of the
  logger and the columns of the dashboard together.
\<close>

section \<open>Entries of the history on the dashboard\<close>

lemma recent_entry:
  assumes "entry \<in> set mid" "length mid + length later \<le> 15"
  shows "(\<lambda>(ts, msg). stamped ts msg) entry \<in> set (getRecentLogs (log_all (calls @ mid @ later) init_Logger))"
proof -
  have "drop (length (calls @ mid @ later) - 15) (calls @ mid @ later) =
      drop (length (calls @ mid @ later) - 15) calls @ mid @ later"
    using assms(2) by simp
  then have "entry \<in> set (drop (length (calls @ mid @ later) - 15) (calls @ mid @ later))"
    using assms(1) by simp
  from imageI [OF this, of "\<lambda>(ts, msg). ''['' @ ts @ ''] '' @ msg"] show ?thesis
    unfolding recent_logs_window drop_map set_map stamped_def .
qed

lemma panel_row_sublist:
  assumes "i < max (length (getRecentLogs lg)) (length (tcpPanel (getStats v) srv))"
  shows "sublist (panel_row (getRecentLogs lg) (tcpPanel (getStats v) srv) i @ nl) (renderLogs lg v srv)"
proof -
  let ?row = "\<lambda>i. panel_row (getRecentLogs lg) (tcpPanel (getStats v) srv) i @ nl"
  let ?n = "max (length (getRecentLogs lg)) (length (tcpPanel (getStats v) srv))"
  have "[0..<?n] = [0..<i] @ i # [Suc i..<?n]"
    using assms upt_add_eq_append [of 0 i "?n - i"] upt_conv_Cons [of i ?n] by simp
  then have "concat (map ?row [0..<?n]) = concat (map ?row [0..<i]) @ ?row i @ concat (map ?row [Suc i..<?n])"
    by simp
  then show ?thesis
    unfolding renderLogs_def Let_def sublist_def by (metis append.assoc)
qed

lemma entry_shown:
  assumes "l \<in> set (getRecentLogs lg)" "length l \<le> 75"
  shows "sublist (''| '' @ l @ replicate (75 - length l) CHR '' '' @ '' | '') (renderLogs lg v srv)"
proof -
  obtain i where i: "i < length (getRecentLogs lg)" "getRecentLogs lg ! i = l"
    using assms(1) by (auto simp: in_set_conv_nth)
  have "prefix (''| '' @ l @ replicate (75 - length l) CHR '' '' @ '' | '')
      (panel_row (getRecentLogs lg) (tcpPanel (getStats v) srv) i @ nl)"
    using assms(2) i by (simp add: panel_row_def Let_def fitText_eq SYSTEM_WIDTH_def)
  then show ?thesis
    using panel_row_sublist [of i lg v srv] i(1) by (meson less_max_iff_disj prefix_imp_sublist sublist_order.order.trans)
qed

lemma offline_log_length: "length (offline_log sid) \<le> 38"
proof -
  have "unat sid < 10 ^ 10" using unsigned_less [of sid, where ?'a = nat] by simp
  then show ?thesis
    using length_dec_string_le [of "unat sid" 10] by (simp add: offline_log_def show_word_def)
qed

section \<open>The alert\<close>

text \<open>
  C10: an offline sensor is announced to the operator: when a scan finds a sensor that was online
  overdue, the sensor is offline afterwards, and as long as the lines of the scan and those logged
  after it are at most fifteen, whatever was logged before, the dashboard shows the line that
  announces it in full in a row of its own.
\<close>

theorem offline_alert_visible:
  assumes "iterates ids (sensors g)" "sensors g sid = Some info" "health info = ONLINE"
    and "0 < lastHeartbeatReceivedTime info" "lastHeartbeatReceivedTime info \<le> t"
    and "10000 < t - lastHeartbeatReceivedTime info"
    and "detectOfflineSensors t ids g = (g', lines)" "length stamps = length lines"
    and "\<forall>stamp\<in>set stamps. length stamp = 12" "length lines + length later \<le> 15"
  shows "map_option health (sensors g' sid) = Some OFFLINE \<and>
    (\<exists>stamp\<in>set stamps. let l = ''['' @ stamp @ ''] '' @ offline_log sid
     in sublist (''| '' @ l @ replicate (75 - length l) CHR '' '' @ '' | '')
          (renderLogs (log_all (calls @ zip stamps lines @ later) init_Logger) v srv))"
proof -
  have over: "timed_out t info"
    using assms(3-6) by (simp add: timed_out_def SENSOR_HEARTBEAT_TIMEOUT_MS_def word_neq_0_conv)
  have scan: "g' = g\<lparr>sensors := map_option (scan_entry t) \<circ> sensors g\<rparr>"
    "lines = map offline_log (filter (newly_offline t (sensors g)) ids)"
    using detectOfflineSensors_eq [OF assms(1), of t] assms(7) by simp_all
  have "sid \<in> set ids" using iterates_set [OF assms(1)] assms(2) by auto
  then have "offline_log sid \<in> set lines"
    using assms(2,3) over by (auto simp: scan(2) newly_offline_def)
  then obtain stamp where stamp: "(stamp, offline_log sid) \<in> set (zip stamps lines)"
    using assms(8) by (metis in_set_impl_in_set_zip2)
  then have st: "stamp \<in> set stamps" "length stamp = 12"
    using assms(9) by (auto dest: set_zip_leftD)
  have "stamped stamp (offline_log sid) \<in>
      set (getRecentLogs (log_all (calls @ zip stamps lines @ later) init_Logger))"
    using recent_entry [OF stamp, of later calls] assms(8,10) by simp
  moreover have "length (stamped stamp (offline_log sid)) \<le> 75"
    using st(2) offline_log_length [of sid] by (simp add: stamped_def)
  ultimately have "sublist (''| '' @ stamped stamp (offline_log sid) @
      replicate (75 - length (stamped stamp (offline_log sid))) CHR '' '' @ '' | '')
      (renderLogs (log_all (calls @ zip stamps lines @ later) init_Logger) v srv)"
    by (rule entry_shown)
  moreover have "map_option health (sensors g' sid) = Some OFFLINE"
    using over by (simp add: scan(1) assms(2) health_scan_entry)
  ultimately show ?thesis using st(1) by (auto simp: stamped_def Let_def)
qed

definition overdue_gateway :: Gateway where
  "overdue_gateway = example_gateway\<lparr>sensors := [3 \<mapsto>
     default_SensorInfo\<lparr>lastHeartbeatReceivedTime := 5000, health := ONLINE\<rparr>]\<rparr>"

theorem offline_alert_visible_witness:
  "sublist (''| [12:00:16.000] [GATEWAY] Sensor 3 is offline'' @ replicate 31 CHR '' '' @ '' | '')
     (renderLogs (log_all ([(''12:00:16.000'', offline_log 3)]) init_Logger) example_view (tcp_server_with 5))"
proof -
  have it: "iterates [3] (sensors overdue_gateway)" by (simp add: overdue_gateway_def iterates_def)
  have scan: "detectOfflineSensors 16000 [3] overdue_gateway =
      (fst (detectOfflineSensors 16000 [3] overdue_gateway), [offline_log 3])"
    using detectOfflineSensors_eq [OF it, of 16000]
    by (simp add: overdue_gateway_def newly_offline_def timed_out_def SENSOR_HEARTBEAT_TIMEOUT_MS_def)
  show ?thesis
    using offline_alert_visible [OF it _ _ _ _ _ scan, of 3 _ "[''12:00:16.000'']" "[]" "[]" example_view "tcp_server_with 5"]
    by (simp add: overdue_gateway_def offline_log_def show_word_def dec_string.simps digit_char_def Let_def)
qed

end
