(* ===== verification/TcpSession.thy ===== *)
theory TcpSession
  imports TcpServer
begin

text \<open>
  Whole sessions of a monitoring client: what it receives for a sequence of requests, and what the
  missing framing of requests does when the network cuts or joins them.
\<close>

section \<open>The response to a request\<close>

definition response_of :: "view \<Rightarrow> string \<Rightarrow> string" where
  "response_of v request =
     (case processRequest v request (tcp_server_with 0) of Inl _ \<Rightarrow> [] | Inr (response, _, _) \<Rightarrow> response)"

text \<open>
  The response does not depend on the state of the server.
\<close>

lemma processRequest_response:
  "snapshot_ok (v 0) \<Longrightarrow>
   \<exists>logs. processRequest v request ts =
     Inr (response_of v request, ts\<lparr>ts_lastCommand := normalize_request request\<rparr>,
          (''[TCP] Command: '' @ normalize_request request) # logs)"
  using processRequest_returns [of v request ts] processRequest_returns [of v request "tcp_server_with 0"]
  by (auto simp: response_of_def processRequest_def Let_def bind_result_Inr_iff split: sum.splits if_splits)

lemma response_commands:
  assumes "list_all is_line_end eol"
  shows "response_of v (''help'' @ eol) = help_report"
    "response_of v (''health'' @ eol) = healthSummary v"
    "response_of v (''stats'' @ eol) = stats v"
    "sensorList v = Inr r \<Longrightarrow> response_of v (''list'' @ eol) = r"
proof -
  have n: "normalize_request (c @ eol) = c" if "c \<in> {''help'', ''health'', ''stats'', ''list''}" for c
    using that assms by (intro normalize_line) (auto simp: is_line_end_def)
  note words = n [of "''help''"] n [of "''health''"] n [of "''stats''"] n [of "''list''"]
  show "response_of v (''help'' @ eol) = help_report"
    "response_of v (''health'' @ eol) = healthSummary v"
    "response_of v (''stats'' @ eol) = stats v"
    "sensorList v = Inr r \<Longrightarrow> response_of v (''list'' @ eol) = r"
    using words by (simp_all add: response_of_def processRequest_def Let_def)
qed

lemma response_get:
  "list_all is_line_end eol \<Longrightarrow> 0 < n \<Longrightarrow> n < 2 ^ 31 \<Longrightarrow>
   response_of v (''get '' @ dec_string n @ eol) = sensorDetails (\<lambda>k. v (Suc k)) (word_of_nat n)"
  using normalize_line [of "''get '' @ dec_string n" eol] dec_string_last [of n] parseId_get [of n]
  by (simp add: response_of_def processRequest_def Let_def)

lemma response_unknown:
  assumes "normalize_request request \<notin> {''help'', ''list'', ''health'', ''stats''}"
    "\<not> prefix ''get '' (normalize_request request)"
  shows "response_of v request = ''unknown command'' @ nl @ nl"
  using assms by (simp add: response_of_def processRequest_def Let_def)

section \<open>Transcripts\<close>

text \<open>
  An exchange with a complete request and a response that can be delivered.
\<close>

definition delivered :: "exchange \<Rightarrow> bool" where
  "delivered x \<longleftrightarrow>
     active x \<and> writes_ok (ex_writes x) (length (response_of (ex_view x) (the (ex_read x))))"

definition ex_response :: "exchange \<Rightarrow> string" where
  "ex_response x = response_of (ex_view x) (the (ex_read x))"

lemma handleClient_delivered:
  assumes "delivered x"
  shows "\<exists>logs. handleClient (x # xs) s =
    handleClient xs (s\<lparr>se_server := (se_server s)\<lparr>ts_lastCommand := normalize_request (the (ex_read x))\<rparr>,
                       se_log := se_log s @ (''[TCP] Command: '' @ normalize_request (the (ex_read x))) # logs,
                       se_out := se_out s @ ex_response x\<rparr>)"
proof -
  have act: "active x" and ok: "writes_ok (ex_writes x) (length (ex_response x))"
    using assms by (simp_all add: delivered_def ex_response_def)
  obtain request where r: "ex_read x = Some request" "snapshot_ok (ex_view x 0)"
    "\<And>ts response ts' logs. processRequest (ex_view x) request ts = Inr (response, ts', logs) \<Longrightarrow>
       length response \<le> length (ex_writes x)" "list_all (\<lambda>w. 0 < w) (ex_writes x)"
    using act unfolding active_def by blast
  obtain logs where p: "processRequest (ex_view x) request (se_server s) =
      Inr (ex_response x, (se_server s)\<lparr>ts_lastCommand := normalize_request request\<rparr>,
           (''[TCP] Command: '' @ normalize_request request) # logs)"
    using processRequest_response [of "ex_view x" request "se_server s"] r(1,2)
    by (auto simp: ex_response_def)
  obtain st out where w: "write_response (ex_writes x) 0 (ex_response x) (se_out s) = (st, out)"
    by (cases "write_response (ex_writes x) 0 (ex_response x) (se_out s)")
  have "st = Written"
    using write_response_completes [OF r(4), of "ex_response x" 0 "se_out s"] r(3) [OF p] w by simp
  moreover have "st = Written \<Longrightarrow> out = se_out s @ ex_response x"
    using write_response_prefix [of "ex_writes x" "ex_response x" 0 "se_out s" st out] ok w by auto
  ultimately show ?thesis using r(1) p w by (intro exI [of _ logs]) simp
qed

lemma handleClient_transcript:
  "list_all delivered xs \<Longrightarrow>
   \<exists>s'. handleClient xs s = (Running, s') \<and>
     se_out s' = se_out s @ concat (map ex_response xs) \<and>
     ts_lastCommand (se_server s') =
       last (ts_lastCommand (se_server s) # map (\<lambda>x. normalize_request (the (ex_read x))) xs)"
proof (induction xs arbitrary: s)
  case (Cons x xs)
  then obtain logs where "handleClient (x # xs) s =
      handleClient xs (s\<lparr>se_server := (se_server s)\<lparr>ts_lastCommand := normalize_request (the (ex_read x))\<rparr>,
                         se_log := se_log s @ (''[TCP] Command: '' @ normalize_request (the (ex_read x))) # logs,
                         se_out := se_out s @ ex_response x\<rparr>)" (is "_ = handleClient xs ?s1")
    using handleClient_delivered [of x xs s] by auto
  moreover obtain s' where "handleClient xs ?s1 = (Running, s')"
    "se_out s' = se_out ?s1 @ concat (map ex_response xs)"
    "ts_lastCommand (se_server s') =
       last (ts_lastCommand (se_server ?s1) # map (\<lambda>x. normalize_request (the (ex_read x))) xs)"
    using Cons.IH [of ?s1] Cons.prems by auto
  ultimately show ?case by auto
qed simp

section \<open>Properties of sessions\<close>

text \<open>
  C11: a session is answered in order and completely: for a client that sends requests one after the
  other, over any splitting of the responses into partial writes, the text it receives is the
  concatenation of the responses to its requests, the last command shown on the dashboard is its last
  request without the line end, and the session is still open; when the client disconnects, it ends.
\<close>

theorem session_transcript:
  assumes "list_all delivered xs" "xs \<noteq> []" "ex_read bye = None"
  shows "(\<exists>s'. handleClient xs s = (Running, s') \<and>
      se_out s' = se_out s @ concat (map ex_response xs) \<and>
      ts_lastCommand (se_server s') = normalize_request (the (ex_read (last xs)))) \<and>
    (\<exists>s'. handleClient (xs @ [bye]) s = (Left, s'))"
proof -
  obtain s1 where "handleClient xs s = (Running, s1)" "se_out s1 = se_out s @ concat (map ex_response xs)"
    "ts_lastCommand (se_server s1) = normalize_request (the (ex_read (last xs)))"
    using handleClient_transcript [OF assms(1), of s] assms(2) by (auto simp: last_map)
  moreover have "list_all active xs"
    using assms(1) by (simp add: list_all_iff delivered_def)
  then obtain s2 where "handleClient (xs @ [bye]) s = handleClient [bye] s2"
    using handleClient_append by blast
  ultimately show ?thesis using assms(3) by auto
qed

lemma help_exchange_delivered: "delivered help_exchange"
proof -
  have ones: "writes_ok (replicate k 1) n" for k n by (induction k arbitrary: n) auto
  show ?thesis
    using help_exchange_active ones by (simp add: delivered_def help_exchange_def del: replicate_Suc)
qed

definition bye_exchange :: exchange where
  "bye_exchange = \<lparr>ex_read = None, ex_view = example_view, ex_writes = []\<rparr>"

theorem session_transcript_witness:
  "\<exists>s'. handleClient [help_exchange, help_exchange]
      \<lparr>se_server = tcp_server_with 5, se_out = [], se_log = []\<rparr> = (Running, s') \<and>
    se_out s' = help_report @ help_report"
proof -
  have "ex_response help_exchange = help_report"
    using response_commands(1) [of "[]"] by (simp add: ex_response_def help_exchange_def)
  then show ?thesis
    using session_transcript [of "[help_exchange, help_exchange]" bye_exchange
        "\<lparr>se_server = tcp_server_with 5, se_out = [], se_log = []\<rparr>"] help_exchange_delivered
    by (auto simp: bye_exchange_def)
qed

lemma dec_string_snoc: "0 < n \<Longrightarrow> d < 10 \<Longrightarrow> dec_string (10 * n + d) = dec_string n @ [digit_char d]"
  by (subst dec_string.simps) simp

text \<open>
  An exchange in which the response is written byte by byte.
\<close>

definition bytewise :: "view \<Rightarrow> string \<Rightarrow> exchange" where
  "bytewise v request =
     \<lparr>ex_read = Some request, ex_view = v, ex_writes = replicate (length (response_of v request)) 1\<rparr>"

lemma bytewise_delivered:
  assumes "snapshot_ok (v 0)" "request \<noteq> []" "length request \<le> tcp_MAX_PACKET_SIZE"
  shows "delivered (bytewise v request)"
proof -
  have "response = response_of v request" if "processRequest v request ts = Inr (response, ts', logs)" for ts response ts' logs
    using processRequest_response [of v request ts] assms(1) that by auto
  moreover have "writes_ok (replicate n 1) n" for n by (induction n) auto
  ultimately show ?thesis
    using assms by (auto simp: delivered_def active_def read_ok_def bytewise_def list_all_iff)
qed

text \<open>
  C39: the server takes each read for a request, so a request cut by the network is misread: when the
  line that asks for sensor \<open>10 * n + d\<close> arrives in two reads, the first of which ends before the
  last digit, the client is sent the details of sensor \<open>n\<close> and then that the command is unknown.
\<close>

theorem cut_request_misread:
  assumes "0 < n" "n < 2 ^ 31" "d < 10" "list_all is_line_end eol"
    and "first @ second = ''get '' @ dec_string (10 * n + d) @ eol" "length second = Suc (length eol)"
    and "delivered x" "ex_read x = Some first" "delivered y" "ex_read y = Some second"
  shows "\<exists>s'. handleClient [x, y] s = (Running, s') \<and>
    se_out s' = se_out s @ sensorDetails (\<lambda>k. ex_view x (Suc k)) (word_of_nat n) @ ''unknown command'' @ nl @ nl"
proof -
  have "first @ second = (''get '' @ dec_string n) @ [digit_char d] @ eol"
    using assms(1,3,5) by (simp add: dec_string_snoc)
  moreover have "length second = length ([digit_char d] @ eol)" using assms(6) by simp
  ultimately have cut: "first = ''get '' @ dec_string n" "second = [digit_char d] @ eol"
    using append_eq_append_conv by blast+
  have "is_digit (digit_char d)" using assms(3) by simp
  then have d: "\<not> is_line_end (digit_char d)" "digit_char d \<noteq> CHR ''g''"
    by (auto simp: is_line_end_def is_digit_def)
  then have "normalize_request second = [digit_char d]"
    unfolding cut using assms(4) by (intro normalize_line) simp_all
  with d(2) have "ex_response y = ''unknown command'' @ nl @ nl"
    using assms(10) response_unknown [of second "ex_view y"] by (simp add: ex_response_def)
  moreover have "ex_response x = sensorDetails (\<lambda>k. ex_view x (Suc k)) (word_of_nat n)"
    using response_get [of "[]" n "ex_view x"] assms(1,2,8) cut by (simp add: ex_response_def)
  ultimately show ?thesis
    using handleClient_transcript [of "[x, y]" s] assms(7,9) by auto
qed

theorem cut_request_misread_witness:
  "\<exists>s'. handleClient [bytewise example_view ''get 3'', bytewise example_view (''7'' @ nl)]
      \<lparr>se_server = tcp_server_with 5, se_out = [], se_log = []\<rparr> = (Running, s') \<and>
    se_out s' = sensorDetails (\<lambda>k. example_view (Suc k)) 3 @ ''unknown command'' @ nl @ nl"
proof -
  have "delivered (bytewise example_view ''get 3'')" "delivered (bytewise example_view (''7'' @ nl))"
    by (intro bytewise_delivered; simp add: tcp_MAX_PACKET_SIZE_def nl_def)+
  then show ?thesis
    using cut_request_misread [of 3 7 nl "''get 3''" "''7'' @ nl" "bytewise example_view ''get 3''"
        "bytewise example_view (''7'' @ nl)" "\<lparr>se_server = tcp_server_with 5, se_out = [], se_log = []\<rparr>"]
    by (simp add: nl_def is_line_end_def dec_string.simps digit_char_def bytewise_def)
qed

end
