(* ===== verification/EndToEnd.thy ===== *)
theory EndToEnd
  imports SensorNetwork TcpSession
begin

text \<open>
  From a node to a monitoring client: the measuring cycle of \<^verbatim>\<open>SensorNode\<close>, the socket, the
  loop of \<^verbatim>\<open>UdpReceiver\<close>, the registry of \<^verbatim>\<open>Gateway\<close>, the reports of \<^verbatim>\<open>Monitor\<close>
  and the session of \<^verbatim>\<open>TcpServer\<close> put together.  The theory adds no code of its own: it shows
  what a client is told about the readings that were sent.
\<close>

section \<open>The stored reading of a sensor\<close>

text \<open>
  A packet the gateway takes for a reading of the sensor \<open>sid\<close>.
\<close>

definition telemetry_for :: "u32 \<Rightarrow> bytes \<Rightarrow> bool" where
  "telemetry_for sid p \<longleftrightarrow>
     peekMessageType p = Inr TELEMETRY \<and>
     (case deserializeTelemetry p of Inl _ \<Rightarrow> False | Inr m \<Rightarrow> ph_sensorId (tm_header m) = sid)"

definition stored_reading :: "u32 \<Rightarrow> Gateway \<Rightarrow> TelemetryMessage option" where
  "stored_reading sid g = map_option lastTelemetry (sensors g sid)"

lemma stored_reading_Some:
  "stored_reading sid g = Some m \<longleftrightarrow> (\<exists>info. sensors g sid = Some info \<and> lastTelemetry info = m)"
  by (auto simp: stored_reading_def)

text \<open>
  A stored reading survives every packet that is not a reading of the same sensor.
\<close>

lemma handlePacket_keeps_reading:
  assumes "stored_reading sid g = Some m" "\<not> telemetry_for sid p" "handlePacket t p g = Inr (g', logs)"
  shows "stored_reading sid g' = Some m"
proof (cases rule: handlePacket_cases [of p t g])
  case (telemetry n)
  have "deserializeTelemetry (serialize_telemetry n @ drop 23 p) = Inr n"
    using telemetry(3) by (rule deserializeTelemetry_serialize)
  then have "deserializeTelemetry p = Inr n" unfolding telemetry(5) by simp
  moreover have "peekMessageType p = Inr TELEMETRY"
    using telemetry(1,2) by (simp add: peekMessageType_first_byte)
  ultimately have "ph_sensorId (tm_header n) \<noteq> sid" using assms(2) by (simp add: telemetry_for_def)
  with telemetry(6) assms show ?thesis by (auto simp: stored_reading_def sensors_updateSensorInfo)
next
  case (heartbeat h)
  with assms show ?thesis by (auto simp: stored_reading_def sensors_handleHeartbeat)
qed (use assms in simp_all)

lemma handle_all_keeps_reading:
  "stored_reading sid g = Some m \<Longrightarrow> list_all (\<lambda>(t, p). \<not> telemetry_for sid p) ps \<Longrightarrow>
   stored_reading sid (gateway_handler.handle_all ps g) = Some m"
proof (induction ps arbitrary: g)
  case (Cons a ps)
  then show ?case
    by (cases a; cases "handlePacket (fst a) (snd a) g") (auto dest: handlePacket_keeps_reading)
qed simp

text \<open>
  After the packets \<open>ps\<close>, the reading \<open>m\<close> and packets \<open>qs\<close> without a newer reading of
  its sensor, the reading is stored.
\<close>

lemma handle_all_stores:
  assumes "TelemetryMessage_ok m" "ph_type (tm_header m) = TELEMETRY"
    and "list_all (\<lambda>(t, p). \<not> malformed_packet p) ps"
    and "list_all (\<lambda>(t, p). \<not> telemetry_for (ph_sensorId (tm_header m)) p) qs"
  shows "stored_reading (ph_sensorId (tm_header m))
    (gateway_handler.handle_all (ps @ (t, serialize_telemetry m) # qs) g) = Some m"
proof -
  let ?g = "gateway_handler.handle_all ps g"
  have "stored_reading (ph_sensorId (tm_header m)) (updateSensorInfo t m ?g) = Some m"
    by (simp add: stored_reading_def sensors_updateSensorInfo)
  from handle_all_keeps_reading [OF this assms(4)] show ?thesis
    using assms by (simp add: gateway_handler.handle_all_append handlePacket_serialized)
qed

lemma receive_run_gateway:
  assumes "0 \<le> ur_sockfd (rx_receiver rx)" "UdpReceiver_run is rx = (Running, rx')"
  shows "rx_gateway rx' = gateway_handler.handle_all (received (live_inputs is)) (rx_gateway rx)"
    "list_all (\<lambda>(u, p). \<not> malformed_packet p) (received (live_inputs is))"
proof -
  let ?s = "rx\<lparr>rx_receiver := (rx_receiver rx)\<lparr>ur_running := True\<rparr>,
              rx_log := rx_log rx @ [''[UDP] Receiver started'']\<rparr>"
  have "receive_loop is ?s = (Running, rx')"
    using assms by (simp add: UdpReceiver_run_def Let_def)
  from receive_loop_gateway [OF _ this]
  show "rx_gateway rx' = gateway_handler.handle_all (received (live_inputs is)) (rx_gateway rx)"
    "list_all (\<lambda>(u, p). \<not> malformed_packet p) (received (live_inputs is))"
    by (auto simp: list_all_iff list_ex_iff)
qed

lemma tick_wire:
  assumes "os_sendto sendto wire" "tick (UdpSender_send inet_pton sendto us) draw t nd net = (Inr m, nd', net')"
  shows "m = reading_of draw t (nd_sensor nd)" "\<exists>d. wire net' = wire net @ [(d, serialize_telemetry m)]"
    "snd (last (wire net')) = serialize_telemetry m"
proof -
  obtain r where r: "UdpSender_send inet_pton sendto us (serialize_telemetry (reading_of draw t (nd_sensor nd))) net = (Inr r, net')"
    and m: "m = reading_of draw t (nd_sensor nd)"
    using assms(2) by (auto simp: tick_eq Let_def bind_result_Inr_iff split: prod.splits)
  show "m = reading_of draw t (nd_sensor nd)" by (rule m)
  show w: "\<exists>d. wire net' = wire net @ [(d, serialize_telemetry m)]"
    using os_sendto.udp_send_returns [OF assms(1) r] m by blast
  then show "snd (last (wire net')) = serialize_telemetry m" by auto
qed

section \<open>What the reports say of a stored reading\<close>

lemma sublist_concat: "x \<in> set xs \<Longrightarrow> sublist x (concat xs)"
proof -
  assume "x \<in> set xs"
  then obtain ys zs where "xs = ys @ x # zs" by (meson split_list)
  then show ?thesis by simp
qed

definition reading_lines :: "TelemetryMessage \<Rightarrow> string list" where
  "reading_lines m =
     [''messageType : '' @ to_string_MessageType (ph_type (tm_header m)) @ nl,
      ''sensorId    : '' @ show_word (ph_sensorId (tm_header m)) @ nl,
      ''timestamp   : '' @ show_word (ph_timestamp_ms (tm_header m)) @ nl,
      ''sensorType  : '' @ to_string_SensorType (tm_type m) @ nl,
      ''state       : '' @ to_string_SensorState (tm_state m) @ nl,
      ''value       : '' @ show_double (tm_value m) @ nl]"

lemma sensorDetails_parts:
  assumes "stored_reading sid (sn_gateway (v 0)) = Some m" "ph_sensorId (tm_header m) = sid"
  shows "\<exists>header payload heartbeat. sensorDetails v sid =
    concat (header # take 3 (reading_lines m) @ payload # drop 3 (reading_lines m) @ [heartbeat])"
proof -
  obtain info where info: "view_sensors v 0 sid = Some info" "lastTelemetry info = m"
    using assms(1) by (auto simp: stored_reading_Some view_sensors_def getSensors_def)
  show ?thesis
    using assms(2) info
    by (intro exI [of _ "nl @ ''=== SENSOR INFORMATION ==='' @ nl @ nl @ ''Packet Header'' @ nl @ ''--------------'' @ nl"]
        exI [of _ "nl @ ''Telemetry Payload'' @ nl @ ''-----------------'' @ nl"]
        exI [of _ "nl @ ''Heartbeat Status'' @ nl @ ''----------------'' @ nl @
          ''health         : '' @ to_string_SensorHealth (health info) @ nl @
          ''last heartbeat : '' @ show_word (view_seconds v 1 sid) @ '' sec ago'' @ nl @ nl @ nl"])
      (simp add: sensorDetails_def reading_lines_def Let_def)
qed

lemma sensorDetails_lines:
  assumes "stored_reading sid (sn_gateway (v 0)) = Some m" "ph_sensorId (tm_header m) = sid"
  shows "list_all (\<lambda>line. sublist line (sensorDetails v sid)) (reading_lines m)"
proof -
  obtain a b c where details: "sensorDetails v sid =
      concat (a # take 3 (reading_lines m) @ b # drop 3 (reading_lines m) @ [c])"
    using sensorDetails_parts [of sid v m] assms by blast
  have "line \<in> set (a # take 3 (reading_lines m) @ b # drop 3 (reading_lines m) @ [c])"
    if "line \<in> set (reading_lines m)" for line
    using that by (metis Un_iff append_take_drop_id list.set_intros(2) set_append)
  then show ?thesis unfolding list_all_iff details using sublist_concat by blast
qed

section \<open>Properties from end to end\<close>

text \<open>
  C2: a reading reaches the client.  A node's cycle puts its reading on the wire; when the receiver's
  loop gets this datagram, among any others, and no later reading of the same sensor, then a client
  that asks for the sensor is sent a report with the sensor's id, the time of the cycle, the type of
  the sensor, the state and the value the cycle returned, in full, over any splitting into partial
  writes.
\<close>

theorem reading_reaches_client:
  assumes "os_sendto sendto wire"
    and "tick (UdpSender_send inet_pton sendto us) draw t nd net = (Inr m, nd', net')"
    and "0 < any_getId (nd_sensor nd)" "any_getId (nd_sensor nd) < 0x80000000"
    and "0 \<le> ur_sockfd (rx_receiver rx)" "UdpReceiver_run is rx = (Running, rx')"
    and "received (live_inputs is) = ps @ (u, snd (last (wire net'))) # qs"
    and "list_all (\<lambda>(u, p). \<not> telemetry_for (any_getId (nd_sensor nd)) p) qs"
    and "delivered x" "ex_read x = Some (''get '' @ show_word (any_getId (nd_sensor nd)) @ eol)"
    and "list_all is_line_end eol" "sn_gateway (ex_view x 1) = rx_gateway rx'"
  shows "\<exists>s' report. handleClient [x] s = (Running, s') \<and> se_out s' = se_out s @ report \<and>
    list_all (\<lambda>line. sublist line report)
      [''messageType : TELEMETRY'' @ nl,
       ''sensorId    : '' @ show_word (any_getId (nd_sensor nd)) @ nl,
       ''timestamp   : '' @ show_word t @ nl,
       ''sensorType  : '' @ to_string_SensorType (getType (nd_sensor nd)) @ nl,
       ''state       : '' @ to_string_SensorState (tm_state m) @ nl,
       ''value       : '' @ show_double (fst (collectData draw (nd_sensor nd))) @ nl]"
proof -
  let ?sid = "any_getId (nd_sensor nd)" and ?v = "\<lambda>k. ex_view x (Suc k)"
  have m: "m = reading_of draw t (nd_sensor nd)" "snd (last (wire net')) = serialize_telemetry m"
    using tick_wire [OF assms(1,2)] by simp_all
  have gw: "rx_gateway rx' = gateway_handler.handle_all (received (live_inputs is)) (rx_gateway rx)"
    "list_all (\<lambda>(u, p). \<not> malformed_packet p) (received (live_inputs is))"
    using receive_run_gateway [OF assms(5,6)] by simp_all
  have "stored_reading ?sid (rx_gateway rx') = Some m"
    unfolding gw(1) assms(7)
    using handle_all_stores [of m ps qs u "rx_gateway rx"] gw(2) assms(7,8) m
    by (simp add: reading_of_ok reading_of_header)
  then have "list_all (\<lambda>line. sublist line (sensorDetails ?v ?sid)) (reading_lines m)"
    using assms(12) m(1) by (intro sensorDetails_lines) (simp_all add: reading_of_header)
  moreover have "ex_response x = sensorDetails ?v ?sid"
    using response_get [OF assms(11), of "unat ?sid" "ex_view x"] assms(3,4,10)
    by (simp add: ex_response_def show_word_def word_less_nat_alt unat_gt_0)
  moreover obtain s' where "handleClient [x] s = (Running, s')" "se_out s' = se_out s @ ex_response x"
    using handleClient_transcript [of "[x]" s] assms(9) by auto
  ultimately show ?thesis
    by (intro exI [of _ s'] exI [of _ "ex_response x"])
      (simp add: reading_lines_def m(1) reading_of_header reading_of_fields to_string_MessageType_def)
qed

definition example_datagram :: bytes where
  "example_datagram = serialize_telemetry (reading_of zero_double 7 (nd_sensor example_node))"

definition one_datagram :: "rx_input list" where
  "one_datagram = [\<lparr>ri_stop_before = False, ri_stop_during = False, ri_recv = Datagram example_datagram, ri_now = 8\<rparr>]"

lemma example_tick:
  "\<exists>nd'. tick (UdpSender_send (\<lambda>_. Some 0x7F000001) loopback_sendto example_sender) zero_double 7 example_node [] =
     (Inr (reading_of zero_double 7 (nd_sensor example_node)), nd', [((0x7F000001, 9000), example_datagram)])"
  by (simp add: tick_eq UdpSender_send_def loopback_sendto_def example_sender_def example_datagram_def Let_def)

lemma example_node_sensor: "any_getId (nd_sensor example_node) = 1" "getType (nd_sensor example_node) = Motion"
  by (simp_all add: example_node_def new_SensorNode_def any_getId_def getId_def truncate_eq new_MotionSensor_def)

definition example_stored :: rx_state where
  "example_stored = example_rx\<lparr>rx_receiver := (rx_receiver example_rx)\<lparr>ur_running := True\<rparr>,
     rx_log := [''[UDP] Receiver started''],
     rx_gateway := updateSensorInfo 8 (reading_of zero_double 7 (nd_sensor example_node)) init_Gateway\<rparr>"

lemma one_datagram_run: "UdpReceiver_run one_datagram example_rx = (Running, example_stored)"
proof -
  have "take MAX_PACKET_SIZE example_datagram = example_datagram"
    by (simp add: example_datagram_def MAX_PACKET_SIZE_def c_telemetry.enc_length)
  moreover have "handlePacket 8 example_datagram init_Gateway =
      Inr (updateSensorInfo 8 (reading_of zero_double 7 (nd_sensor example_node)) init_Gateway, [])"
    unfolding example_datagram_def by (rule handlePacket_serialized) (simp_all add: reading_of_ok reading_of_header)
  ultimately show ?thesis
    by (simp add: UdpReceiver_run_def one_datagram_def example_rx_def receivePacket_def stop_if_def
        example_stored_def Let_def)
qed

lemma one_datagram_received: "received (live_inputs one_datagram) = [(8, example_datagram)]"
  by (simp add: one_datagram_def example_datagram_def MAX_PACKET_SIZE_def c_telemetry.enc_length)

theorem reading_reaches_client_witness:
  "\<exists>s' report. handleClient [bytewise (quiet (rx_gateway example_stored) [1] 9) (''get 1'' @ nl)]
      \<lparr>se_server = tcp_server_with 5, se_out = [], se_log = []\<rparr> = (Running, s') \<and>
    se_out s' = report \<and> sublist (''sensorType  : '' @ to_string_SensorType Motion @ nl) report \<and>
    sublist (''timestamp   : '' @ show_word (7 :: u64) @ nl) report"
proof -
  let ?v = "quiet (rx_gateway example_stored) [1] 9"
  let ?x = "bytewise ?v (''get 1'' @ nl)" and ?s = "\<lparr>se_server = tcp_server_with 5, se_out = [], se_log = []\<rparr>"
  have "sensors (rx_gateway example_stored) = [1 \<mapsto> default_SensorInfo
      \<lparr>lastTelemetry := reading_of zero_double 7 (nd_sensor example_node), lastTelemetryReceivedTime := 8\<rparr>]"
    by (simp add: example_stored_def sensors_updateSensorInfo reading_of_header example_node_sensor init_Gateway_def)
  then have "delivered ?x"
    by (intro bytewise_delivered)
      (simp_all add: quiet_def snapshot_ok_def iterates_def tcp_MAX_PACKET_SIZE_def nl_def)
  moreover obtain nd' where "tick (UdpSender_send (\<lambda>_. Some 0x7F000001) loopback_sendto example_sender) zero_double 7
      example_node [] =
      (Inr (reading_of zero_double 7 (nd_sensor example_node)), nd', [((0x7F000001, 9000), example_datagram)])"
    using example_tick by blast
  moreover have "ex_read ?x = Some (''get '' @ show_word (1 :: u32) @ nl)" "ex_view ?x 1 = ?v 1" "list_all is_line_end nl"
    by (simp_all add: bytewise_def show_word_def dec_string.simps digit_char_def nl_def is_line_end_def)
  ultimately obtain s' report where "handleClient [?x] ?s = (Running, s')" "se_out s' = se_out ?s @ report"
    "list_all (\<lambda>line. sublist line report)
      [''messageType : TELEMETRY'' @ nl, ''sensorId    : '' @ show_word (1 :: u32) @ nl, ''timestamp   : '' @ show_word (7 :: u64) @ nl,
       ''sensorType  : '' @ to_string_SensorType Motion @ nl,
       ''state       : '' @ to_string_SensorState (tm_state (reading_of zero_double 7 (nd_sensor example_node))) @ nl,
       ''value       : '' @ show_double (fst (collectData zero_double (nd_sensor example_node))) @ nl]"
    using reading_reaches_client [OF loopback.os_sendto_axioms _ _ _ _ one_datagram_run, of "\<lambda>_. Some 0x7F000001"
        example_sender zero_double 7 example_node "[]" "reading_of zero_double 7 (nd_sensor example_node)" nd'
        "[((0x7F000001, 9000), example_datagram)]" "[]" 8 "[]" ?x nl ?s]
    by (auto simp: example_node_sensor one_datagram_received quiet_def example_rx_def simp del: handleClient.simps)
  then show ?thesis by (intro exI [of _ s'] exI [of _ report] conjI) simp_all
qed

text \<open>
  What the type column of the list may show for a sensor: its own class, or the name of the
  all-zero type while no reading has arrived.
\<close>

definition genuine_types :: "u32 \<Rightarrow> string set" where
  "genuine_types sid =
     to_string_SensorType ` insert (tm_type zero_TelemetryMessage) {ty. (sid, ty) \<in> set roster}"

lemma system_entry_genuine:
  assumes "os_sendto sendto wire" "sys_reachable inet_pton sendto wire fds s" "sensors (gw (sy_wd s)) sid = Some info"
  shows "sid \<in> {1, 2, 3, 4, 5, 6, 7} \<and> to_string_SensorType (tm_type (lastTelemetry info)) \<in> genuine_types sid"
proof -
  have "entry_from (wire (sy_net s)) sid info"
    using sys_reachable_inv [OF assms(1,2)] assms(3) by (simp add: sys_inv_def)
  then show ?thesis unfolding entry_from_def genuine_types_def roster_ids by (auto simp del: insert_iff)
qed

text \<open>
  C18: the monitoring interface of the running system invents nothing.  Whatever the network and the
  scheduler do, in every reachable state a client that asks for the list is sent the header, one
  row per registered sensor in ascending order, none but the seven of the program, each with its own
  class or no class yet, and the trailer; and asking for any other identifier finds nothing.
\<close>

theorem system_list_genuine:
  assumes "os_sendto sendto wire" "sys_reachable inet_pton sendto wire fds s"
    and "\<And>k. sn_gateway (v k) = gw (sy_wd s)" "snapshot_ok (v 0)" "list_all is_line_end eol"
  shows "(\<exists>rows. response_of v (''list'' @ eol) = list_header @ concat (map snd rows) @ nl @ nl @ nl \<and>
      map fst rows = sorted_list_of_set (dom (sensors (gw (sy_wd s)))) \<and> set (map fst rows) \<subseteq> {1, 2, 3, 4, 5, 6, 7} \<and>
      (\<forall>(sid, row)\<in>set rows. \<exists>ty\<in>genuine_types sid. prefix (setw_left 6 (show_word sid) @ setw_left 15 ty) row)) \<and>
    (\<forall>n. 7 < n \<and> n < 2 ^ 31 \<longrightarrow> response_of v (''get '' @ dec_string n @ eol) = ''sensor not found'' @ nl @ nl)"
proof (intro conjI allI impI exI [of _ "list_rows v"])
  let ?reg = "sensors (gw (sy_wd s))"
  note entry = system_entry_genuine [OF assms(1,2)]
  have reg: "view_sensors v k = ?reg" for k using assms(3) by (simp add: view_sensors_def getSensors_def)
  have fin: "finite (dom ?reg)"
    using assms(3,4) by (auto simp: snapshot_ok_def dest: iterates_finite)
  show "response_of v (''list'' @ eol) = list_header @ concat (map snd (list_rows v)) @ nl @ nl @ nl"
    using response_commands(4) [OF assms(5)] sensorList_rows assms(4) by blast
  show "map fst (list_rows v) = sorted_list_of_set (dom ?reg)" by (simp add: list_rows_ids reg)
  show "set (map fst (list_rows v)) \<subseteq> {1, 2, 3, 4, 5, 6, 7}"
    unfolding list_rows_ids reg using fin entry by auto
  show "\<forall>(sid, row)\<in>set (list_rows v). \<exists>ty\<in>genuine_types sid. prefix (setw_left 6 (show_word sid) @ setw_left 15 ty) row"
  proof clarify
    fix sid row
    assume "(sid, row) \<in> set (list_rows v)"
    then obtain info k where "?reg sid = Some info" "row = list_row sid info (view_seconds v k sid)"
      using list_rows_row [of v sid row] fin by (auto simp: reg)
    then show "\<exists>ty\<in>genuine_types sid. prefix (setw_left 6 (show_word sid) @ setw_left 15 ty) row"
      using entry by (intro bexI [of _ "to_string_SensorType (tm_type (lastTelemetry info))"])
        (auto simp: list_row_def Let_def)
  qed
  fix n :: nat
  assume n: "7 < n \<and> n < 2 ^ 31"
  then have "unat (word_of_nat n :: u32) = n" by (simp add: unsigned_of_nat take_bit_nat_eq_self)
  then have "(word_of_nat n :: u32) \<notin> {1, 2, 3, 4, 5, 6, 7}" using n by force
  then have "?reg (word_of_nat n) = None" using entry by (cases "?reg (word_of_nat n)") blast+
  then show "response_of v (''get '' @ dec_string n @ eol) = ''sensor not found'' @ nl @ nl"
    using response_get [OF assms(5), of n v] n reg [of 1] by (simp add: sensorDetails_def view_sensors_def)
qed

lemma example_deliver_reachable:
  "\<exists>s. sys_reachable example_address loopback_sendto (\<lambda>net. net) (\<lambda>k. 3) s \<and>
     sensors (gw (sy_wd s)) = [1 \<mapsto> default_SensorInfo
       \<lparr>lastTelemetry := reading_of zero_double 1000 (IsMotion (new_MotionSensor 1)), lastTelemetryReceivedTime := 1000\<rparr>]"
proof -
  let ?m = "reading_of zero_double 1000 (IsMotion (new_MotionSensor 1))"
  obtain s where s: "sys_reachable example_address loopback_sendto (\<lambda>net. net) (\<lambda>k. 3) s"
    "sy_net s = [((0x7F000001, 9000), example_packet)]" "sy_wd s = init_wd 1000"
    using example_tick_reachable by blast
  have "take MAX_PACKET_SIZE example_packet = example_packet"
    by (simp add: example_packet_def MAX_PACKET_SIZE_def c_telemetry.enc_length)
  moreover have "handlePacket 1000 example_packet init_Gateway = Inr (updateSensorInfo 1000 ?m init_Gateway, [])"
    unfolding example_packet_def by (rule handlePacket_serialized) (simp_all add: reading_of_ok reading_of_header)
  ultimately have "sys_step example_address loopback_sendto (\<lambda>net. net) (\<lambda>k. 3) s
      (s\<lparr>sy_wd := (sy_wd s)\<lparr>gw := updateSensorInfo 1000 ?m init_Gateway\<rparr>\<rparr>)"
    using s(2,3) sys_step.deliver [where a = "0x7F000001" and p = example_packet and wire = "\<lambda>net. net" and s = s
      and g = "updateSensorInfo 1000 ?m init_Gateway" and logs = "[]"]
    by (simp add: init_wd_def)
  from sys_reachable.move [OF s(1) this] show ?thesis
    by (intro exI conjI) (assumption, simp add: sensors_updateSensorInfo reading_of_header init_Gateway_def
        any_getId_def getId_def truncate_eq new_MotionSensor_def)
qed

theorem system_list_genuine_witness:
  "\<exists>g rows. response_of (quiet g [1] 2000) ''list'' = list_header @ concat (map snd rows) @ nl @ nl @ nl \<and>
     map fst rows = [1 :: u32] \<and> response_of (quiet g [1] 2000) ''get 8'' = ''sensor not found'' @ nl @ nl"
proof -
  obtain s where s: "sys_reachable example_address loopback_sendto (\<lambda>net. net) (\<lambda>k. 3) s"
    and reg: "sensors (gw (sy_wd s)) = [1 \<mapsto> default_SensorInfo
       \<lparr>lastTelemetry := reading_of zero_double 1000 (IsMotion (new_MotionSensor 1)), lastTelemetryReceivedTime := 1000\<rparr>]"
    using example_deliver_reachable by blast
  let ?v = "quiet (gw (sy_wd s)) [1] 2000"
  have "snapshot_ok (?v 0)" by (simp add: quiet_def snapshot_ok_def reg iterates_def)
  moreover have "sn_gateway (?v k) = gw (sy_wd s)" for k by (simp add: quiet_def)
  ultimately obtain rows where "response_of ?v (''list'' @ []) = list_header @ concat (map snd rows) @ nl @ nl @ nl"
    "map fst rows = sorted_list_of_set (dom (sensors (gw (sy_wd s))))"
    and none: "\<forall>n. 7 < n \<and> n < 2 ^ 31 \<longrightarrow> response_of ?v (''get '' @ dec_string n @ []) = ''sensor not found'' @ nl @ nl"
    using system_list_genuine [OF loopback.os_sendto_axioms s, of ?v "[]"] by (simp only: list.pred_inject) blast
  moreover have "''get '' @ dec_string 8 @ [] = ''get 8''" by (simp add: dec_string.simps digit_char_def)
  with none [rule_format, of 8] have "response_of ?v ''get 8'' = ''sensor not found'' @ nl @ nl" by simp
  ultimately show ?thesis by (intro exI [of _ "gw (sy_wd s)"] exI [of _ rows]) (simp add: reg)
qed

section \<open>Reports between two critical sections\<close>

text \<open>
  C40: the health summary may contradict itself.  It copies the registry for its lines first and counts
  a second copy; when the receiver handles a heartbeat of an offline sensor in between, the report
  lists that sensor, and one sensor more than the OFFLINE figure it prints above the lines.
\<close>

theorem health_report_torn:
  assumes "iterates order (sensors g)" "sensors g sid = Some info" "health info = OFFLINE"
    and "HeartbeatMessage_ok h" "hb_header h = \<lparr>ph_type = HEARTBEAT, ph_sensorId = sid, ph_timestamp_ms = t0\<rparr>"
    and "handlePacket t (serialize_heartbeat h) g = Inr (g', logs)"
    and "v 0 = \<lparr>sn_gateway = g, sn_order = order, sn_now = t\<rparr>" "v 1 = \<lparr>sn_gateway = g', sn_order = order, sn_now = t'\<rparr>"
    and "list_all is_line_end eol"
  shows "\<exists>pre mid ids figure. response_of v (''health'' @ eol) =
      pre @ ''OFFLINE : '' @ show_word (figure :: u64) @ nl @ mid @ ''Offline sensors:'' @ nl @
      concat (map (\<lambda>sid. offline_row sid (the (sensors g sid))) ids) @ nl @ nl @ nl \<and>
    distinct ids \<and> sid \<in> set ids \<and> length ids = Suc (unat figure)"
proof -
  let ?off = "\<lambda>g. with_health OFFLINE (sensors g)"
  have g': "g' = handleHeartbeat t h g"
    using assms(4,5,6) handlePacket_serialized(2) [of h t g] by simp
  have reg: "view_sensors v 0 = sensors g" "view_sensors (\<lambda>k. v (Suc k)) 0 = sensors g'"
    using assms(7,8) by (simp_all add: view_sensors_def getSensors_def)
  have it: "iterates order (sensors g')"
    using assms(1,2,5) by (auto simp: g' sensors_handleHeartbeat iterates_def)
  have ok: "snapshot_ok (v 0)" "snapshot_ok (v (Suc 0))"
    using assms(1,7,8) it by (simp_all add: snapshot_ok_def)
  have "?off g = insert sid (?off g')" "sid \<notin> ?off g'"
    using assms(2,3,5) by (auto simp: with_health_def g' sensors_handleHeartbeat split: if_splits)
  moreover have "finite (?off g')"
    using iterates_finite [OF it] by (rule rev_finite_subset) (auto simp: with_health_def)
  ultimately have card: "card (?off g) = Suc (card (?off g'))" by simp
  obtain pre mid ids where "distinct ids" "set ids = ?off g" and report: "healthSummary v =
      pre @ ''OFFLINE : '' @ show_word (hc_offline (countHealthSensors (\<lambda>k. v (Suc k)))) @ nl @ mid @ ''Offline sensors:'' @ nl @
      concat (map (\<lambda>sid. offline_row sid (the (sensors g sid))) ids) @ nl @ nl @ nl"
    using healthSummary_rows [of v] ok(1) by (auto simp: reg)
  moreover have "unat (hc_offline (countHealthSensors (\<lambda>k. v (Suc k)))) = card (?off g')"
    using countHealthSensors_counts(2) [of "\<lambda>k. v (Suc k)"] ok(2) by (simp add: reg)
  moreover have "sid \<in> ?off g" using assms(2,3) by (simp add: with_health_def)
  moreover have "length ids = card (?off g)" using \<open>distinct ids\<close> \<open>set ids = ?off g\<close> by (metis distinct_card)
  ultimately have "distinct ids \<and> sid \<in> set ids \<and> length ids = Suc (unat (hc_offline (countHealthSensors (\<lambda>k. v (Suc k)))))"
    using card by simp
  with report show ?thesis unfolding response_commands(2) [OF assms(9)] by blast
qed

definition silent_gateway :: Gateway where
  "silent_gateway = init_Gateway\<lparr>sensors := [42 \<mapsto> default_SensorInfo\<lparr>lastHeartbeatReceivedTime := 1000, health := OFFLINE\<rparr>]\<rparr>"

definition torn_view :: view where
  "torn_view k =
     \<lparr>sn_gateway = (if k = 0 then silent_gateway else handleHeartbeat 20000 example_heartbeat silent_gateway),
      sn_order = [42], sn_now = 20000\<rparr>"

theorem health_report_torn_witness:
  "\<exists>pre mid ids figure. response_of torn_view ''health'' =
      pre @ ''OFFLINE : '' @ show_word (figure :: u64) @ nl @ mid @ ''Offline sensors:'' @ nl @
      concat (map (\<lambda>sid. offline_row sid (the (sensors silent_gateway sid))) ids) @ nl @ nl @ nl \<and>
    distinct ids \<and> 42 \<in> set ids \<and> length ids = Suc (unat figure)"
proof -
  let ?info = "default_SensorInfo\<lparr>lastHeartbeatReceivedTime := 1000, health := OFFLINE\<rparr>"
  have reg: "iterates [42] (sensors silent_gateway)" "sensors silent_gateway 42 = Some ?info" "health ?info = OFFLINE"
    by (simp_all add: silent_gateway_def iterates_def)
  have beat: "HeartbeatMessage_ok example_heartbeat"
    "hb_header example_heartbeat = \<lparr>ph_type = HEARTBEAT, ph_sensorId = 42, ph_timestamp_ms = 123456789\<rparr>"
    by (simp_all add: example_heartbeat_def HeartbeatMessage_ok_def PacketHeader_ok_def)
  have handled: "handlePacket 20000 (serialize_heartbeat example_heartbeat) silent_gateway =
      Inr (handleHeartbeat 20000 example_heartbeat silent_gateway, [])"
    by (rule handlePacket_serialized) (simp_all add: beat(2))
  have "torn_view 0 = \<lparr>sn_gateway = silent_gateway, sn_order = [42], sn_now = 20000\<rparr>"
    "torn_view 1 = \<lparr>sn_gateway = handleHeartbeat 20000 example_heartbeat silent_gateway, sn_order = [42], sn_now = 20000\<rparr>"
    "list_all is_line_end []"
    by (simp_all add: torn_view_def)
  from health_report_torn [OF reg beat handled this] show ?thesis by (simp only: append_Nil2)
qed

end
