(* ===== verification/ConcurrentReports.thy ===== *)
theory ConcurrentReports
  imports EndToEnd
begin

text \<open>
  Reports while the system runs.  \<^verbatim>\<open>Monitor\<close> takes the gateway's mutex once per copy or
  figure, so a report sees the system at successive instants, between which nodes, network, receiver
  and watchdog make any number of steps.  What such a report may say follows from the order in which
  the registry can only grow: sensors never vanish and their receive times never go back.
\<close>

section \<open>Systems that move in one direction\<close>

text \<open>
  A step relation with an invariant and a preorder that every step from a state of the invariant
  respects; runs and sequences of runs then respect them too.
\<close>

locale monotone_steps =
  fixes step :: "'s \<Rightarrow> 's \<Rightarrow> bool"
    and inv :: "'s \<Rightarrow> bool"
    and le :: "'s \<Rightarrow> 's \<Rightarrow> bool"
  assumes step_inv: "step s s' \<Longrightarrow> inv s \<Longrightarrow> inv s'"
    and step_le: "step s s' \<Longrightarrow> inv s \<Longrightarrow> le s s'"
    and le_refl: "le s s"
    and le_trans: "le s s' \<Longrightarrow> le s' s'' \<Longrightarrow> le s s''"
begin

lemma run_inv_le: "step\<^sup>*\<^sup>* s s' \<Longrightarrow> inv s \<Longrightarrow> inv s' \<and> le s s'"
  by (induction rule: rtranclp_induct) (auto intro: le_refl le_trans step_inv step_le)

lemma sequence_inv: "\<forall>k. step\<^sup>*\<^sup>* (st k) (st (Suc k)) \<Longrightarrow> inv (st 0) \<Longrightarrow> inv (st k)"
  by (induction k) (use run_inv_le in blast)+

lemma sequence_le:
  assumes "\<forall>k. step\<^sup>*\<^sup>* (st k) (st (Suc k))" "inv (st 0)" "i \<le> j"
  shows "le (st i) (st j)"
  using assms(3)
proof (induction rule: dec_induct)
  case (step n)
  have "le (st n) (st (Suc n))" using run_inv_le assms(1) sequence_inv [OF assms(1,2)] by blast
  with step.IH show ?case by (rule le_trans)
qed (rule le_refl)

end

section \<open>The registry only grows\<close>

definition entry_grown :: "SensorInfo \<Rightarrow> SensorInfo \<Rightarrow> bool" where
  "entry_grown info info' \<longleftrightarrow>
     lastHeartbeatReceivedTime info \<le> lastHeartbeatReceivedTime info' \<and>
     lastTelemetryReceivedTime info \<le> lastTelemetryReceivedTime info'"

definition grown :: "wd_state \<Rightarrow> wd_state \<Rightarrow> bool" where
  "grown s s' \<longleftrightarrow>
     clock s \<le> clock s' \<and>
     (\<forall>sid info. sensors (gw s) sid = Some info \<longrightarrow>
        (\<exists>info'. sensors (gw s') sid = Some info' \<and> entry_grown info info'))"

lemma entry_grown_refl [simp]: "entry_grown info info"
  by (simp add: entry_grown_def)

lemma entry_grown_trans: "entry_grown a b \<Longrightarrow> entry_grown b c \<Longrightarrow> entry_grown a c"
  by (auto simp: entry_grown_def intro: order_trans)

lemma grownD: "grown s s' \<Longrightarrow> sensors (gw s) sid = Some info \<Longrightarrow>
    \<exists>info'. sensors (gw s') sid = Some info' \<and> entry_grown info info'"
  by (simp add: grown_def)

lemma grown_dom: "grown s s' \<Longrightarrow> dom (sensors (gw s)) \<subseteq> dom (sensors (gw s'))"
  by (auto simp: grown_def)

text \<open>
  An update of one entry respects the order when it does not take the times of that entry back.
\<close>

lemma grown_update:
  assumes "\<And>info. sensors (gw s) sid = Some info \<Longrightarrow> entry_grown info new"
    and "sensors g = (sensors (gw s))(sid \<mapsto> new)"
  shows "grown s (s\<lparr>gw := g\<rparr>)"
  using assms by (auto simp: grown_def)

lemma grown_packet:
  assumes "wd_inv s" "handlePacket (clock s) p (gw s) = Inr (g, logs)"
  shows "grown s (s\<lparr>gw := g\<rparr>)"
proof -
  have times: "lastHeartbeatReceivedTime info \<le> clock s \<and> lastTelemetryReceivedTime info \<le> clock s"
    if "sensors (gw s) sid = Some info" for sid info
    using assms(1) that by (simp add: wd_inv_def entry_inv_def)
  show ?thesis
  proof (cases rule: handlePacket_cases [of p "clock s" "gw s"])
    case (telemetry m)
    with assms(2) have "g = updateSensorInfo (clock s) m (gw s)" by simp
    then show ?thesis
      using times by (intro grown_update [OF _ trans [OF _ sensors_updateSensorInfo]]) (auto simp: entry_grown_def)
  next
    case (heartbeat h)
    with assms(2) have "g = handleHeartbeat (clock s) h (gw s)" by simp
    then show ?thesis
      using times by (intro grown_update [OF _ trans [OF _ sensors_handleHeartbeat]]) (auto simp: entry_grown_def)
  qed (use assms(2) in \<open>auto simp: grown_def\<close>)
qed

lemma grown_scan:
  assumes "iterates ids (sensors (gw s))"
  shows "grown s (s\<lparr>gw := fst (detectOfflineSensors t ids (gw s)), reading := r\<rparr>)"
proof -
  have "entry_grown info (scan_entry t info)" for info by (simp add: entry_grown_def scan_entry_def)
  then show ?thesis by (simp add: grown_def detectOfflineSensors_eq [OF assms])
qed

interpretation wd_order: monotone_steps wd_step wd_inv grown
proof
  show "wd_inv s'" if "wd_step s s'" "wd_inv s" for s s' using wd_step_inv that .
  show "grown s s'" if "wd_step s s'" "wd_inv s" for s s'
    using that
    by (induction rule: wd_step.induct) (auto intro: grown_packet grown_scan, auto simp: grown_def)
  show "grown s s" for s by (simp add: grown_def)
  show "grown s s''" if "grown s s'" "grown s' s''" for s s' s''
    using that unfolding grown_def by (meson entry_grown_trans order_trans)
qed

section \<open>The whole system\<close>

definition sys_grown :: "('n \<Rightarrow> (dest \<times> bytes) list) \<Rightarrow> 'n sys \<Rightarrow> 'n sys \<Rightarrow> bool" where
  "sys_grown wire s s' \<longleftrightarrow>
     grown (sy_wd s) (sy_wd s') \<and> prefix (wire (sy_net s)) (wire (sy_net s'))"

definition sys_ok :: "('n \<Rightarrow> (dest \<times> bytes) list) \<Rightarrow> 'n sys \<Rightarrow> bool" where
  "sys_ok wire s \<longleftrightarrow> sys_inv wire s \<and> wd_inv (sy_wd s)"

lemma sys_step_wire:
  assumes "os_sendto sendto wire"
  shows "sys_step inet_pton sendto wire fds s s' \<Longrightarrow> prefix (wire (sy_net s)) (wire (sy_net s'))"
proof (induction rule: sys_step.induct)
  case (node_tick k s draw m nd net)
  then show ?case using tick_wire(2) [OF assms] by fastforce
next
  case (node_heartbeat k s u net)
  then show ?case using os_sendto.udp_send_returns [OF assms] by (fastforce simp: sendHeartbeat_eq)
qed simp_all

sublocale os_sendto \<subseteq> system: monotone_steps "sys_step inet_pton sendto wire fds" "sys_ok wire" "sys_grown wire"
  for inet_pton fds
proof
  fix s s' s'' :: "'n sys"
  show "sys_ok wire s'" if "sys_step inet_pton sendto wire fds s s'" "sys_ok wire s"
    using that sys_step_inv [OF os_sendto_axioms] sys_step_wd wd_step_inv unfolding sys_ok_def by metis
  show "sys_grown wire s s'" if "sys_step inet_pton sendto wire fds s s'" "sys_ok wire s"
    using that sys_step_wd sys_step_wire [OF os_sendto_axioms] wd_order.step_le wd_order.le_refl
    unfolding sys_ok_def sys_grown_def by metis
  show "sys_grown wire s s" by (simp add: sys_grown_def wd_order.le_refl)
  show "sys_grown wire s s''" if "sys_grown wire s s'" "sys_grown wire s' s''"
    using that wd_order.le_trans unfolding sys_grown_def by (meson prefix_order.order_trans)
qed

context os_sendto begin

lemmas run_ok = system.sequence_inv and run_grown = system.sequence_le

end

lemma sys_reachable_ok:
  assumes "os_sendto sendto wire" "sys_reachable inet_pton sendto wire fds s"
  shows "sys_ok wire s"
  using sys_reachable_inv [OF assms] sys_reachable_wd [OF assms(2)] wd_reachable_inv
  by (auto simp: sys_ok_def)

section \<open>Reports over a run\<close>

text \<open>
  A run as a report samples it: \<open>st k\<close> is the system, and \<open>order k\<close> the order in which a copy of
  the registry is visited, at its \<open>k\<close>-th critical section.
\<close>

definition sampled :: "(nat \<Rightarrow> 'n sys) \<Rightarrow> (nat \<Rightarrow> u32 list) \<Rightarrow> view" where
  "sampled st order k = \<lparr>sn_gateway = gw (sy_wd (st k)), sn_order = order k, sn_now = clock (sy_wd (st k))\<rparr>"

definition sampling ::
  "(string \<Rightarrow> u32 option) \<Rightarrow> 'n sendto \<Rightarrow> ('n \<Rightarrow> (dest \<times> bytes) list) \<Rightarrow> (nat \<Rightarrow> int) \<Rightarrow>
   (nat \<Rightarrow> 'n sys) \<Rightarrow> (nat \<Rightarrow> u32 list) \<Rightarrow> bool" where
  "sampling inet_pton sendto wire fds st order \<longleftrightarrow>
     sys_reachable inet_pton sendto wire fds (st 0) \<and>
     (\<forall>k. (sys_step inet_pton sendto wire fds)\<^sup>*\<^sup>* (st k) (st (Suc k))) \<and>
     (\<forall>k. iterates (order k) (sensors (gw (sy_wd (st k)))))"

lemma view_sampled [simp]:
  "view_sensors (sampled st order) k = sensors (gw (sy_wd (st k)))"
  "sn_gateway (sampled st order k) = gw (sy_wd (st k))"
  "view_seconds (sampled st order) k sid = getSecondsSinceLastHeartbeat (clock (sy_wd (st k))) sid (gw (sy_wd (st k)))"
  by (simp_all add: sampled_def view_sensors_def view_seconds_def getSensors_def)

lemma sampling_snapshot_ok: "sampling inet_pton sendto wire fds st order \<Longrightarrow> snapshot_ok (sampled st order k)"
  by (simp add: sampling_def snapshot_ok_def sampled_def)

lemma sampling_facts:
  assumes "os_sendto sendto wire" "sampling inet_pton sendto wire fds st order"
  shows "sys_ok wire (st k)"
    and "i \<le> j \<Longrightarrow> grown (sy_wd (st i)) (sy_wd (st j))"
    and "finite (dom (sensors (gw (sy_wd (st k)))))"
    and "dom (sensors (gw (sy_wd (st k)))) \<subseteq> {1, 2, 3, 4, 5, 6, 7}"
proof -
  have run: "\<forall>k. (sys_step inet_pton sendto wire fds)\<^sup>*\<^sup>* (st k) (st (Suc k))" and ok: "sys_ok wire (st 0)"
    using assms sys_reachable_ok by (auto simp: sampling_def)
  show ok_k: "sys_ok wire (st k)" using os_sendto.run_ok [OF assms(1) run ok] .
  show "grown (sy_wd (st i)) (sy_wd (st j))" if "i \<le> j"
    using os_sendto.run_grown [OF assms(1) run ok that] by (simp add: sys_grown_def)
  show "finite (dom (sensors (gw (sy_wd (st k)))))" using ok_k by (simp add: sys_ok_def wd_inv_def)
  show "dom (sensors (gw (sy_wd (st k)))) \<subseteq> {1, 2, 3, 4, 5, 6, 7}"
    using ok_k by (auto simp: sys_ok_def sys_inv_def entry_from_def roster_ids)
qed

text \<open>
  A run to sample: the first node sends its heartbeat at 1000 ms, the receiver handles it, and the
  clock reaches 5000 ms.
\<close>

definition example_beat :: HeartbeatMessage where
  "example_beat = beat_of 1000 (IsMotion (new_MotionSensor 1))"

definition beat_sent :: "(dest \<times> bytes) list sys" where
  "beat_sent = (init_sys [] 1000)\<lparr>sy_net := [((0x7F000001, 9000), serialize_heartbeat example_beat)]\<rparr>"

definition beat_handled :: "(dest \<times> bytes) list sys" where
  "beat_handled = beat_sent\<lparr>sy_wd := (init_wd 1000)\<lparr>gw := handleHeartbeat 1000 example_beat init_Gateway\<rparr>\<rparr>"

definition beat_old :: "(dest \<times> bytes) list sys" where
  "beat_old = beat_handled\<lparr>sy_wd := (sy_wd beat_handled)\<lparr>clock := 5000\<rparr>\<rparr>"

abbreviation example_step :: "(dest \<times> bytes) list sys \<Rightarrow> (dest \<times> bytes) list sys \<Rightarrow> bool" where
  "example_step \<equiv> sys_step example_address loopback_sendto (\<lambda>net. net) (\<lambda>k. 3)"

lemma example_beat_header [simp]:
  "hb_header example_beat = \<lparr>ph_type = HEARTBEAT, ph_sensorId = 1, ph_timestamp_ms = 1000\<rparr>"
  by (simp add: example_beat_def beat_of_def any_getId_def getId_def truncate_eq new_MotionSensor_def)

lemma beat_registry:
  "sensors (gw (sy_wd beat_sent)) = Map.empty"
  "sensors (gw (sy_wd beat_handled)) = [1 \<mapsto> default_SensorInfo\<lparr>lastHeartbeatReceivedTime := 1000, health := ONLINE\<rparr>]"
  "sensors (gw (sy_wd beat_old)) = [1 \<mapsto> default_SensorInfo\<lparr>lastHeartbeatReceivedTime := 1000, health := ONLINE\<rparr>]"
  by (simp_all add: beat_sent_def beat_handled_def beat_old_def init_sys_def init_wd_def init_Gateway_def
      sensors_handleHeartbeat)

lemma beat_sent_reachable: "sys_reachable example_address loopback_sendto (\<lambda>net. net) (\<lambda>k. 3) beat_sent"
proof -
  have "sendHeartbeat (UdpSender_send example_address loopback_sendto (system_sender 3)) 1000 (system_nodes ! 0) [] =
      (Inr (), sy_net beat_sent)"
    by (simp add: sendHeartbeat_eq UdpSender_send_def loopback_sendto_def system_sender_def example_address_def
        system_nodes_def system_sensors_def new_SensorNode_def example_beat_def beat_sent_def Let_def)
  then have "example_step (init_sys [] 1000) beat_sent"
    using node_heartbeat [of 0 "init_sys [] 1000" example_address loopback_sendto "\<lambda>k. 3" "()" "sy_net beat_sent" "\<lambda>net. net"]
    by (simp add: init_sys_def init_wd_def length_system_nodes beat_sent_def)
  then show ?thesis using sys_reachable.boot sys_reachable.move by fastforce
qed

lemma beat_steps: "example_step beat_sent beat_handled" "example_step beat_handled beat_old"
proof -
  have "take MAX_PACKET_SIZE (serialize_heartbeat example_beat) = serialize_heartbeat example_beat"
    by (simp add: MAX_PACKET_SIZE_def serialize_heartbeat_header c_header.enc_length)
  moreover have "handlePacket 1000 (serialize_heartbeat example_beat) init_Gateway =
      Inr (handleHeartbeat 1000 example_beat init_Gateway, [])"
    by (rule handlePacket_serialized) (simp_all add: HeartbeatMessage_ok_def PacketHeader_ok_def)
  ultimately show "example_step beat_sent beat_handled"
    using sys_step.deliver [where a = "0x7F000001" and p = "serialize_heartbeat example_beat" and wire = "\<lambda>net. net"
      and s = beat_sent and g = "handleHeartbeat 1000 example_beat init_Gateway" and logs = "[]"]
    by (simp add: beat_sent_def beat_handled_def init_sys_def init_wd_def)
  show "example_step beat_handled beat_old"
    unfolding beat_old_def by (rule sys_step.time_advances) (simp add: beat_handled_def init_wd_def)
qed

lemma sampling_two:
  assumes "sys_reachable example_address loopback_sendto (\<lambda>net. net) (\<lambda>k. 3) s" "example_step s s'"
    and "iterates ids (sensors (gw (sy_wd s)))" "iterates ids' (sensors (gw (sy_wd s')))"
  shows "sampling example_address loopback_sendto (\<lambda>net. net) (\<lambda>k. 3)
    (\<lambda>k. if k = 0 then s else s') (\<lambda>k. if k = 0 then ids else ids')"
  using assms by (simp add: sampling_def r_into_rtranclp)

text \<open>
  C20: the statistics stay consistent while the system runs.  The report copies the registry for its
  total, counts a second copy and reads the two counters after that, with nodes, network, receiver and
  watchdog running in between; yet its text is determined by those four instants: the total is the
  number of sensors registered at the first, the figures online and offline are those of the second,
  the packet counts those of the third and fourth.  The total is never more than what is online,
  offline or still without a heartbeat at the second copy, and that is never more than the seven
  sensors of the program, so neither is any of the three figures.
\<close>

theorem concurrent_stats:
  assumes "os_sendto sendto wire" "sampling inet_pton sendto wire fds st order" "list_all is_line_end eol"
  shows "\<exists>total on off. response_of (sampled st order) (''stats'' @ eol) =
      nl @ ''=== SYSTEM STATISTICS ==='' @ nl @ nl @
      ''Total sensors      : '' @ show_word (total :: u64) @ nl @
      ''Telemetry packets  : '' @ show_word (telemetryPacketsReceived (gw (sy_wd (st 2)))) @ nl @
      ''Heartbeat messages : '' @ show_word (heartbeatPacketsReceived (gw (sy_wd (st 3)))) @ nl @
      ''Online sensors     : '' @ show_word (on :: u64) @ nl @
      ''Offline sensors    : '' @ show_word (off :: u64) @ nl @ nl @ nl \<and>
    unat total = card (dom (sensors (gw (sy_wd (st 0))))) \<and>
    unat on = card (with_health ONLINE (sensors (gw (sy_wd (st 1))))) \<and>
    unat off = card (with_health OFFLINE (sensors (gw (sy_wd (st 1))))) \<and>
    unat total \<le> unat on + unat off + card (with_health UNKNOWN (sensors (gw (sy_wd (st 1))))) \<and>
    unat on + unat off + card (with_health UNKNOWN (sensors (gw (sy_wd (st 1))))) \<le> 7"
proof -
  let ?reg = "\<lambda>k. sensors (gw (sy_wd (st k)))" and ?v = "sampled st order"
  let ?counts = "countHealthSensors (\<lambda>k. ?v (Suc k))"
  note facts = sampling_facts [OF assms(1,2)]
  have counts: "unat (hc_online ?counts) = card (with_health ONLINE (?reg 1))"
    "unat (hc_offline ?counts) = card (with_health OFFLINE (?reg 1))"
    using countHealthSensors_counts [of "\<lambda>k. ?v (Suc k)"] sampling_snapshot_ok [OF assms(2)]
    by (simp_all add: view_sensors_def getSensors_def)
  have total: "unat (map_size (?v 0)) = card (dom (?reg 0))"
    using map_size_card [OF sampling_snapshot_ok [OF assms(2)]] by simp
  have grew: "card (dom (?reg 0)) \<le> card (dom (?reg 1))"
    using facts(2) [of 0 1] facts(3) by (intro card_mono grown_dom) simp_all
  have seven: "card (dom (?reg 1)) \<le> 7"
    using card_mono [OF _ facts(4) [of 1]] by simp
  note report = trans [OF response_commands(3) [OF assms(3)] stats_def [unfolded Let_def]]
  show ?thesis
  proof (intro exI conjI)
    show "response_of ?v (''stats'' @ eol) =
        nl @ ''=== SYSTEM STATISTICS ==='' @ nl @ nl @
        ''Total sensors      : '' @ show_word (map_size (?v 0)) @ nl @
        ''Telemetry packets  : '' @ show_word (telemetryPacketsReceived (gw (sy_wd (st 2)))) @ nl @
        ''Heartbeat messages : '' @ show_word (heartbeatPacketsReceived (gw (sy_wd (st 3)))) @ nl @
        ''Online sensors     : '' @ show_word (hc_online ?counts) @ nl @
        ''Offline sensors    : '' @ show_word (hc_offline ?counts) @ nl @ nl @ nl"
      unfolding report
      by (simp add: getStats_def Let_def getTelemetryPacketsReceived_def getHeartbeatPacketsReceived_def)
    show "unat (map_size (?v 0)) \<le> unat (hc_online ?counts) + unat (hc_offline ?counts) + card (with_health UNKNOWN (?reg 1))"
      "unat (hc_online ?counts) + unat (hc_offline ?counts) + card (with_health UNKNOWN (?reg 1)) \<le> 7"
      using health_partition [OF facts(3) [of 1]] total counts grew seven by simp_all
  qed (rule total counts)+
qed

theorem concurrent_stats_witness:
  "response_of (sampled (\<lambda>k. if k = 0 then beat_sent else beat_handled) (\<lambda>k. if k = 0 then [] else [1])) ''stats'' =
      nl @ ''=== SYSTEM STATISTICS ==='' @ nl @ nl @
      ''Total sensors      : '' @ show_word (0 :: u64) @ nl @
      ''Telemetry packets  : '' @ show_word (0 :: u64) @ nl @
      ''Heartbeat messages : '' @ show_word (1 :: u64) @ nl @
      ''Online sensors     : '' @ show_word (1 :: u64) @ nl @
      ''Offline sensors    : '' @ show_word (0 :: u64) @ nl @ nl @ nl"
proof -
  let ?reg = "sensors (gw (sy_wd beat_handled))"
  have "with_health ONLINE ?reg = {1}" "with_health OFFLINE ?reg = {}"
    by (auto simp: with_health_def beat_registry)
  then have cards: "card (with_health ONLINE ?reg) = 1" "card (with_health OFFLINE ?reg) = 0" by simp_all
  have counters: "telemetryPacketsReceived (gw (sy_wd beat_handled)) = 0" "heartbeatPacketsReceived (gw (sy_wd beat_handled)) = 1"
    by (simp_all add: beat_handled_def init_wd_def init_Gateway_def)
  have "sampling example_address loopback_sendto (\<lambda>net. net) (\<lambda>k. 3)
      (\<lambda>k. if k = 0 then beat_sent else beat_handled) (\<lambda>k. if k = 0 then [] else [1])"
    by (rule sampling_two [OF beat_sent_reachable beat_steps(1)]) (simp_all add: beat_registry iterates_def)
  moreover have "list_all is_line_end []" by simp
  ultimately obtain total on off where
    report: "response_of (sampled (\<lambda>k. if k = 0 then beat_sent else beat_handled) (\<lambda>k. if k = 0 then [] else [1])) ''stats'' =
      nl @ ''=== SYSTEM STATISTICS ==='' @ nl @ nl @
      ''Total sensors      : '' @ show_word (total :: u64) @ nl @
      ''Telemetry packets  : '' @ show_word (0 :: u64) @ nl @
      ''Heartbeat messages : '' @ show_word (1 :: u64) @ nl @
      ''Online sensors     : '' @ show_word (on :: u64) @ nl @
      ''Offline sensors    : '' @ show_word (off :: u64) @ nl @ nl @ nl"
    and "unat total = 0" "unat on = 1" "unat off = 0"
    using concurrent_stats [OF loopback.os_sendto_axioms, where eol = "[]"]
    by (force simp only: simp_thms append_Nil2 if_True if_False one_neq_zero zero_neq_numeral numeral_neq_zero
        beat_registry(1) dom_empty card.empty cards counters)
  then have "total = 0" "on = 1" "off = 0" by (simp_all add: word_unat_eq_iff)
  with report show ?thesis by (simp only:)
qed

text \<open>
  C21: the list stays truthful while the system runs.  Its sensors and their columns come from one
  copy of the registry, the age of each row from a later critical section of its own; yet it never
  throws, and row \<open>i\<close>, of the \<open>i\<close>-th registered identifier in ascending order, shows exactly
  the whole seconds since the heartbeat that is current when it is printed, without wrap-around, and
  that heartbeat is not older than the one of the copy.
\<close>

theorem concurrent_list:
  assumes "os_sendto sendto wire" "sampling inet_pton sendto wire fds st order" "list_all is_line_end eol"
  shows "\<exists>rows. response_of (sampled st order) (''list'' @ eol) = list_header @ concat rows @ nl @ nl @ nl \<and>
    length rows = card (dom (sensors (gw (sy_wd (st 0))))) \<and>
    (\<forall>i<length rows. \<exists>sid copied current age.
       sid = sorted_list_of_set (dom (sensors (gw (sy_wd (st 0))))) ! i \<and>
       sensors (gw (sy_wd (st 0))) sid = Some copied \<and>
       sensors (gw (sy_wd (st (Suc i)))) sid = Some current \<and>
       lastHeartbeatReceivedTime copied \<le> lastHeartbeatReceivedTime current \<and>
       rows ! i = list_row sid copied age \<and>
       unat age = (if lastHeartbeatReceivedTime current = 0 then 0
         else (unat (clock (sy_wd (st (Suc i)))) - unat (lastHeartbeatReceivedTime current)) div 1000))"
proof (intro exI [of _ "map snd (list_rows (sampled st order))"] conjI allI impI)
  let ?reg = "\<lambda>k. sensors (gw (sy_wd (st k)))" and ?v = "sampled st order"
  let ?ids = "sorted_list_of_set (dom (?reg 0))"
  note facts = sampling_facts [OF assms(1,2)]
  show "response_of ?v (''list'' @ eol) = list_header @ concat (map snd (list_rows ?v)) @ nl @ nl @ nl"
    using response_commands(4) [OF assms(3)] sensorList_rows sampling_snapshot_ok [OF assms(2)] by blast
  show len: "length (map snd (list_rows ?v)) = card (dom (?reg 0))"
    by (simp add: list_rows_def)
  fix i
  assume "i < length (map snd (list_rows ?v))"
  then have i: "i < length ?ids" using len by simp
  then have "?ids ! i \<in> dom (?reg 0)" using nth_mem [OF i] by (simp only: set_sorted_list_of_set [OF facts(3) [of 0]])
  then obtain copied where copied: "?reg 0 (?ids ! i) = Some copied" by blast
  then obtain current where current: "?reg (Suc i) (?ids ! i) = Some current" "entry_grown copied current"
    using grownD [OF facts(2) [of 0 "Suc i"]] by blast
  define age where "age = getSecondsSinceLastHeartbeat (clock (sy_wd (st (Suc i)))) (?ids ! i) (gw (sy_wd (st (Suc i))))"
  have "lastHeartbeatReceivedTime current \<le> clock (sy_wd (st (Suc i)))"
    using facts(1) [of "Suc i"] current(1) by (auto simp: sys_ok_def wd_inv_def entry_inv_def)
  then have "unat age = (if lastHeartbeatReceivedTime current = 0 then 0
      else (unat (clock (sy_wd (st (Suc i)))) - unat (lastHeartbeatReceivedTime current)) div 1000)"
    using current(1) by (simp add: age_def getSecondsSinceLastHeartbeat_def unat_div_distrib unat_sub)
  moreover have "map snd (list_rows ?v) ! i = list_row (?ids ! i) copied age"
    using i copied by (simp add: age_def list_rows_def nth_enumerate_eq)
  moreover have "lastHeartbeatReceivedTime copied \<le> lastHeartbeatReceivedTime current"
    using current(2) by (simp add: entry_grown_def)
  ultimately show "\<exists>sid copied current age. sid = ?ids ! i \<and> ?reg 0 sid = Some copied \<and>
      ?reg (Suc i) sid = Some current \<and>
      lastHeartbeatReceivedTime copied \<le> lastHeartbeatReceivedTime current \<and>
      map snd (list_rows ?v) ! i = list_row sid copied age \<and>
      unat age = (if lastHeartbeatReceivedTime current = 0 then 0
        else (unat (clock (sy_wd (st (Suc i)))) - unat (lastHeartbeatReceivedTime current)) div 1000)"
    using copied current(1) by blast
qed

theorem concurrent_list_witness:
  "response_of (sampled (\<lambda>k. if k = 0 then beat_handled else beat_old) (\<lambda>k. [1])) ''list'' =
     list_header @ list_row 1 (default_SensorInfo\<lparr>lastHeartbeatReceivedTime := 1000, health := ONLINE\<rparr>) 4 @ nl @ nl @ nl"
proof -
  let ?v = "sampled (\<lambda>k. if k = 0 then beat_handled else beat_old) (\<lambda>k. [1])"
  let ?info = "default_SensorInfo\<lparr>lastHeartbeatReceivedTime := 1000, health := ONLINE\<rparr>"
  have clock: "sy_wd beat_old = (sy_wd beat_handled)\<lparr>clock := 5000\<rparr>" by (simp add: beat_old_def)
  have reach: "sys_reachable example_address loopback_sendto (\<lambda>net. net) (\<lambda>k. 3) beat_handled"
    using sys_reachable.move [OF beat_sent_reachable beat_steps(1)] .
  have "sampling example_address loopback_sendto (\<lambda>net. net) (\<lambda>k. 3)
      (\<lambda>k. if k = 0 then beat_handled else beat_old) (\<lambda>k. [1])"
    using sampling_two [OF reach beat_steps(2), of "[1]" "[1]"] by (simp add: beat_registry iterates_def)
  from concurrent_list [OF loopback.os_sendto_axioms this, of "[]"] obtain rows where
    report: "response_of ?v ''list'' = list_header @ concat rows @ nl @ nl @ nl" and len: "length rows = 1"
    and row: "\<forall>i<length rows. \<exists>age. rows ! i = list_row 1 ?info age \<and> unat age = 4"
    by (auto simp: beat_registry clock)
  from row len obtain age where "rows ! 0 = list_row 1 ?info age" "unat age = 4" by auto
  moreover from this(2) have "age = 4" by (simp add: word_unat_eq_iff)
  moreover have "rows = [rows ! 0]" using len by (cases rows) auto
  ultimately show ?thesis using report by (metis concat.simps append_Nil2)
qed

end
