(* ===== verification/SensorTests.thy ===== *)
theory SensorTests
  imports Sensors
begin

text \<open>
  The unit tests of the four sensor classes, \<^verbatim>\<open>src/tests/*SensorTests.cpp\<close>, as predicates on
  the random draws and the clock they run with: a test passes when all its assertions hold.  Double
  literals are written as the bits of their binary64 values, the literal in the name.
\<close>

section \<open>Assertions\<close>

definition deq :: "double \<Rightarrow> double \<Rightarrow> bool" where
  "deq a b \<longleftrightarrow> \<not> is_nan a \<and> \<not> is_nan b \<and> scaled a = scaled b"

definition d_1 :: double where "d_1 = Double 0x3FF0000000000000"
definition d_minus_20 :: double where "d_minus_20 = Double 0xC034000000000000"
definition d_70 :: double where "d_70 = Double 0x4051800000000000"
definition d_80 :: double where "d_80 = Double 0x4054000000000000"
definition d_120 :: double where "d_120 = Double 0x405E000000000000"
definition d_10 :: double where "d_10 = Double 0x4024000000000000"
definition d_30 :: double where "d_30 = Double 0x403E000000000000"
definition d_40 :: double where "d_40 = Double 0x4044000000000000"
definition d_95 :: double where "d_95 = Double 0x4057C00000000000"
definition d_98 :: double where "d_98 = Double 0x4058800000000000"
definition d_100 :: double where "d_100 = Double 0x4059000000000000"
definition d_104 :: double where "d_104 = Double 0x405A000000000000"
definition d_107 :: double where "d_107 = Double 0x405AC00000000000"

definition telemetry_fields_valid :: "u32 \<Rightarrow> SensorType \<Rightarrow> TelemetryMessage \<Rightarrow> bool" where
  "telemetry_fields_valid sid ty reading \<longleftrightarrow>
     ph_type (tm_header reading) = TELEMETRY \<and> ph_sensorId (tm_header reading) = sid \<and>
     tm_type reading = ty \<and> ph_timestamp_ms (tm_header reading) \<noteq> 0"

section \<open>Motion sensor\<close>

definition MotionSensor_ValueInRange :: "double \<Rightarrow> bool" where
  "MotionSensor_ValueInRange draw \<longleftrightarrow>
     (let (value, _) = collectData_Motion draw (new_MotionSensor 1)
      in dge value zero_double \<and> dle value d_1)"

definition MotionSensor_StateIsValid :: "double \<Rightarrow> u64 \<Rightarrow> bool" where
  "MotionSensor_StateIsValid draw t \<longleftrightarrow>
     (let (_, sensor) = collectData_Motion draw (new_MotionSensor 1);
          (reading, _) = createTelemetry t (getType_Motion sensor) sensor
      in tm_state reading = ACTIVE \<or> tm_state reading = WARNING)"

definition MotionSensor_TelemetryFieldsAreValid :: "double \<Rightarrow> u64 \<Rightarrow> bool" where
  "MotionSensor_TelemetryFieldsAreValid draw t \<longleftrightarrow>
     (let (_, sensor) = collectData_Motion draw (new_MotionSensor 42);
          (reading, _) = createTelemetry t (getType_Motion sensor) sensor
      in telemetry_fields_valid 42 Motion reading \<and>
         dge (tm_value reading) zero_double \<and> dle (tm_value reading) d_1)"

definition MotionSensor_ReturnsMotionType :: bool where
  "MotionSensor_ReturnsMotionType \<longleftrightarrow> getType_Motion (new_MotionSensor 1) = Motion"

fun motion_reads_in_range :: "double list \<Rightarrow> MotionSensor \<Rightarrow> bool" where
  "motion_reads_in_range [] sensor = True"
| "motion_reads_in_range (draw # draws) sensor =
     (let (value, sensor') = collectData_Motion draw sensor
      in dge value zero_double \<and> dle value d_1 \<and> motion_reads_in_range draws sensor')"

text \<open>The loop makes ten passes, one per draw.\<close>

definition MotionSensor_MultipleReadsProduceValidRange :: "(nat \<Rightarrow> double) \<Rightarrow> bool" where
  "MotionSensor_MultipleReadsProduceValidRange draws \<longleftrightarrow>
     motion_reads_in_range (map draws [0..<10]) (new_MotionSensor 1)"

section \<open>Temperature sensor\<close>

definition TemperatureSensor_GeneratedTemperatureIsReasonable :: "double \<Rightarrow> bool" where
  "TemperatureSensor_GeneratedTemperatureIsReasonable draw \<longleftrightarrow>
     (let (value, _) = collectData_Temperature draw (new_TemperatureSensor 1)
      in dgt value d_minus_20 \<and> dlt value d_70)"

definition TemperatureSensor_CreatesWithCorrectType :: bool where
  "TemperatureSensor_CreatesWithCorrectType \<longleftrightarrow> getType_Temperature (new_TemperatureSensor 1) = Temperature"

definition TemperatureSensor_CollectDataUpdatesValue :: "double \<Rightarrow> u64 \<Rightarrow> bool" where
  "TemperatureSensor_CollectDataUpdatesValue draw t \<longleftrightarrow>
     (let (value, sensor) = collectData_Temperature draw (new_TemperatureSensor 1);
          (reading, _) = createTelemetry t (getType_Temperature sensor) sensor
      in deq (tm_value reading) value)"

definition TemperatureSensor_UpdatesStateCorrectly :: "double \<Rightarrow> u64 \<Rightarrow> bool" where
  "TemperatureSensor_UpdatesStateCorrectly draw t \<longleftrightarrow>
     (let (temperature, sensor) = collectData_Temperature draw (new_TemperatureSensor 1);
          (reading, _) = createTelemetry t (getType_Temperature sensor) sensor
      in if dlt temperature d_30 then tm_state reading = ACTIVE
         else if dlt temperature d_40 then tm_state reading = WARNING
         else tm_state reading = ERROR)"

definition TemperatureSensor_TelemetryFieldsAreValid :: "double \<Rightarrow> u64 \<Rightarrow> bool" where
  "TemperatureSensor_TelemetryFieldsAreValid draw t \<longleftrightarrow>
     (let (_, sensor) = collectData_Temperature draw (new_TemperatureSensor 42);
          (reading, _) = createTelemetry t (getType_Temperature sensor) sensor
      in telemetry_fields_valid 42 Temperature reading \<and>
         dgt (tm_value reading) d_minus_20 \<and> dlt (tm_value reading) d_70)"

section \<open>Pressure sensor\<close>

definition PressureSensor_CreatesWithCorrectType :: bool where
  "PressureSensor_CreatesWithCorrectType \<longleftrightarrow> getType_Pressure (new_PressureSensor 1) = Pressure"

definition PressureSensor_GeneratesReasonablePressureRange :: "double \<Rightarrow> bool" where
  "PressureSensor_GeneratesReasonablePressureRange draw \<longleftrightarrow>
     (let (pressure, _) = collectData_Pressure draw (new_PressureSensor 1)
      in dgt pressure d_80 \<and> dlt pressure d_120)"

definition PressureSensor_CollectDataUpdatesValue :: "double \<Rightarrow> u64 \<Rightarrow> bool" where
  "PressureSensor_CollectDataUpdatesValue draw t \<longleftrightarrow>
     (let (value, sensor) = collectData_Pressure draw (new_PressureSensor 1);
          (reading, _) = createTelemetry t (getType_Pressure sensor) sensor
      in deq (tm_value reading) value)"

definition PressureSensor_UpdatesStateCorrectly :: "double \<Rightarrow> u64 \<Rightarrow> bool" where
  "PressureSensor_UpdatesStateCorrectly draw t \<longleftrightarrow>
     (let (pressure, sensor) = collectData_Pressure draw (new_PressureSensor 1);
          (reading, _) = createTelemetry t (getType_Pressure sensor) sensor
      in if dge pressure d_98 \<and> dle pressure d_104 then tm_state reading = ACTIVE
         else if (dge pressure d_95 \<and> dlt pressure d_98) \<or> (dgt pressure d_104 \<and> dle pressure d_107)
         then tm_state reading = WARNING
         else tm_state reading = ERROR)"

definition PressureSensor_TelemetryFieldsAreValid :: "double \<Rightarrow> u64 \<Rightarrow> bool" where
  "PressureSensor_TelemetryFieldsAreValid draw t \<longleftrightarrow>
     (let (_, sensor) = collectData_Pressure draw (new_PressureSensor 42);
          (reading, _) = createTelemetry t (getType_Pressure sensor) sensor
      in telemetry_fields_valid 42 Pressure reading \<and>
         dgt (tm_value reading) d_80 \<and> dlt (tm_value reading) d_120)"

section \<open>Battery sensor\<close>

definition BatterySensor_CreatesWithCorrectType :: bool where
  "BatterySensor_CreatesWithCorrectType \<longleftrightarrow> getType_Battery (new_BatterySensor 1) = Battery"

definition BatterySensor_BatteryDescending :: "double \<Rightarrow> double \<Rightarrow> bool" where
  "BatterySensor_BatteryDescending draw1 draw2 \<longleftrightarrow>
     (let (first, sensor) = collectData_Battery draw1 (new_BatterySensor 1);
          (second, _) = collectData_Battery draw2 sensor
      in dlt first d_100 \<and> dgt first zero_double \<and> dlt second first)"

fun battery_descends :: "double list \<Rightarrow> double \<Rightarrow> BatterySensor \<Rightarrow> bool" where
  "battery_descends [] previous sensor = True"
| "battery_descends (draw # draws) previous sensor =
     (let (current, sensor') = collectData_Battery draw sensor
      in dle current previous \<and> battery_descends draws current sensor')"

definition BatterySensor_BatteryLevelDecreasesOverTime :: "(nat \<Rightarrow> double) \<Rightarrow> bool" where
  "BatterySensor_BatteryLevelDecreasesOverTime draws \<longleftrightarrow>
     (let (previous, sensor) = collectData_Battery (draws 0) (new_BatterySensor 1)
      in battery_descends (map draws [1..<21]) previous sensor)"

definition BatterySensor_BatteryNeverBecomesNegative :: "(nat \<Rightarrow> double) \<Rightarrow> bool" where
  "BatterySensor_BatteryNeverBecomesNegative draws \<longleftrightarrow>
     (let (value, _) = fold (\<lambda>i (value, sensor). collectData_Battery (draws i) sensor) [0..<500]
                         (zero_double, new_BatterySensor 1)
      in dge value zero_double)"

definition BatterySensor_CollectDataUpdatesValue :: "double \<Rightarrow> u64 \<Rightarrow> bool" where
  "BatterySensor_CollectDataUpdatesValue draw t \<longleftrightarrow>
     (let (value, sensor) = collectData_Battery draw (new_BatterySensor 1);
          (reading, _) = createTelemetry t (getType_Battery sensor) sensor
      in deq (tm_value reading) value)"

definition BatterySensor_UpdatesStateCorrectly :: "double \<Rightarrow> u64 \<Rightarrow> bool" where
  "BatterySensor_UpdatesStateCorrectly draw t \<longleftrightarrow>
     (let (battery, sensor) = collectData_Battery draw (new_BatterySensor 1);
          (reading, _) = createTelemetry t (getType_Battery sensor) sensor
      in if dgt battery d_30 then tm_state reading = ACTIVE
         else if dgt battery d_10 then tm_state reading = WARNING
         else tm_state reading = ERROR)"

definition BatterySensor_TelemetryFieldsAreValid :: "double \<Rightarrow> u64 \<Rightarrow> bool" where
  "BatterySensor_TelemetryFieldsAreValid draw t \<longleftrightarrow>
     (let (_, sensor) = collectData_Battery draw (new_BatterySensor 42);
          (reading, _) = createTelemetry t (getType_Battery sensor) sensor
      in telemetry_fields_valid 42 Battery reading \<and>
         dgt (tm_value reading) zero_double \<and> dlt (tm_value reading) d_100)"

section \<open>The suites\<close>

lemma literals_are_thresholds:
  "d_30 = temperature_WARNING_THRESHOLD" "d_40 = temperature_ERROR_THRESHOLD"
  "d_98 = LOWER_WARNING_THRESHOLD" "d_104 = UPPER_WARNING_THRESHOLD" "d_95 = LOWER_ERROR_THRESHOLD"
  "d_107 = UPPER_ERROR_THRESHOLD" "d_100 = FULL_BATTERY"
  "temperature_WARNING_THRESHOLD = battery_WARNING_THRESHOLD" "d_10 = battery_ERROR_THRESHOLD"
  by (simp_all add: d_30_def d_40_def d_98_def d_104_def d_95_def d_107_def d_100_def d_10_def
      temperature_WARNING_THRESHOLD_def temperature_ERROR_THRESHOLD_def LOWER_WARNING_THRESHOLD_def
      UPPER_WARNING_THRESHOLD_def LOWER_ERROR_THRESHOLD_def UPPER_ERROR_THRESHOLD_def FULL_BATTERY_def
      battery_WARNING_THRESHOLD_def battery_ERROR_THRESHOLD_def)

text \<open>
  The intervals of the uniform distributions are those of the code (\<open>drain_ok\<close> for the battery); the
  normal distributions of temperature and pressure have no bounds.  The bounds their tests put on a
  reading are named here.
\<close>

definition motion_draw :: "double \<Rightarrow> bool" where
  "motion_draw d \<longleftrightarrow> dge d zero_double \<and> dle d d_1"

definition reasonable_temperature :: "double \<Rightarrow> bool" where
  "reasonable_temperature d \<longleftrightarrow> dgt d d_minus_20 \<and> dlt d d_70"

definition reasonable_pressure :: "double \<Rightarrow> bool" where
  "reasonable_pressure d \<longleftrightarrow> dgt d d_80 \<and> dlt d d_120"

text \<open>
  A suite runs its tests on draws and clock readings of their own: \<open>ds k i\<close> is the \<open>i\<close>-th draw and
  \<open>ts k\<close> the reading of the clock in test \<open>k\<close>.
\<close>

definition MotionSensorTests :: "(nat \<Rightarrow> nat \<Rightarrow> double) \<Rightarrow> (nat \<Rightarrow> u64) \<Rightarrow> bool" where
  "MotionSensorTests ds ts \<longleftrightarrow>
     MotionSensor_ValueInRange (ds 0 0) \<and> MotionSensor_StateIsValid (ds 1 0) (ts 1) \<and>
     MotionSensor_TelemetryFieldsAreValid (ds 2 0) (ts 2) \<and> MotionSensor_ReturnsMotionType \<and>
     MotionSensor_MultipleReadsProduceValidRange (ds 4)"

definition TemperatureSensorTests :: "(nat \<Rightarrow> double) \<Rightarrow> (nat \<Rightarrow> u64) \<Rightarrow> bool" where
  "TemperatureSensorTests ds ts \<longleftrightarrow>
     TemperatureSensor_GeneratedTemperatureIsReasonable (ds 0) \<and> TemperatureSensor_CreatesWithCorrectType \<and>
     TemperatureSensor_CollectDataUpdatesValue (ds 2) (ts 2) \<and>
     TemperatureSensor_UpdatesStateCorrectly (ds 3) (ts 3) \<and>
     TemperatureSensor_TelemetryFieldsAreValid (ds 4) (ts 4)"

definition PressureSensorTests :: "(nat \<Rightarrow> double) \<Rightarrow> (nat \<Rightarrow> u64) \<Rightarrow> bool" where
  "PressureSensorTests ds ts \<longleftrightarrow>
     PressureSensor_CreatesWithCorrectType \<and> PressureSensor_GeneratesReasonablePressureRange (ds 1) \<and>
     PressureSensor_CollectDataUpdatesValue (ds 2) (ts 2) \<and>
     PressureSensor_UpdatesStateCorrectly (ds 3) (ts 3) \<and>
     PressureSensor_TelemetryFieldsAreValid (ds 4) (ts 4)"

definition BatterySensorTests :: "(nat \<Rightarrow> nat \<Rightarrow> double) \<Rightarrow> (nat \<Rightarrow> u64) \<Rightarrow> bool" where
  "BatterySensorTests ds ts \<longleftrightarrow>
     BatterySensor_CreatesWithCorrectType \<and> BatterySensor_BatteryDescending (ds 1 0) (ds 1 1) \<and>
     BatterySensor_BatteryLevelDecreasesOverTime (ds 2) \<and> BatterySensor_BatteryNeverBecomesNegative (ds 3) \<and>
     BatterySensor_CollectDataUpdatesValue (ds 4 0) (ts 4) \<and> BatterySensor_UpdatesStateCorrectly (ds 5 0) (ts 5) \<and>
     BatterySensor_TelemetryFieldsAreValid (ds 6 0) (ts 6)"

lemmas motion_test_defs = MotionSensorTests_def MotionSensor_ValueInRange_def MotionSensor_StateIsValid_def
  MotionSensor_TelemetryFieldsAreValid_def MotionSensor_ReturnsMotionType_def
  MotionSensor_MultipleReadsProduceValidRange_def telemetry_fields_valid_def

lemmas temperature_test_defs = TemperatureSensorTests_def TemperatureSensor_GeneratedTemperatureIsReasonable_def
  TemperatureSensor_CreatesWithCorrectType_def TemperatureSensor_CollectDataUpdatesValue_def
  TemperatureSensor_UpdatesStateCorrectly_def TemperatureSensor_TelemetryFieldsAreValid_def
  telemetry_fields_valid_def

lemmas pressure_test_defs = PressureSensorTests_def PressureSensor_CreatesWithCorrectType_def
  PressureSensor_GeneratesReasonablePressureRange_def PressureSensor_CollectDataUpdatesValue_def
  PressureSensor_UpdatesStateCorrectly_def PressureSensor_TelemetryFieldsAreValid_def
  telemetry_fields_valid_def

lemmas battery_test_defs = BatterySensorTests_def BatterySensor_CreatesWithCorrectType_def
  BatterySensor_BatteryDescending_def BatterySensor_BatteryLevelDecreasesOverTime_def
  BatterySensor_BatteryNeverBecomesNegative_def BatterySensor_CollectDataUpdatesValue_def
  BatterySensor_UpdatesStateCorrectly_def BatterySensor_TelemetryFieldsAreValid_def
  telemetry_fields_valid_def

lemma motion_reads_ok: "list_all motion_draw ds \<Longrightarrow> motion_reads_in_range ds s"
  by (induction ds arbitrary: s) (simp_all add: collectData_Motion_def motion_draw_def Let_def)

lemma motion_tests_pass_iff:
  "(\<And>k i. motion_draw (ds k i)) \<Longrightarrow> MotionSensorTests ds ts \<longleftrightarrow> ts 2 \<noteq> 0"
  unfolding motion_test_defs
  by (simp add: motion_reads_ok list_all_iff del: upt_Suc upt_rec_numeral)
    (simp add: collectData_Motion_def createTelemetry_def new_MotionSensor_def motion_draw_def Let_def)

lemma temperature_tests_pass_iff:
  "(\<And>k. \<not> is_nan (ds k)) \<Longrightarrow>
   TemperatureSensorTests ds ts \<longleftrightarrow> reasonable_temperature (ds 0) \<and> reasonable_temperature (ds 4) \<and> ts 4 \<noteq> 0"
  unfolding temperature_test_defs literals_are_thresholds
  by (auto simp: collectData_Temperature_def createTelemetry_def new_TemperatureSensor_def reasonable_temperature_def
      deq_def dlt_def literal_values Let_def)

lemma pressure_tests_pass_iff:
  "(\<And>k. \<not> is_nan (ds k)) \<Longrightarrow>
   PressureSensorTests ds ts \<longleftrightarrow> reasonable_pressure (ds 1) \<and> (dge (ds 3) d_98 \<and> dle (ds 3) d_104) \<and>
     reasonable_pressure (ds 4) \<and> ts 4 \<noteq> 0"
  unfolding pressure_test_defs literals_are_thresholds using unit_value_pos
  by (auto simp: collectData_Pressure_def createTelemetry_def new_PressureSensor_def reasonable_pressure_def
      deq_def dlt_def dle_def literal_values Let_def)

text \<open>The first reading of a full battery lies strictly between 0 and 100.\<close>

lemma battery_first:
  assumes "drain_ok d" "collectData_Battery d (new_BatterySensor i) = (v, s)"
  shows "level_ok v" "batteryLevel s = v" "currentValue s = v" "sensorId s = i" "currentState s = battery_state v"
    "dgt v zero_double" "dlt v FULL_BATTERY"
proof -
  let ?s = "new_BatterySensor i"
  have full: "batteryLevel ?s = FULL_BATTERY" "sensorId ?s = i" by (simp_all add: new_BatterySensor_def)
  then have level: "level_ok (batteryLevel ?s)" using level_ok_full by simp
  note reading = battery_reading [OF level assms]
  show "level_ok v" "batteryLevel s = v" "currentValue s = v" "currentState s = battery_state v"
    using reading by simp_all
  show "sensorId s = i" using battery_collect_fields(4) [OF level assms] full by simp
  show "dlt v FULL_BATTERY" using reading unit_value_pos by (simp add: full dlt_def literal_values)
  have d: "is_finite d" "2 * scaled d \<le> unit_value" "0 \<le> scaled d"
    using assms(1) literal_values(12) drain_min_value unit_value_pos by (auto simp: drain_ok_def dle_def)
  have "is_finite FULL_BATTERY" "0 \<le> scaled FULL_BATTERY" using level_ok_full by (simp_all add: level_ok_scaled)
  from dsub_nonneg [OF this(1) d(1) this(2) d(3)] d(2)
  have "0 < scaled (dsub FULL_BATTERY d)"
    using round_mag_pos [of "nat (scaled FULL_BATTERY - scaled d)"] unit_value_pos by (simp add: literal_values)
  then have "batteryLevel (snd (collectData_Battery d ?s)) = dsub FULL_BATTERY d"
    by (simp add: batteryLevel_collect full dlt_def literal_values)
  then have "v = dsub FULL_BATTERY d" using assms(2) \<open>batteryLevel s = v\<close> by simp
  then show "dgt v zero_double"
    using \<open>0 < scaled (dsub FULL_BATTERY d)\<close> \<open>level_ok v\<close>
    by (simp add: dlt_def literal_values level_ok_def is_finite_not_nan)
qed

lemma battery_descends_ok:
  "level_ok (batteryLevel s) \<Longrightarrow> batteryLevel s = v \<Longrightarrow> list_all drain_ok ds \<Longrightarrow> battery_descends ds v s"
proof (induction ds arbitrary: v s)
  case (Cons d ds)
  obtain v' s' where c: "collectData_Battery d s = (v', s')" by (cases "collectData_Battery d s")
  have "level_ok v'" "batteryLevel s' = v'" and mono: "dgt (batteryLevel s) zero_double \<longrightarrow> dlt v' (batteryLevel s)"
    using battery_reading [OF _ _ c] Cons.prems by simp_all
  moreover have "20 * scaled v' \<le> max 0 (20 * scaled (batteryLevel s) - 3 * unit_value)"
    using battery_collect(2) [of s d] Cons.prems c \<open>batteryLevel s' = v'\<close> by simp
  then have "dle v' v"
    using Cons.prems(1,2) \<open>level_ok v'\<close> unit_value_pos by (auto simp: dle_def level_ok_scaled is_finite_not_nan)
  ultimately show ?case using Cons c by simp
qed simp

lemma battery_fold_nonneg:
  "level_ok v \<Longrightarrow> level_ok (batteryLevel s) \<Longrightarrow> (\<And>i. drain_ok (ds i)) \<Longrightarrow>
   (case fold (\<lambda>i (v, s). collectData_Battery (ds i) s) is (v, s) of (v', s') \<Rightarrow> level_ok v')"
proof (induction "is" arbitrary: v s)
  case (Cons i "is")
  obtain v' s' where c: "collectData_Battery (ds i) s = (v', s')" by (cases "collectData_Battery (ds i) s")
  then have "level_ok v'" "batteryLevel s' = v'" using battery_reading [OF _ _ c] Cons.prems by simp_all
  with Cons c show ?case by simp
qed simp

lemma battery_reading_tests:
  assumes "drain_ok d"
  shows "BatterySensor_CollectDataUpdatesValue d t" "BatterySensor_UpdatesStateCorrectly d t"
    "BatterySensor_TelemetryFieldsAreValid d t \<longleftrightarrow> t \<noteq> 0"
proof -
  obtain v s where c: "collectData_Battery d (new_BatterySensor 1) = (v, s)" by fastforce
  obtain v' s' where c': "collectData_Battery d (new_BatterySensor 42) = (v', s')" by fastforce
  note first = battery_first [OF assms c] and fields = battery_first [OF assms c']
  have "\<not> is_nan v" using first(1) by (simp add: level_ok_def is_finite_not_nan)
  then show "BatterySensor_CollectDataUpdatesValue d t" "BatterySensor_UpdatesStateCorrectly d t"
    using first
    by (simp_all add: BatterySensor_CollectDataUpdatesValue_def BatterySensor_UpdatesStateCorrectly_def c
        createTelemetry_def deq_def literals_are_thresholds battery_state_def dlt_def literal_values Let_def)
  show "BatterySensor_TelemetryFieldsAreValid d t \<longleftrightarrow> t \<noteq> 0"
    using fields
    by (simp add: BatterySensor_TelemetryFieldsAreValid_def c' telemetry_fields_valid_def createTelemetry_def
        literals_are_thresholds(7) Let_def)
qed

lemma battery_level_tests:
  assumes "\<And>i. drain_ok (ds i)"
  shows "BatterySensor_BatteryDescending (ds 0) (ds 1)" "BatterySensor_BatteryLevelDecreasesOverTime ds"
    "BatterySensor_BatteryNeverBecomesNegative ds"
proof -
  obtain v s where c: "collectData_Battery (ds 0) (new_BatterySensor 1) = (v, s)" by fastforce
  obtain w u where second: "collectData_Battery (ds 1) s = (w, u)" by fastforce
  note first = battery_first [OF assms c]
  have "dlt w v"
    using battery_reading [OF _ assms second] first by simp
  then show "BatterySensor_BatteryDescending (ds 0) (ds 1)"
    using first second by (simp add: BatterySensor_BatteryDescending_def c Let_def literals_are_thresholds(7))
  show "BatterySensor_BatteryLevelDecreasesOverTime ds"
    using first assms
    by (simp add: BatterySensor_BatteryLevelDecreasesOverTime_def c list_all_iff battery_descends_ok
        del: upt_Suc upt_rec_numeral)
  show "BatterySensor_BatteryNeverBecomesNegative ds"
    using battery_fold_nonneg [of zero_double "new_BatterySensor 1" ds "[0..<500]"] assms level_ok_zero level_ok_full
    by (auto simp: BatterySensor_BatteryNeverBecomesNegative_def new_BatterySensor_def level_ok_def
        simp del: upt_Suc upt_rec_numeral split: prod.splits)
qed

lemma battery_tests_pass_iff:
  assumes "\<And>k i. drain_ok (ds k i)"
  shows "BatterySensorTests ds ts \<longleftrightarrow> ts 6 \<noteq> 0"
  using battery_reading_tests [OF assms] battery_level_tests [of "ds 1", OF assms]
    battery_level_tests [of "ds 2", OF assms] battery_level_tests [of "ds 3", OF assms]
  by (simp add: BatterySensorTests_def BatterySensor_CreatesWithCorrectType_def)



end
