(* ===== verification/ComponentTests.thy ===== *)
theory ComponentTests
  imports EndToEnd SensorTests
begin

text \<open>
  The unit tests of the serializer, the gateway, the receiver, the node and the server,
  \<^verbatim>\<open>src/tests/PacketSerializerTests.cpp\<close> and the files beside it, as predicates.  The
  clock readings, random draws, members the tests leave uninitialised, descriptors and results of
  socket calls and the iteration order of the map are arguments; \<open>near\<close> is the comparison of
  \<^verbatim>\<open>EXPECT_DOUBLE_EQ\<close>.  An exception the test does not expect makes it fail.
\<close>

section \<open>Vocabulary\<close>

definition returns :: "'a result \<Rightarrow> ('a \<Rightarrow> bool) \<Rightarrow> bool" where
  "returns r P \<longleftrightarrow> (case r of Inl _ \<Rightarrow> False | Inr x \<Rightarrow> P x)"

definition throws_runtime_error :: "'a result \<Rightarrow> bool" where
  "throws_runtime_error r \<longleftrightarrow> (case r of Inl (runtime_error _) \<Rightarrow> True | _ \<Rightarrow> False)"

lemma returns_simps [simp]: "returns (Inr x) P = P x" "\<not> returns (Inl e) P"
  by (simp_all add: returns_def)

definition telemetry_message :: "u32 \<Rightarrow> u64 \<Rightarrow> SensorType \<Rightarrow> SensorState \<Rightarrow> double \<Rightarrow> TelemetryMessage" where
  "telemetry_message sid ts ty st v =
     \<lparr>tm_header = \<lparr>ph_type = TELEMETRY, ph_sensorId = sid, ph_timestamp_ms = ts\<rparr>,
      tm_type = ty, tm_state = st, tm_value = v\<rparr>"

definition heartbeat_message :: "u32 \<Rightarrow> u64 \<Rightarrow> HeartbeatMessage" where
  "heartbeat_message sid ts = \<lparr>hb_header = \<lparr>ph_type = HEARTBEAT, ph_sensorId = sid, ph_timestamp_ms = ts\<rparr>\<rparr>"

text \<open>The assertion that a copied map has \<open>n\<close> entries.\<close>

definition has_size :: "registry \<Rightarrow> nat \<Rightarrow> bool" where
  "has_size reg n \<longleftrightarrow> card (dom reg) = n"

definition d_0_1 :: double where "d_0_1 = Double 0x3FB999999999999A"
definition d_0_2 :: double where "d_0_2 = Double 0x3FC999999999999A"
definition d_0_3 :: double where "d_0_3 = Double 0x3FD3333333333333"
definition d_0_42 :: double where "d_0_42 = Double 0x3FDAE147AE147AE1"
definition d_0_5 :: double where "d_0_5 = Double 0x3FE0000000000000"
definition d_0_7 :: double where "d_0_7 = Double 0x3FE6666666666666"
definition d_0_75 :: double where "d_0_75 = Double 0x3FE8000000000000"
definition d_0_77 :: double where "d_0_77 = Double 0x3FE8A3D70A3D70A4"
definition d_0_87 :: double where "d_0_87 = Double 0x3FEBD70A3D70A3D7"
definition d_0_9 :: double where "d_0_9 = Double 0x3FECCCCCCCCCCCCD"
definition d_22_5 :: double where "d_22_5 = Double 0x4036800000000000"
definition d_25 :: double where "d_25 = Double 0x4039000000000000"
definition d_25_5 :: double where "d_25_5 = Double 0x4039800000000000"
definition d_123_456 :: double where "d_123_456 = Double 0x405EDD2F1A9FBE77"

section \<open>PacketSerializerTests\<close>

definition PacketSerializer_SerializeDeserializeTelemetry :: "(double \<Rightarrow> double \<Rightarrow> bool) \<Rightarrow> bool" where
  "PacketSerializer_SerializeDeserializeTelemetry near \<longleftrightarrow>
     (let original = telemetry_message 5 12345 Temperature ACTIVE d_25_5;
          buffer = serialize_telemetry original
      in returns (deserializeTelemetry buffer) (\<lambda>result.
           ph_type (tm_header result) = TELEMETRY \<and> ph_sensorId (tm_header result) = 5 \<and>
           ph_timestamp_ms (tm_header result) = 12345 \<and>
           tm_type result = Temperature \<and> tm_state result = ACTIVE \<and> near (tm_value result) d_25_5))"

definition PacketSerializer_SerializeDeserializeHeartbeat :: bool where
  "PacketSerializer_SerializeDeserializeHeartbeat \<longleftrightarrow>
     (let buffer = serialize_heartbeat (heartbeat_message 42 123456789)
      in returns (deserializeHeartbeat buffer) (\<lambda>result.
           ph_type (hb_header result) = HEARTBEAT \<and> ph_sensorId (hb_header result) = 42 \<and>
           ph_timestamp_ms (hb_header result) = 123456789))"

definition PacketSerializer_TelemetryPacketHasExpectedSize :: bool where
  "PacketSerializer_TelemetryPacketHasExpectedSize \<longleftrightarrow>
     length (serialize_telemetry (telemetry_message 1 100 Motion ACTIVE d_0_5)) = 23"

definition PacketSerializer_HeartbeatPacketHasExpectedSize :: bool where
  "PacketSerializer_HeartbeatPacketHasExpectedSize \<longleftrightarrow>
     length (serialize_heartbeat (heartbeat_message 1 100)) = 13"

definition PacketSerializer_SerializesProtocolEnumsUsingExpectedWireValues :: bool where
  "PacketSerializer_SerializesProtocolEnumsUsingExpectedWireValues \<longleftrightarrow>
     (let buffer = serialize_telemetry (telemetry_message 1 100 Pressure ERROR d_10)
      in buffer ! 0 = 1 \<and> buffer ! 13 = 4 \<and> buffer ! 14 = 3)"

definition PacketSerializer_DeserializesDoubleCorrectly :: "(double \<Rightarrow> double \<Rightarrow> bool) \<Rightarrow> bool" where
  "PacketSerializer_DeserializesDoubleCorrectly near \<longleftrightarrow>
     (let original = telemetry_message 1 100 Temperature WARNING d_123_456
      in returns (deserializeTelemetry (serialize_telemetry original))
           (\<lambda>result. near (tm_value result) (tm_value original)))"

definition PacketSerializer_PeekMessageTypeReturnsTelemetry :: bool where
  "PacketSerializer_PeekMessageTypeReturnsTelemetry \<longleftrightarrow>
     returns (peekMessageType (serialize_telemetry (telemetry_message 7 500 Motion ACTIVE d_0_75)))
       (\<lambda>ty. ty = TELEMETRY)"

definition PacketSerializer_PeekMessageTypeReturnsHeartbeat :: bool where
  "PacketSerializer_PeekMessageTypeReturnsHeartbeat \<longleftrightarrow>
     returns (peekMessageType (serialize_heartbeat (heartbeat_message 7 500))) (\<lambda>ty. ty = HEARTBEAT)"

definition PacketSerializer_ThrowsWhenPeekingIncompletePacket :: bool where
  "PacketSerializer_ThrowsWhenPeekingIncompletePacket \<longleftrightarrow>
     throws_runtime_error (peekMessageType (replicate 12 0))"

definition PacketSerializer_ThrowsOnIncompleteHeartbeatPacket :: bool where
  "PacketSerializer_ThrowsOnIncompleteHeartbeatPacket \<longleftrightarrow>
     throws_runtime_error (deserializeHeartbeat (replicate 12 0))"

definition PacketSerializer_ThrowsOnIncompleteTelemetryPacket :: bool where
  "PacketSerializer_ThrowsOnIncompleteTelemetryPacket \<longleftrightarrow>
     throws_runtime_error (deserializeTelemetry (replicate 22 0))"

definition PacketSerializerTests :: "(double \<Rightarrow> double \<Rightarrow> bool) \<Rightarrow> bool" where
  "PacketSerializerTests near \<longleftrightarrow>
     PacketSerializer_SerializeDeserializeTelemetry near \<and>
     PacketSerializer_SerializeDeserializeHeartbeat \<and>
     PacketSerializer_TelemetryPacketHasExpectedSize \<and>
     PacketSerializer_HeartbeatPacketHasExpectedSize \<and>
     PacketSerializer_SerializesProtocolEnumsUsingExpectedWireValues \<and>
     PacketSerializer_DeserializesDoubleCorrectly near \<and>
     PacketSerializer_PeekMessageTypeReturnsTelemetry \<and>
     PacketSerializer_PeekMessageTypeReturnsHeartbeat \<and>
     PacketSerializer_ThrowsWhenPeekingIncompletePacket \<and>
     PacketSerializer_ThrowsOnIncompleteHeartbeatPacket \<and>
     PacketSerializer_ThrowsOnIncompleteTelemetryPacket"

section \<open>GatewayTests\<close>

definition Gateway_CreatesNewSensor :: "u64 \<Rightarrow> bool" where
  "Gateway_CreatesNewSensor t \<longleftrightarrow>
     (let r = telemetry_message 1 100 Motion ACTIVE d_0_5;
          sensors = getSensors (updateSensorInfo t r init_Gateway)
      in has_size sensors 1 \<and>
         returns (map_at sensors 1) (\<lambda>info. ph_sensorId (tm_header (lastTelemetry info)) = 1) \<and>
         ph_type (tm_header r) = TELEMETRY)"

definition Gateway_OverwritesExistingSensor :: "u64 \<Rightarrow> u64 \<Rightarrow> bool" where
  "Gateway_OverwritesExistingSensor t t' \<longleftrightarrow>
     (let r1 = telemetry_message 1 100 Motion ACTIVE d_0_5;
          r2 = telemetry_message 1 200 Motion ACTIVE d_0_9;
          gateway1 = updateSensorInfo t r1 init_Gateway;
          gateway2 = updateSensorInfo t' r2 gateway1;
          sensors = getSensors gateway2
      in returns (map_at (getSensors gateway1) 1) (\<lambda>info.
           deq (tm_value (lastTelemetry info)) d_0_5 \<and> ph_timestamp_ms (tm_header (lastTelemetry info)) = 100) \<and>
         has_size sensors 1 \<and>
         returns (map_at sensors 1) (\<lambda>info.
           deq (tm_value (lastTelemetry info)) d_0_9 \<and> ph_timestamp_ms (tm_header (lastTelemetry info)) = 200))"

definition Gateway_UpdatesTimestamp :: "u64 \<Rightarrow> bool" where
  "Gateway_UpdatesTimestamp t \<longleftrightarrow>
     (let sensors = getSensors (updateSensorInfo t (telemetry_message 2 100 Motion ACTIVE d_0_5) init_Gateway)
      in has_size sensors 1 \<and> returns (map_at sensors 2) (\<lambda>info. lastTelemetryReceivedTime info > 0))"

definition Gateway_HandlePacketUpdatesSensor :: "u64 \<Rightarrow> bool" where
  "Gateway_HandlePacketUpdatesSensor t \<longleftrightarrow>
     (let packet = serialize_telemetry (telemetry_message 5 999 Motion ACTIVE d_0_77)
      in returns (handlePacket t packet init_Gateway) (\<lambda>(gateway, _).
           let sensors = getSensors gateway
           in has_size sensors 1 \<and>
              returns (map_at sensors 5) (\<lambda>info. ph_sensorId (tm_header (lastTelemetry info)) = 5)))"

text \<open>
  The time stamps and the state this test leaves uninitialised are \<open>junk\<close>, \<open>junk'\<close> and \<open>st\<close>.
\<close>

definition Gateway_HeartbeatDoesNotOverwriteTelemetry :: "u64 \<Rightarrow> u64 \<Rightarrow> u64 \<Rightarrow> u64 \<Rightarrow> SensorState \<Rightarrow> bool" where
  "Gateway_HeartbeatDoesNotOverwriteTelemetry t t' junk junk' st \<longleftrightarrow>
     (let telemetry = telemetry_message 5 junk Temperature st d_25;
          gateway = handleHeartbeat t' (heartbeat_message 5 junk') (updateSensorInfo t telemetry init_Gateway)
      in returns (map_at (getSensors gateway) 5) (\<lambda>info. deq (tm_value (lastTelemetry info)) d_25))"

definition Gateway_HandlePacketProcessesHeartbeat :: "u64 \<Rightarrow> bool" where
  "Gateway_HandlePacketProcessesHeartbeat t \<longleftrightarrow>
     (let packet = serialize_heartbeat (heartbeat_message 7 123)
      in returns (handlePacket t packet init_Gateway) (\<lambda>(gateway, _).
           let sensors = getSensors gateway
           in has_size sensors 1 \<and>
              returns (map_at sensors 7) (\<lambda>sensor.
                health sensor = ONLINE \<and> lastHeartbeatReceivedTime sensor > 0)))"

definition Gateway_HeartbeatUpdatesExistingSensor :: "u64 \<Rightarrow> u64 \<Rightarrow> u64 \<Rightarrow> bool" where
  "Gateway_HeartbeatUpdatesExistingSensor t t' junk \<longleftrightarrow>
     (let telemetry = telemetry_message 3 100 Temperature ACTIVE d_22_5;
          gateway1 = updateSensorInfo t telemetry init_Gateway
      in returns (map_at (getSensors gateway1) 3) (\<lambda>old.
           let oldTelemetryTime = lastTelemetryReceivedTime old;
               gateway2 = handleHeartbeat t' (heartbeat_message 3 junk) gateway1
           in returns (map_at (getSensors gateway2) 3) (\<lambda>sensor.
                deq (tm_value (lastTelemetry sensor)) d_22_5 \<and>
                lastHeartbeatReceivedTime sensor \<ge> oldTelemetryTime)))"

definition Gateway_HeartbeatOnline :: "u64 \<Rightarrow> bool" where
  "Gateway_HeartbeatOnline t \<longleftrightarrow>
     returns (map_at (getSensors (handleHeartbeat t (heartbeat_message 1 123) init_Gateway)) 1)
       (\<lambda>sensor. health sensor = ONLINE \<and> lastHeartbeatReceivedTime sensor > 0)"

definition Gateway_SensorWithoutHeartbeatRemainsUnknown :: "u64 \<Rightarrow> bool" where
  "Gateway_SensorWithoutHeartbeatRemainsUnknown t \<longleftrightarrow>
     (let telemetry = telemetry_message 7 100 Temperature ACTIVE d_30
      in returns (map_at (getSensors (updateSensorInfo t telemetry init_Gateway)) 7)
           (\<lambda>sensor. health sensor = UNKNOWN))"

definition Gateway_HandlePacketHeartbeatDoesNotOverwriteTelemetry :: "u64 \<Rightarrow> u64 \<Rightarrow> u64 \<Rightarrow> bool" where
  "Gateway_HandlePacketHeartbeatDoesNotOverwriteTelemetry t t' junk \<longleftrightarrow>
     (let telemetryPacket = serialize_telemetry (telemetry_message 5 100 Temperature ACTIVE d_25)
      in returns (handlePacket t telemetryPacket init_Gateway) (\<lambda>(gateway1, _).
           let heartbeatPacket = serialize_heartbeat (heartbeat_message 5 junk)
           in returns (handlePacket t' heartbeatPacket gateway1) (\<lambda>(gateway2, _).
                let sensors = getSensors gateway2
                in has_size sensors 1 \<and>
                   returns (map_at sensors 5) (\<lambda>sensor.
                     deq (tm_value (lastTelemetry sensor)) d_25 \<and> health sensor = ONLINE))))"

definition Gateway_SensorBecomesOnlineAfterHeartbeat :: "u64 \<Rightarrow> u64 \<Rightarrow> u64 \<Rightarrow> bool" where
  "Gateway_SensorBecomesOnlineAfterHeartbeat t t' junk \<longleftrightarrow>
     (let gateway1 = updateSensorInfo t (telemetry_message 8 100 Motion ACTIVE d_0_3) init_Gateway;
          gateway2 = handleHeartbeat t' (heartbeat_message 8 junk) gateway1
      in returns (map_at (getSensors gateway1) 8) (\<lambda>sensor. health sensor = UNKNOWN) \<and>
         returns (map_at (getSensors gateway2) 8) (\<lambda>sensor.
           health sensor = ONLINE \<and> lastHeartbeatReceivedTime sensor > 0))"

text \<open>
  Every test runs on inputs of its own: \<open>ts k i\<close> is the \<open>i\<close>-th reading of the clock in test
  \<open>k\<close> of the file, and \<open>junk k\<close>, \<open>junk' k\<close> are the members it leaves uninitialised.
\<close>

definition GatewayTests :: "(nat \<Rightarrow> nat \<Rightarrow> u64) \<Rightarrow> (nat \<Rightarrow> u64) \<Rightarrow> (nat \<Rightarrow> u64) \<Rightarrow> SensorState \<Rightarrow> bool" where
  "GatewayTests ts junk junk' st \<longleftrightarrow>
     Gateway_CreatesNewSensor (ts 0 0) \<and> Gateway_OverwritesExistingSensor (ts 1 0) (ts 1 1) \<and>
     Gateway_UpdatesTimestamp (ts 2 0) \<and> Gateway_HandlePacketUpdatesSensor (ts 3 0) \<and>
     Gateway_HeartbeatDoesNotOverwriteTelemetry (ts 4 0) (ts 4 1) (junk 4) (junk' 4) st \<and>
     Gateway_HandlePacketProcessesHeartbeat (ts 5 0) \<and>
     Gateway_HeartbeatUpdatesExistingSensor (ts 6 0) (ts 6 1) (junk 6) \<and>
     Gateway_HeartbeatOnline (ts 7 0) \<and> Gateway_SensorWithoutHeartbeatRemainsUnknown (ts 8 0) \<and>
     Gateway_HandlePacketHeartbeatDoesNotOverwriteTelemetry (ts 9 0) (ts 9 1) (junk 9) \<and>
     Gateway_SensorBecomesOnlineAfterHeartbeat (ts 10 0) (ts 10 1) (junk 10)"

section \<open>UdpReceiverTests\<close>

text \<open>
  The receiver the first test constructs takes no part in what it asserts; \<open>fd\<close> and \<open>bound\<close>
  are the results of its socket calls.
\<close>

definition UdpReceiver_ForwardsPacketToGateway :: "int \<Rightarrow> int \<Rightarrow> u64 \<Rightarrow> bool" where
  "UdpReceiver_ForwardsPacketToGateway fd bound t \<longleftrightarrow>
     returns (new_UdpReceiver 9000 fd bound) (\<lambda>_.
       let packet = serialize_telemetry (telemetry_message 10 123 Motion ACTIVE d_0_42)
       in returns (handlePacket t packet init_Gateway) (\<lambda>(gateway, _).
            let sensors = getSensors gateway
            in has_size sensors 1 \<and>
               returns (map_at sensors 10) (\<lambda>info. deq (tm_value (lastTelemetry info)) d_0_42)))"

definition UdpReceiver_HandlesMultiplePackets :: "u64 \<Rightarrow> u64 \<Rightarrow> bool" where
  "UdpReceiver_HandlesMultiplePackets t t' \<longleftrightarrow>
     (let r1 = telemetry_message 1 100 Motion ACTIVE d_0_1; r2 = telemetry_message 2 200 Motion ACTIVE d_0_9
      in returns (handlePacket t (serialize_telemetry r1) init_Gateway) (\<lambda>(gateway1, _).
         returns (handlePacket t' (serialize_telemetry r2) gateway1) (\<lambda>(gateway2, _).
           let sensors = getSensors gateway2
           in has_size sensors 2 \<and>
              returns (map_at sensors 1) (\<lambda>info. ph_sensorId (tm_header (lastTelemetry info)) = 1) \<and>
              returns (map_at sensors 2) (\<lambda>info. ph_sensorId (tm_header (lastTelemetry info)) = 2))))"

definition UdpReceiver_PacketOverwriteBehavior :: "u64 \<Rightarrow> u64 \<Rightarrow> bool" where
  "UdpReceiver_PacketOverwriteBehavior t t' \<longleftrightarrow>
     (let r1 = telemetry_message 1 100 Motion ACTIVE d_0_1; r2 = telemetry_message 1 200 Motion ACTIVE d_0_9
      in returns (handlePacket t (serialize_telemetry r1) init_Gateway) (\<lambda>(gateway1, _).
         returns (handlePacket t' (serialize_telemetry r2) gateway1) (\<lambda>(gateway2, _).
           let sensors = getSensors gateway2
           in has_size sensors 1 \<and>
              returns (map_at sensors 1) (\<lambda>info. deq (tm_value (lastTelemetry info)) d_0_9))))"

definition Gateway_MultipleSensorsAreStored :: "u64 \<Rightarrow> u64 \<Rightarrow> u64 \<Rightarrow> bool" where
  "Gateway_MultipleSensorsAreStored t t' t'' \<longleftrightarrow>
     (let gateway = updateSensorInfo t (telemetry_message 1 100 Motion ACTIVE d_0_1) init_Gateway;
          gateway = updateSensorInfo t' (telemetry_message 2 200 Motion WARNING d_0_2) gateway;
          gateway = updateSensorInfo t'' (telemetry_message 3 300 Motion ACTIVE d_0_3) gateway;
          sensors = getSensors gateway
      in has_size sensors 3 \<and>
         returns (map_at sensors 1) (\<lambda>info. ph_sensorId (tm_header (lastTelemetry info)) = 1) \<and>
         returns (map_at sensors 2) (\<lambda>info. ph_sensorId (tm_header (lastTelemetry info)) = 2) \<and>
         returns (map_at sensors 3) (\<lambda>info. ph_sensorId (tm_header (lastTelemetry info)) = 3))"

definition Gateway_LastUpdateTimeIsRecorded :: "u64 \<Rightarrow> bool" where
  "Gateway_LastUpdateTimeIsRecorded t \<longleftrightarrow>
     returns (map_at (getSensors (updateSensorInfo t (telemetry_message 1 100 Motion ACTIVE d_0_5) init_Gateway)) 1)
       (\<lambda>info. lastTelemetryReceivedTime info > 0)"

definition Gateway_HandlePacketStoresCorrectReading :: "(double \<Rightarrow> double \<Rightarrow> bool) \<Rightarrow> u64 \<Rightarrow> bool" where
  "Gateway_HandlePacketStoresCorrectReading near t \<longleftrightarrow>
     (let packet = serialize_telemetry (telemetry_message 42 555 Motion WARNING d_0_87)
      in returns (handlePacket t packet init_Gateway) (\<lambda>(gateway, _).
           let sensors = getSensors gateway
           in has_size sensors 1 \<and>
              returns (map_at sensors 42) (\<lambda>info.
                let stored = lastTelemetry info
                in ph_type (tm_header stored) = TELEMETRY \<and> ph_sensorId (tm_header stored) = 42 \<and>
                   tm_type stored = Motion \<and> tm_state stored = WARNING \<and> near (tm_value stored) d_0_87 \<and>
                   ph_timestamp_ms (tm_header stored) = 555)))"

definition UdpReceiverTests :: "(double \<Rightarrow> double \<Rightarrow> bool) \<Rightarrow> int \<Rightarrow> int \<Rightarrow> (nat \<Rightarrow> nat \<Rightarrow> u64) \<Rightarrow> bool" where
  "UdpReceiverTests near fd bound ts \<longleftrightarrow>
     UdpReceiver_ForwardsPacketToGateway fd bound (ts 0 0) \<and> UdpReceiver_HandlesMultiplePackets (ts 1 0) (ts 1 1) \<and>
     UdpReceiver_PacketOverwriteBehavior (ts 2 0) (ts 2 1) \<and>
     Gateway_MultipleSensorsAreStored (ts 3 0) (ts 3 1) (ts 3 2) \<and>
     Gateway_LastUpdateTimeIsRecorded (ts 4 0) \<and> Gateway_HandlePacketStoresCorrectReading near (ts 5 0)"

section \<open>SensorNodeTests\<close>

definition motion_node :: "u32 \<Rightarrow> int \<Rightarrow> SensorNode" where
  "motion_node sid telemetryInterval =
     new_SensorNode (IsMotion (new_MotionSensor sid)) telemetryInterval default_heartbeatInterval"

text \<open>
  Two calls of \<^verbatim>\<open>tick\<close> on a fresh node: the two messages and what the fake sender stored.
\<close>

definition two_ticks :: "double \<Rightarrow> u64 \<Rightarrow> double \<Rightarrow> u64 \<Rightarrow>
    (TelemetryMessage \<Rightarrow> TelemetryMessage \<Rightarrow> bytes list \<Rightarrow> bool) \<Rightarrow> bool" where
  "two_ticks draw t draw' t' P \<longleftrightarrow>
     (let (r1, node1, packets1) = tick FakeUdpSender_send draw t (motion_node 1 default_telemetryInterval) [];
          (r2, node2, packets2) = tick FakeUdpSender_send draw' t' node1 packets1
      in returns r1 (\<lambda>first. returns r2 (\<lambda>second. P first second packets2)))"

definition SensorNode_TickProducesValidReading :: "double \<Rightarrow> u64 \<Rightarrow> bool" where
  "SensorNode_TickProducesValidReading draw t \<longleftrightarrow>
     (let (r, _, _) = tick FakeUdpSender_send draw t (motion_node 1 100) []
      in returns r (\<lambda>r. ph_sensorId (tm_header r) = 1 \<and> dge (tm_value r) zero_double \<and> dle (tm_value r) d_1))"

definition SensorNode_SendsPacket :: "double \<Rightarrow> u64 \<Rightarrow> bool" where
  "SensorNode_SendsPacket draw t \<longleftrightarrow>
     (let (r, _, packets) = tick FakeUdpSender_send draw t (motion_node 1 default_telemetryInterval) []
      in returns r (\<lambda>_. length packets = 1 \<and> packets ! 0 \<noteq> []))"

definition SensorNode_TickUpdatesStateCorrectly :: "double \<Rightarrow> u64 \<Rightarrow> bool" where
  "SensorNode_TickUpdatesStateCorrectly draw t \<longleftrightarrow>
     (let (r, _, _) = tick FakeUdpSender_send draw t (motion_node 1 100) []
      in returns r (\<lambda>r. tm_state r = ACTIVE \<or> tm_state r = WARNING))"

definition SensorNode_PreservesSensorIdentityAcrossTicks :: "double \<Rightarrow> u64 \<Rightarrow> double \<Rightarrow> u64 \<Rightarrow> bool" where
  "SensorNode_PreservesSensorIdentityAcrossTicks draw t draw' t' \<longleftrightarrow>
     two_ticks draw t draw' t' (\<lambda>first second _.
       ph_sensorId (tm_header first) = ph_sensorId (tm_header second) \<and> tm_type first = tm_type second \<and>
       \<not> deq (tm_value first) (tm_value second))"

definition SensorNode_TickProducesValidTimestamp :: "double \<Rightarrow> u64 \<Rightarrow> double \<Rightarrow> u64 \<Rightarrow> bool" where
  "SensorNode_TickProducesValidTimestamp draw t draw' t' \<longleftrightarrow>
     two_ticks draw t draw' t' (\<lambda>r1 r2 _. ph_timestamp_ms (tm_header r2) \<ge> ph_timestamp_ms (tm_header r1))"

definition SensorNode_SendsMultiplePackets :: "double \<Rightarrow> u64 \<Rightarrow> double \<Rightarrow> u64 \<Rightarrow> bool" where
  "SensorNode_SendsMultiplePackets draw t draw' t' \<longleftrightarrow>
     two_ticks draw t draw' t' (\<lambda>_ _ packets. length packets = 2)"

text \<open>
  One call of \<^verbatim>\<open>sendHeartbeat\<close> on a fresh node, and the packets the fake sender stored.
\<close>

definition one_heartbeat :: "u32 \<Rightarrow> u64 \<Rightarrow> (bytes list \<Rightarrow> bool) \<Rightarrow> bool" where
  "one_heartbeat sid t P \<longleftrightarrow>
     (let (r, packets) = sendHeartbeat FakeUdpSender_send t (motion_node sid default_telemetryInterval) []
      in returns r (\<lambda>_. P packets))"

definition SensorNode_SendsHeartbeat :: "u64 \<Rightarrow> bool" where
  "SensorNode_SendsHeartbeat t \<longleftrightarrow>
     one_heartbeat 10 t (\<lambda>packets.
       length packets = 1 \<and> returns (peekMessageType (packets ! 0)) (\<lambda>ty. ty = HEARTBEAT))"

definition SensorNode_HeartbeatContainsCorrectSensorId :: "u64 \<Rightarrow> bool" where
  "SensorNode_HeartbeatContainsCorrectSensorId t \<longleftrightarrow>
     one_heartbeat 42 t (\<lambda>packets.
       length packets = 1 \<and>
       returns (deserializeHeartbeat (packets ! 0)) (\<lambda>heartbeat. ph_sensorId (hb_header heartbeat) = 42))"

definition SensorNode_HeartbeatContainsValidTimestamp :: "u64 \<Rightarrow> u64 \<Rightarrow> u64 \<Rightarrow> bool" where
  "SensorNode_HeartbeatContainsValidTimestamp t_before t t_after \<longleftrightarrow>
     one_heartbeat 1 t (\<lambda>packets.
       length packets = 1 \<and>
       returns (deserializeHeartbeat (packets ! 0)) (\<lambda>heartbeat.
         ph_timestamp_ms (hb_header heartbeat) \<ge> t_before \<and> ph_timestamp_ms (hb_header heartbeat) \<le> t_after))"

text \<open>
  The file repeats the serializer's round trip under another name.
\<close>

definition SensorNodeTests ::
  "(double \<Rightarrow> double \<Rightarrow> bool) \<Rightarrow> (nat \<Rightarrow> nat \<Rightarrow> double) \<Rightarrow> (nat \<Rightarrow> nat \<Rightarrow> u64) \<Rightarrow> bool" where
  "SensorNodeTests near ds ts \<longleftrightarrow>
     SensorNode_TickProducesValidReading (ds 0 0) (ts 0 0) \<and> SensorNode_SendsPacket (ds 1 0) (ts 1 0) \<and>
     SensorNode_TickUpdatesStateCorrectly (ds 2 0) (ts 2 0) \<and>
     SensorNode_PreservesSensorIdentityAcrossTicks (ds 3 0) (ts 3 0) (ds 3 1) (ts 3 1) \<and>
     SensorNode_TickProducesValidTimestamp (ds 4 0) (ts 4 0) (ds 4 1) (ts 4 1) \<and>
     SensorNode_SendsMultiplePackets (ds 5 0) (ts 5 0) (ds 5 1) (ts 5 1) \<and>
     PacketSerializer_SerializeDeserializeTelemetry near \<and>
     SensorNode_SendsHeartbeat (ts 7 0) \<and> SensorNode_HeartbeatContainsCorrectSensorId (ts 8 0) \<and>
     SensorNode_HeartbeatContainsValidTimestamp (ts 9 0) (ts 9 1) (ts 9 2)"

section \<open>TcpServerTests\<close>

text \<open>
  A request to a fresh server over a gateway nobody else uses: \<open>fd\<close>, \<open>bound\<close> and
  \<open>listening\<close> are the results of the socket calls, \<open>order\<close> is the iteration order of the map
  and \<open>nows k\<close> the time in the \<open>k\<close>-th critical section.
\<close>

definition request :: "int \<Rightarrow> int \<Rightarrow> int \<Rightarrow> Gateway \<Rightarrow> u32 list \<Rightarrow> (nat \<Rightarrow> u64) \<Rightarrow> string \<Rightarrow> (string \<Rightarrow> bool) \<Rightarrow> bool" where
  "request fd bound listening gateway order nows req P \<longleftrightarrow>
     returns (new_TcpServer fd bound listening) (\<lambda>(server, _, _).
       returns (processRequest (\<lambda>k. \<lparr>sn_gateway = gateway, sn_order = order, sn_now = nows k\<rparr>) req server)
         (\<lambda>(response, _, _). P response))"

definition TcpServer_ListCommandReturnsSensorIds ::
  "int \<Rightarrow> int \<Rightarrow> int \<Rightarrow> u32 list \<Rightarrow> (nat \<Rightarrow> u64) \<Rightarrow> u64 \<Rightarrow> u64 \<Rightarrow> bool" where
  "TcpServer_ListCommandReturnsSensorIds fd bound listening order nows t t' \<longleftrightarrow>
     (let r1 = telemetry_message 1 100 Motion ACTIVE d_0_5; r2 = telemetry_message 2 200 Motion ACTIVE d_0_7;
          gateway = updateSensorInfo t' r2 (updateSensorInfo t r1 init_Gateway)
      in request fd bound listening gateway order nows ''list''
           (\<lambda>response. sublist ''1'' response \<and> sublist ''2'' response))"

definition TcpServer_ProcessRequest_GetValidSensor ::
  "int \<Rightarrow> int \<Rightarrow> int \<Rightarrow> u32 list \<Rightarrow> (nat \<Rightarrow> u64) \<Rightarrow> u64 \<Rightarrow> bool" where
  "TcpServer_ProcessRequest_GetValidSensor fd bound listening order nows t \<longleftrightarrow>
     (let gateway = updateSensorInfo t (telemetry_message 1 200 Motion ACTIVE d_0_9) init_Gateway
      in request fd bound listening gateway order nows ''get 1'' (\<lambda>response.
           sublist ''messageType : TELEMETRY'' response \<and> sublist ''sensorId    : 1'' response \<and>
           sublist ''timestamp   : 200'' response \<and> sublist ''sensorType  : Motion'' response \<and>
           sublist ''state       : ACTIVE'' response \<and> sublist ''value       : 0.9'' response))"

definition TcpServer_UnknownCommand :: "int \<Rightarrow> int \<Rightarrow> int \<Rightarrow> (nat \<Rightarrow> u64) \<Rightarrow> bool" where
  "TcpServer_UnknownCommand fd bound listening nows \<longleftrightarrow>
     request fd bound listening init_Gateway [] nows ''hello'' (\<lambda>response. response = ''unknown command'' @ nl @ nl)"

definition TcpServer_ProcessRequest_SensorNotFound :: "int \<Rightarrow> int \<Rightarrow> int \<Rightarrow> (nat \<Rightarrow> u64) \<Rightarrow> bool" where
  "TcpServer_ProcessRequest_SensorNotFound fd bound listening nows \<longleftrightarrow>
     request fd bound listening init_Gateway [] nows ''get 99'' (\<lambda>response. response = ''sensor not found'' @ nl @ nl)"

text \<open>
  Every test has a server and a clock of its own.
\<close>

definition TcpServerTests ::
  "(nat \<Rightarrow> int) \<Rightarrow> (nat \<Rightarrow> int) \<Rightarrow> (nat \<Rightarrow> int) \<Rightarrow> u32 list \<Rightarrow> (nat \<Rightarrow> nat \<Rightarrow> u64) \<Rightarrow> (nat \<Rightarrow> nat \<Rightarrow> u64) \<Rightarrow> bool" where
  "TcpServerTests fds bounds listenings order nows ts \<longleftrightarrow>
     TcpServer_ListCommandReturnsSensorIds (fds 0) (bounds 0) (listenings 0) order (nows 0) (ts 0 0) (ts 0 1) \<and>
     TcpServer_ProcessRequest_GetValidSensor (fds 1) (bounds 1) (listenings 1) [1] (nows 1) (ts 1 0) \<and>
     TcpServer_UnknownCommand (fds 2) (bounds 2) (listenings 2) (nows 2) \<and>
     TcpServer_ProcessRequest_SensorNotFound (fds 3) (bounds 3) (listenings 3) (nows 3)"

section \<open>The suites\<close>

lemma test_messages_ok [simp]:
  "ty \<in> {Motion, Temperature, Battery, Pressure} \<Longrightarrow> st \<in> {ACTIVE, WARNING, ERROR} \<Longrightarrow>
   TelemetryMessage_ok (telemetry_message sid ts ty st v)"
  "HeartbeatMessage_ok (heartbeat_message sid ts)"
  by (auto simp: telemetry_message_def heartbeat_message_def TelemetryMessage_ok_def HeartbeatMessage_ok_def
      PacketHeader_ok_def)

lemma test_message_fields [simp]:
  "tm_header (telemetry_message sid ts ty st v) = \<lparr>ph_type = TELEMETRY, ph_sensorId = sid, ph_timestamp_ms = ts\<rparr>"
  "tm_type (telemetry_message sid ts ty st v) = ty" "tm_state (telemetry_message sid ts ty st v) = st"
  "tm_value (telemetry_message sid ts ty st v) = v"
  "hb_header (heartbeat_message sid ts) = \<lparr>ph_type = HEARTBEAT, ph_sensorId = sid, ph_timestamp_ms = ts\<rparr>"
  by (simp_all add: telemetry_message_def heartbeat_message_def)

text \<open>What the assertions on the codec and the registry come down to.\<close>

lemma test_codec [simp]:
  "TelemetryMessage_ok m \<Longrightarrow> deserializeTelemetry (serialize_telemetry m) = Inr m"
  "HeartbeatMessage_ok h \<Longrightarrow> deserializeHeartbeat (serialize_heartbeat h) = Inr h"
  using deserializeTelemetry_serialize [of m "[]"] deserializeHeartbeat_serialize [of h "[]"] by simp_all

lemma test_registry [simp]:
  "map_at (reg(sid \<mapsto> info)) sid = Inr info"
  "sid \<noteq> sid' \<Longrightarrow> map_at (reg(sid \<mapsto> info)) sid' = map_at reg sid'"
  "has_size (Map.empty :: registry) 0"
  "has_size reg (Suc n) \<Longrightarrow> reg sid \<noteq> None \<Longrightarrow> has_size (reg(sid \<mapsto> info)) (Suc n)"
  by (auto simp: map_at_def has_size_def insert_absorb domI)

lemma literals_not_nan [simp]:
  "\<not> is_nan d_0_42" "\<not> is_nan d_0_5" "\<not> is_nan d_0_87" "\<not> is_nan d_0_9" "\<not> is_nan d_22_5"
  "\<not> is_nan d_25" "\<not> is_nan d_25_5" "\<not> is_nan d_123_456"
  by (simp_all add: is_nan_def double_fields d_0_42_def d_0_5_def d_0_87_def d_0_9_def d_22_5_def d_25_def
      d_25_5_def d_123_456_def)

lemma deq_refl [simp]: "deq d d \<longleftrightarrow> \<not> is_nan d"
  by (simp add: deq_def)

lemmas serializer_test_defs = PacketSerializer_SerializeDeserializeTelemetry_def
  PacketSerializer_SerializeDeserializeHeartbeat_def PacketSerializer_TelemetryPacketHasExpectedSize_def
  PacketSerializer_HeartbeatPacketHasExpectedSize_def
  PacketSerializer_SerializesProtocolEnumsUsingExpectedWireValues_def
  PacketSerializer_DeserializesDoubleCorrectly_def PacketSerializer_PeekMessageTypeReturnsTelemetry_def
  PacketSerializer_PeekMessageTypeReturnsHeartbeat_def PacketSerializer_ThrowsWhenPeekingIncompletePacket_def
  PacketSerializer_ThrowsOnIncompleteHeartbeatPacket_def PacketSerializer_ThrowsOnIncompleteTelemetryPacket_def

lemmas gateway_test_defs = Gateway_CreatesNewSensor_def Gateway_OverwritesExistingSensor_def
  Gateway_UpdatesTimestamp_def Gateway_HandlePacketUpdatesSensor_def Gateway_HeartbeatDoesNotOverwriteTelemetry_def
  Gateway_HandlePacketProcessesHeartbeat_def Gateway_HeartbeatUpdatesExistingSensor_def Gateway_HeartbeatOnline_def
  Gateway_SensorWithoutHeartbeatRemainsUnknown_def Gateway_HandlePacketHeartbeatDoesNotOverwriteTelemetry_def
  Gateway_SensorBecomesOnlineAfterHeartbeat_def

lemmas receiver_test_defs = UdpReceiver_ForwardsPacketToGateway_def UdpReceiver_HandlesMultiplePackets_def
  UdpReceiver_PacketOverwriteBehavior_def Gateway_MultipleSensorsAreStored_def
  Gateway_LastUpdateTimeIsRecorded_def Gateway_HandlePacketStoresCorrectReading_def

lemmas registry_simps = getSensors_def sensors_updateSensorInfo sensors_handleHeartbeat handlePacket_serialized
  init_Gateway_def default_SensorInfo_def has_size_def

lemma incomplete_packets:
  "length p < 13 \<Longrightarrow> throws_runtime_error (peekMessageType p)"
  "length p < 13 \<Longrightarrow> throws_runtime_error (deserializeHeartbeat p)"
  "length p < 23 \<Longrightarrow> throws_runtime_error (deserializeTelemetry p)"
  using c_telemetry.dec_short [of p 0] c_header.dec_short [of p 0]
  by (simp_all add: throws_runtime_error_def peekMessageType_short underflow_error_def deserializeTelemetry_reader
      deserializeHeartbeat_def)

lemma packet_sizes:
  "length (serialize_telemetry m) = 23" "length (serialize_heartbeat h) = 13" "serialize_telemetry m \<noteq> []"
proof -
  show len: "length (serialize_telemetry m) = 23" by (simp add: c_telemetry.enc_length)
  show "length (serialize_heartbeat h) = 13" by (simp add: serialize_heartbeat_header c_header.enc_length)
  show "serialize_telemetry m \<noteq> []" using len by auto
qed

lemma serializer_tests_pass:
  assumes "\<And>d. \<not> is_nan d \<Longrightarrow> near d d"
  shows "PacketSerializerTests near"
proof -
  have "PacketSerializer_SerializesProtocolEnumsUsingExpectedWireValues" by code_simp
  then show ?thesis
    unfolding PacketSerializerTests_def
    by (simp add: serializer_test_defs assms packet_sizes incomplete_packets Let_def)
qed

lemma gateway_tests_pass_iff:
  "GatewayTests ts junk junk' st \<longleftrightarrow>
     0 < ts 2 0 \<and> 0 < ts 5 0 \<and> ts 6 0 \<le> ts 6 1 \<and> 0 < ts 7 0 \<and> 0 < ts 10 1"
proof -
  have "Gateway_CreatesNewSensor t" "Gateway_OverwritesExistingSensor t t'" "Gateway_HandlePacketUpdatesSensor t"
    "Gateway_HeartbeatDoesNotOverwriteTelemetry t t' j j' st" "Gateway_SensorWithoutHeartbeatRemainsUnknown t"
    "Gateway_HandlePacketHeartbeatDoesNotOverwriteTelemetry t t' j" for t t' j j'
    unfolding gateway_test_defs by (auto simp: registry_simps)
  moreover have "Gateway_UpdatesTimestamp t \<longleftrightarrow> 0 < t" "Gateway_HandlePacketProcessesHeartbeat t \<longleftrightarrow> 0 < t"
    "Gateway_HeartbeatUpdatesExistingSensor t t' j \<longleftrightarrow> t \<le> t'" "Gateway_HeartbeatOnline t \<longleftrightarrow> 0 < t"
    "Gateway_SensorBecomesOnlineAfterHeartbeat t t' j \<longleftrightarrow> 0 < t'" for t t' j
    unfolding gateway_test_defs by (auto simp: registry_simps)
  ultimately show ?thesis by (simp add: GatewayTests_def)
qed

lemma receiver_tests_pass_iff:
  assumes "\<And>d. \<not> is_nan d \<Longrightarrow> near d d"
  shows "UdpReceiverTests near fd bound ts \<longleftrightarrow> 0 \<le> fd \<and> 0 < ts 4 0"
proof -
  have "UdpReceiver_HandlesMultiplePackets t t'" "UdpReceiver_PacketOverwriteBehavior t t'"
    "Gateway_MultipleSensorsAreStored t t' t''" "Gateway_HandlePacketStoresCorrectReading near t" for t t' t''
    using assms unfolding receiver_test_defs by (simp_all add: registry_simps)
  moreover have "UdpReceiver_ForwardsPacketToGateway fd bound t \<longleftrightarrow> 0 \<le> fd" "Gateway_LastUpdateTimeIsRecorded t \<longleftrightarrow> 0 < t" for t
    unfolding receiver_test_defs by (auto simp: registry_simps new_UdpReceiver_def)
  ultimately show ?thesis by (simp add: UdpReceiverTests_def)
qed

lemmas node_test_defs = SensorNode_TickProducesValidReading_def SensorNode_SendsPacket_def
  SensorNode_TickUpdatesStateCorrectly_def SensorNode_PreservesSensorIdentityAcrossTicks_def
  SensorNode_TickProducesValidTimestamp_def SensorNode_SendsMultiplePackets_def SensorNode_SendsHeartbeat_def
  SensorNode_HeartbeatContainsCorrectSensorId_def SensorNode_HeartbeatContainsValidTimestamp_def

lemma motion_node_reading:
  "reading_of d t (nd_sensor (motion_node i iv)) =
     telemetry_message i t Motion (if dgt d motion_threshold then ACTIVE else WARNING) d"
  "reading_of d' t' (snd (any_createTelemetry t (snd (collectData d (nd_sensor (motion_node i iv)))))) =
     telemetry_message i t' Motion (if dgt d' motion_threshold then ACTIVE else WARNING) d'"
  by (simp_all add: reading_of_def motion_node_def new_SensorNode_def collectData_Motion_def createTelemetry_def
      new_MotionSensor_def detectMotion_def telemetry_message_def Let_def)

lemma motion_node_beat: "beat_of t (nd_sensor (motion_node i iv)) = heartbeat_message i t"
  by (simp add: beat_of_def heartbeat_message_def motion_node_def new_SensorNode_def any_getId_def getId_def
      truncate_eq new_MotionSensor_def)

lemma node_tests_pass_iff:
  assumes "\<And>d. \<not> is_nan d \<Longrightarrow> near d d" "\<And>k i. motion_draw (ds k i)"
  shows "SensorNodeTests near ds ts \<longleftrightarrow>
    \<not> deq (ds 3 0) (ds 3 1) \<and> ts 4 0 \<le> ts 4 1 \<and> ts 9 0 \<le> ts 9 1 \<and> ts 9 1 \<le> ts 9 2"
proof -
  note simps = tick_eq sendHeartbeat_eq FakeUdpSender_send_def motion_node_reading motion_node_beat packet_sizes
  have "SensorNode_TickProducesValidReading (ds 0 0) t" for t
    using assms(2) [of 0 0]
    by (simp add: SensorNode_TickProducesValidReading_def simps motion_draw_def Let_def)
  moreover have "SensorNode_SendsPacket d t" "SensorNode_TickUpdatesStateCorrectly d t"
    "SensorNode_SendsMultiplePackets d t d' t'" "SensorNode_SendsHeartbeat t"
    "SensorNode_HeartbeatContainsCorrectSensorId t" for d t d' t'
    unfolding node_test_defs two_ticks_def one_heartbeat_def by (simp_all add: simps Let_def)
  moreover have "SensorNode_PreservesSensorIdentityAcrossTicks d t d' t' \<longleftrightarrow> \<not> deq d d'"
    "SensorNode_TickProducesValidTimestamp d t d' t' \<longleftrightarrow> t \<le> t'"
    "SensorNode_HeartbeatContainsValidTimestamp t t' t'' \<longleftrightarrow> t \<le> t' \<and> t' \<le> t''" for d t d' t' t''
    unfolding node_test_defs two_ticks_def one_heartbeat_def by (simp_all add: simps Let_def)
  moreover have "PacketSerializer_SerializeDeserializeTelemetry near"
    using assms(1) by (simp add: PacketSerializer_SerializeDeserializeTelemetry_def Let_def)
  ultimately show ?thesis by (simp add: SensorNodeTests_def)
qed

lemma sublist_single: "sublist [c] xs \<longleftrightarrow> c \<in> set xs"
  by (induction xs) (auto simp: sublist_Cons_right)

lemma sublist_appendD: "sublist (xs @ ys) zs \<Longrightarrow> sublist xs zs"
  using sublist_order.order.trans sublist_append_rightI by blast

lemma lines_without_end:
  "list_all (\<lambda>line. sublist line text) (map (\<lambda>line. line @ eol) lines) \<Longrightarrow>
   list_all (\<lambda>line. sublist line text) lines"
  by (auto simp: list_all_iff dest: sublist_appendD)

lemma request_processed:
  assumes "0 \<le> fd" "iterates order (sensors g)"
  shows "request fd bound listening g order nows req P \<longleftrightarrow>
    P (response_of (\<lambda>k. \<lparr>sn_gateway = g, sn_order = order, sn_now = nows k\<rparr>) req)"
proof -
  let ?v = "\<lambda>k. \<lparr>sn_gateway = g, sn_order = order, sn_now = nows k\<rparr>"
  obtain server closed err where new: "new_TcpServer fd bound listening = Inr (server, closed, err)"
    using assms(1) by (cases "bound < 0"; cases "listening < 0") (simp_all add: new_TcpServer_def)
  obtain logs where "processRequest ?v req server = Inr (response_of ?v req,
      server\<lparr>ts_lastCommand := normalize_request req\<rparr>, (''[TCP] Command: '' @ normalize_request req) # logs)"
    using processRequest_response [of ?v req server] assms(2) by (auto simp: snapshot_ok_def)
  with new show ?thesis by (simp add: request_def)
qed

lemma show_0_9: "show_double d_0_9 = ''0.9''"
proof -
  have fields: "exp_field d_0_9 = 1022" "frac_field d_0_9 = 0xCCCCCCCCCCCCD" "\<not> sign_bit d_0_9"
    by (simp_all add: double_fields d_0_9_def)
  then have "double_ratio d_0_9 = (0x1CCCCCCCCCCCCD, 2 ^ 53)"
    by (simp add: double_ratio_def)
  moreover have "exp10_down 0x1CCCCCCCCCCCCD (2 ^ 53) = 1"
    by (simp add: exp10_down.simps)
  then have "g6_digits (0x1CCCCCCCCCCCCD, 2 ^ 53) = (900000, - 1)"
    by (simp add: g6_digits_def round_div_def)
  moreover have "dec_string 900000 = ''900000''" by (simp add: dec_string.simps digit_char_def)
  ultimately have "show_double d_0_9 = with_point ''0'' ''900000''"
    using fields by (simp add: show_double_def show_magnitude_def is_infinite_def magnitude_def)
  then show ?thesis by (simp add: with_point_def strip_zeros_def)
qed

lemma get_test_passes:
  assumes "0 \<le> fd"
  shows "TcpServer_ProcessRequest_GetValidSensor fd bound listening [1] nows t"
proof -
  let ?m = "telemetry_message 1 200 Motion ACTIVE d_0_9"
  let ?g = "updateSensorInfo t ?m init_Gateway"
  let ?v = "\<lambda>k. \<lparr>sn_gateway = ?g, sn_order = [1], sn_now = nows k\<rparr>"
  have it: "iterates [1] (sensors ?g)" by (simp add: registry_simps iterates_def)
  have "response_of ?v ''get 1'' = sensorDetails (\<lambda>k. ?v (Suc k)) 1"
    using response_get [of "[]" 1 ?v] by (simp add: dec_string.simps digit_char_def)
  moreover have "stored_reading 1 (sn_gateway (?v (Suc 0))) = Some ?m"
    by (simp add: stored_reading_def registry_simps)
  ultimately have lines: "list_all (\<lambda>line. sublist line (response_of ?v ''get 1'')) (reading_lines ?m)"
    using sensorDetails_lines [of 1 "\<lambda>k. ?v (Suc k)" ?m] by simp
  have eq: "reading_lines ?m = map (\<lambda>line. line @ nl)
      [''messageType : TELEMETRY'', ''sensorId    : 1'', ''timestamp   : 200'', ''sensorType  : Motion'',
       ''state       : ACTIVE'', ''value       : 0.9'']" (is "_ = map _ ?lines")
    by (simp add: reading_lines_def show_0_9 show_word_def dec_string.simps digit_char_def to_string_MessageType_def)
  from lines_without_end [OF lines [unfolded eq]] show ?thesis
    unfolding TcpServer_ProcessRequest_GetValidSensor_def Let_def request_processed [OF assms it]
    by (simp only: list.pred_inject simp_thms)
qed

lemma list_test_passes:
  assumes "0 \<le> fd" "set order = {1, 2}" "distinct order"
  shows "TcpServer_ListCommandReturnsSensorIds fd bound listening order nows t t'"
proof -
  let ?g = "updateSensorInfo t' (telemetry_message 2 200 Motion ACTIVE d_0_7)
      (updateSensorInfo t (telemetry_message 1 100 Motion ACTIVE d_0_5) init_Gateway)"
  let ?v = "\<lambda>k. \<lparr>sn_gateway = ?g, sn_order = order, sn_now = nows k\<rparr>"
  have it: "iterates order (sensors ?g)" using assms(2,3) by (auto simp: registry_simps iterates_def)
  have reg: "view_sensors ?v 0 = sensors ?g" by (simp add: view_sensors_def getSensors_def)
  have fin: "finite (dom (view_sensors ?v 0))" using iterates_finite [OF it] by (simp add: reg)
  have "response_of ?v ''list'' = list_header @ concat (map snd (list_rows ?v)) @ nl @ nl @ nl"
    using response_commands(4) [of "[]" ?v] sensorList_rows [of ?v] it by (simp add: snapshot_ok_def)
  moreover have "\<exists>row\<in>set (map snd (list_rows ?v)). set (show_word sid) \<subseteq> set row" if "sid \<in> {1, 2}" for sid :: u32
  proof -
    have "sid \<in> set (map fst (list_rows ?v))"
      unfolding list_rows_ids reg using that iterates_set [OF it, symmetric] assms(2) by simp
    then obtain row where "(sid, row) \<in> set (list_rows ?v)" by auto
    moreover from list_rows_row [OF fin this] have "set (show_word sid) \<subseteq> set row"
      by (auto simp: list_row_def setw_left_def Let_def)
    ultimately show ?thesis by force
  qed
  ultimately have "set (show_word sid) \<subseteq> set (response_of ?v ''list'')" if "sid \<in> {1, 2}" for sid :: u32
    using that by fastforce
  from this [of 1] this [of 2] show ?thesis
    unfolding TcpServer_ListCommandReturnsSensorIds_def Let_def request_processed [OF assms(1) it]
    by (simp add: show_word_def dec_string.simps digit_char_def sublist_single)
qed

text \<open>
  Without a socket the constructor throws, and the test fails with it.
\<close>

lemma no_socket_fails: "fd < 0 \<Longrightarrow> \<not> request fd bound listening g order nows req P"
  by (simp add: request_def new_TcpServer_def)

lemma tcp_tests_pass_iff:
  assumes "set order = {1, 2}" "distinct order"
  shows "TcpServerTests fds bounds listenings order nows ts \<longleftrightarrow> 0 \<le> fds 0 \<and> 0 \<le> fds 1 \<and> 0 \<le> fds 2 \<and> 0 \<le> fds 3"
proof -
  have empty: "iterates [] (sensors init_Gateway)" by (simp add: init_Gateway_def iterates_def)
  have "TcpServer_UnknownCommand fd bound listening nows" if "0 \<le> fd" for fd bound listening nows
    unfolding TcpServer_UnknownCommand_def request_processed [OF that empty]
    by (rule response_unknown) (simp_all add: normalize_eq is_line_end_def)
  moreover have "TcpServer_ProcessRequest_SensorNotFound fd bound listening nows" if "0 \<le> fd" for fd bound listening nows
    unfolding TcpServer_ProcessRequest_SensorNotFound_def request_processed [OF that empty]
    using response_get [of "[]" 99]
    by (simp add: init_Gateway_def dec_string.simps digit_char_def sensorDetails_def view_sensors_def getSensors_def)
  moreover have "\<not> TcpServer_ListCommandReturnsSensorIds fd bound listening order nows t t'"
    "\<not> TcpServer_ProcessRequest_GetValidSensor fd bound listening [1] nows t"
    "\<not> TcpServer_UnknownCommand fd bound listening nows" "\<not> TcpServer_ProcessRequest_SensorNotFound fd bound listening nows"
    if "fd < 0" for fd bound listening nows t t'
    using no_socket_fails [OF that]
    by (simp_all add: TcpServer_ListCommandReturnsSensorIds_def TcpServer_ProcessRequest_GetValidSensor_def
        TcpServer_UnknownCommand_def TcpServer_ProcessRequest_SensorNotFound_def Let_def)
  ultimately show ?thesis
    using get_test_passes list_test_passes [OF _ assms] unfolding TcpServerTests_def by (meson not_le)
qed

text \<open>
  C22: when the tests of serializer, gateway, receiver, node and server pass, exactly, with inputs of
  its own for every test.  The serializer's always do.  The others depend on what they do not control
  in these ways only: the clock must be past the epoch in four tests of the gateway and one of the
  receiver and must not be set back during one test of the gateway and two of the node, two random
  draws of the node must differ, and the operating system must grant the sockets.  Neither the
  members left uninitialised, the iteration order of the map, the results of bind and listen nor
  any other reading or draw matter.
\<close>

theorem component_tests_pass:
  assumes "\<And>d. \<not> is_nan d \<Longrightarrow> near d d" "\<And>k i. motion_draw (ds k i)" "set order = {1, 2}" "distinct order"
  shows "PacketSerializerTests near \<and>
    (GatewayTests gt junk junk' st \<longleftrightarrow> 0 < gt 2 0 \<and> 0 < gt 5 0 \<and> gt 6 0 \<le> gt 6 1 \<and> 0 < gt 7 0 \<and> 0 < gt 10 1) \<and>
    (UdpReceiverTests near fd bound rt \<longleftrightarrow> 0 \<le> fd \<and> 0 < rt 4 0) \<and>
    (SensorNodeTests near ds nt \<longleftrightarrow>
       \<not> deq (ds 3 0) (ds 3 1) \<and> nt 4 0 \<le> nt 4 1 \<and> nt 9 0 \<le> nt 9 1 \<and> nt 9 1 \<le> nt 9 2) \<and>
    (TcpServerTests fds bounds listenings order nows st' \<longleftrightarrow> 0 \<le> fds 0 \<and> 0 \<le> fds 1 \<and> 0 \<le> fds 2 \<and> 0 \<le> fds 3)"
proof (intro conjI)
  show "PacketSerializerTests near" using assms(1) by (rule serializer_tests_pass)
  show "UdpReceiverTests near fd bound rt \<longleftrightarrow> 0 \<le> fd \<and> 0 < rt 4 0" using assms(1) by (rule receiver_tests_pass_iff)
  show "SensorNodeTests near ds nt \<longleftrightarrow>
      \<not> deq (ds 3 0) (ds 3 1) \<and> nt 4 0 \<le> nt 4 1 \<and> nt 9 0 \<le> nt 9 1 \<and> nt 9 1 \<le> nt 9 2"
    using assms(1,2) by (rule node_tests_pass_iff)
qed (rule gateway_tests_pass_iff tcp_tests_pass_iff [OF assms(3,4)])+

text \<open>
  A clock that is set back between the two steps of one test, two equal draws or a refused socket make
  a suite fail.
\<close>

theorem component_tests_pass_witness:
  "GatewayTests (\<lambda>k i. 5) (\<lambda>k. 0) (\<lambda>k. 0) (SensorState_cast 77) \<and>
   \<not> GatewayTests (\<lambda>k i. if i = 0 then 6 else 5) (\<lambda>k. 0) (\<lambda>k. 0) (SensorState_cast 77) \<and>
   \<not> SensorNodeTests deq (\<lambda>k i. zero_double) (\<lambda>k i. 5) \<and>
   SensorNodeTests deq (\<lambda>k i. if i = 0 then zero_double else d_1) (\<lambda>k i. 5) \<and>
   TcpServerTests (\<lambda>k. 4) (\<lambda>k. - 1) (\<lambda>k. 0) [2, 1] (\<lambda>k i. 9) (\<lambda>k i. 5) \<and>
   \<not> TcpServerTests (\<lambda>k. - 1) (\<lambda>k. 0) (\<lambda>k. 0) [2, 1] (\<lambda>k i. 9) (\<lambda>k i. 5)"
proof -
  have draws: "motion_draw zero_double" "motion_draw d_1" "\<not> deq zero_double d_1" "deq zero_double zero_double"
    by (simp_all add: motion_draw_def deq_def dle_def is_nan_def double_fields scaled_def magnitude_def
        zero_double_def d_1_def)
  have order: "set [2, 1] = {1, 2 :: u32}" "distinct [2, 1 :: u32]" by auto
  note pass = component_tests_pass [of deq _ "[2, 1]", OF _ _ order]
  show ?thesis
    using draws pass [of "\<lambda>k i. if i = 0 then zero_double else d_1" "\<lambda>k i. 5" "\<lambda>k. 0" "\<lambda>k. 0" "SensorState_cast 77"
        0 0 "\<lambda>k i. 5" "\<lambda>k i. 5" "\<lambda>k. 4" "\<lambda>k. - 1" "\<lambda>k. 0" "\<lambda>k i. 9" "\<lambda>k i. 5"]
      pass [of "\<lambda>k i. zero_double" "\<lambda>k i. if i = 0 then 6 else 5" "\<lambda>k. 0" "\<lambda>k. 0" "SensorState_cast 77"
        0 0 "\<lambda>k i. 5" "\<lambda>k i. 5" "\<lambda>k. - 1" "\<lambda>k. 0" "\<lambda>k. 0" "\<lambda>k i. 9" "\<lambda>k i. 5"]
    by simp
qed

end
