(* ===== verification/Spec2Isabelle.thy ===== *)
theory Spec2Isabelle
  imports MainThreads MainProgram HeartbeatLiveness Alerts EndToEnd ConcurrentReports ComponentTests
begin

text \<open>
  \<^bold>\<open>A verified model of the smart sensor network.\<close>

  The program simulates sensors that send telemetry and heartbeats over UDP to a gateway, which keeps
  a registry of the latest state of every sensor; a watchdog marks silent sensors offline, a TCP
  server answers text queries, and a dashboard shows the log and the statistics.  The sources are
  \<^verbatim>\<open>src/include\<close>, \<^verbatim>\<open>src/src\<close> and \<^verbatim>\<open>src/main.cpp\<close>, with unit tests in
  \<^verbatim>\<open>src/tests\<close>.

  \<^bold>\<open>Parts and theories.\<close>

  \<^item> \<open>Prelude\<close>: integer types, exceptions as values (\<open>Inl\<close> of a result), iteration order of
    an unordered map.
  \<^item> \<open>ServiceLoop\<close>: the shape shared by all service threads, a loop over an atomic flag that
    another thread may clear, as a locale; composition, termination and the invariant rule are proved in
    it and used for the receiver, the node and the threads of \<^verbatim>\<open>main\<close>.
  \<^item> \<open>Codec\<close>: the interface of a fixed-width codec as a locale, with sequential composition and
    change of representation as sublocales.
  \<^item> \<open>Binary64\<close>: doubles by their bits; exact comparison, subtraction rounded to nearest even.
  \<^item> \<open>StdText\<close>, \<open>TimeUtils\<close>: decimal input and output, the default format of doubles, fields
    of a fixed width; \<^verbatim>\<open>common/TimeUtils.hpp\<close> with the clock as an input.
  \<^item> \<open>ProtocolTypes\<close>: \<^verbatim>\<open>common/ProtocolTypes.hpp\<close> and
    \<^verbatim>\<open>common/SensorTypesString.cpp\<close>.  An enumeration has one more constructor for the values a
    cast from a byte can produce outside its enumerators.
  \<^item> \<open>PacketSerializer\<close>: \<^verbatim>\<open>network/PacketSerializer.cpp\<close> down to the byte loops; every
    reader and writer pair interprets the codec locale, which yields round trips, exact failure
    conditions and the wire layout.
  \<^item> \<open>Gateway\<close>, \<open>GatewayHistory\<close>, \<open>Watchdog\<close>: \<^verbatim>\<open>gateway/Gateway.cpp\<close>.  Every member
    function is a state transformer over the record of its fields; \<open>GatewayHistory\<close> proves that
    any run of them refines a declarative specification of the history, \<open>Watchdog\<close> interleaves
    packet handling with scans, whose clock reading precedes the lock.
  \<^item> \<open>Sensors\<close>: \<^verbatim>\<open>sensor/Sensor.cpp\<close> and the four sensor classes as extensible records, with
    dynamic dispatch; the contract of a sensor class is a locale interpreted on each of them.  The value
    drawn from the random generator is an argument.
  \<^item> \<open>UdpSender\<close>, \<open>SensorNode\<close>: \<^verbatim>\<open>network/UdpSender.cpp\<close>, \<^verbatim>\<open>sensor/SensorNode.cpp\<close>.
    The interface \<^verbatim>\<open>IUdpSender\<close> is the locale \<open>iudp_sender\<close>, interpreted on the UDP sender
    over any operating system with the documented behaviour of \<^verbatim>\<open>sendto\<close> (\<open>os_sendto\<close>) and
    on the in-memory sender of the tests; the lemmas on \<open>tick\<close> and the loop of \<^verbatim>\<open>run\<close> are
    proved once inside it.
  \<^item> \<open>UdpReceiver\<close>: \<^verbatim>\<open>network/UdpReceiver.cpp\<close>; the locale \<open>packet_handler\<close> states what
    it needs of the gateway.
  \<^item> \<open>Monitor\<close>, \<open>TcpServer\<close>, \<open>ConsoleRenderer\<close>: the reports, the text protocol and the
    dashboard.  A report takes the gateway's lock several times, so it is a function of a view that
    gives what each of its critical sections sees.
  \<^item> \<open>Logger\<close>: \<^verbatim>\<open>monitor/Logger.cpp\<close>; the locale \<open>log_sink\<close> is the contract of a bounded
    history, and a step relation models the worker with the mutex, the condition variable and the
    atomic flag.
  \<^item> \<open>SensorNetwork\<close>: \<^verbatim>\<open>main.cpp\<close>; the seven nodes, the threads that drive them, the script
    of the main thread, and the whole system as one step relation over a network that may lose, repeat
    and reorder datagrams.
  \<^item> \<open>MainThreads\<close>, \<open>MainProgram\<close>: the thread functions of \<^verbatim>\<open>main.cpp\<close> with their
    bodies, and all of them together with the main thread under an arbitrary schedule, reduced to
    control flow, flags, log lines and exceptions.
  \<^item> \<open>TcpSession\<close>, \<open>HeartbeatLiveness\<close>, \<open>Alerts\<close>, \<open>EndToEnd\<close>: properties that span
    components: whole sessions of a client, from the timer of a node to the verdict of the watchdog and
    how fast silence is noticed, from the scan over the log history to the dashboard, and from the
    measuring cycle of a node over network, receiver, registry and report to the text a client receives.
  \<^item> \<open>ConcurrentReports\<close>: reports of the running system.  The locale \<open>monotone_steps\<close>, a
    step relation with an invariant and an order its steps respect, is interpreted on receiver and
    watchdog and, over any network, on the whole system: sensors never vanish and receive times never
    go back.  A run sampled at the critical sections of a report is a view of the reports of
    \<open>Monitor\<close>.
  \<^item> \<open>SensorTests\<close>, \<open>ComponentTests\<close>: the unit tests of \<^verbatim>\<open>src/tests\<close> as predicates
    on the random draws, clock readings, uninitialised members and socket results they run with.

  \<^bold>\<open>What is shown.\<close>  The wire format: messages survive serialization, decoding throws
  exactly on short buffers.  The gateway: each operation changes what it should and nothing else, runs
  refine the history specification, scans are independent of the hash order, invariants hold under
  every interleaving.  Sensors: the states follow the limits, batteries run down.  Nodes: a cycle sends
  the message it returns, the timers keep their rates.  Receiver, server and dashboard: what is passed
  on, answered, delivered and displayed, on every branch.  Logger: the history window, no message
  stranded, when the worker ends.  The system: everything in the registry was sent by a node of the
  program; the simulation threads send the messages of the seven sensors in order; a node whose loop
  turns and whose heartbeats arrive in time is online unless a heartbeat overtook a scan that had
  already read the clock; an overdue sensor is announced on the
  dashboard; a silent sensor is offline within the timeout and one period of the watchdog; a client
  receives the responses to its requests in order; a reading that arrived is reported to it in full,
  and the list shows only sensors of the program.  Reports made while the system runs: the total of
  the statistics never exceeds what was counted, and the ages in the list are those of the heartbeats
  current when the rows are printed.  The unit tests: exactly when they pass, as a condition
  on what they do not control.  The main program: every
  service loop ends after a stop, services are joined and the logger stopped in a safe order, and
  under every fair schedule the program ends unless a stop was lost or it waits for the user, a
  connected client or the worker of the logger.  Several theorems and lemmas exhibit
  defects: a live sensor marked offline by a race, a pressure sensor that never warns and the test that
  fails for it, a health report that contradicts itself, a logger whose \<^verbatim>\<open>stop\<close> can hang or
  leave messages behind, a datagram that ends the receiver, statistics that drop sensors, a misleading
  log line, identifiers that cannot be queried, a client that blocks the shutdown, requests misread when
  the network cuts them, a ready flag that is set too early to protect the shutdown, newlines that break
  the dashboard, and announcements that precede the event.

  \<^bold>\<open>Conventions and bounds.\<close>  Machine integers keep their width; \<^verbatim>\<open>size_t\<close> has 64
  bits.  A service loop is a recursion over the list of the inputs of its iterations (results of
  system calls, clock readings, calls of \<^verbatim>\<open>stop\<close> by other threads), so no fuel is needed: for
  every finite behaviour of the environment the result is defined, and its status says whether the
  loop would go on, has ended or was left by an exception.  The main program runs over a list of
  scheduling events, of the threads and of what they wait for; a potential function that starts at nine
  times the length of the script and two falls in every round of a fair schedule in which the main
  thread does not wait for the environment, and gives the bound of 417 rounds.  All other functions are
  total.  A critical
  section under a mutex is one atomic step; the steps of a thread between critical sections are
  separate.

  \<^bold>\<open>Not modelled.\<close>  The operating system beyond the results and effects of the calls made,
  the distributions of the random generators, the time zone, clearing the screen, waiting times of
  \<^verbatim>\<open>sleep_for\<close> (they only separate inputs, except in the script of the main thread, so a
  schedule may stretch them at will), the framing of datagrams below UDP, the assertion library of the
  unit tests (an assertion is its condition; the tolerance of \<^verbatim>\<open>EXPECT_DOUBLE_EQ\<close> is a parameter)
  and the build files.
\<close>

end
